(* ===== verification/Prelude.thy ===== *)
theory Prelude
  imports Complex_Main
begin

text \<open>
  Shared vocabulary of the supply-chain simulator development: the types that
  name the model's states, the JavaScript built-ins the source calls
  (\<open>Number.prototype.toFixed\<close>, \<open>Math.round\<close>) given a meaning on exact reals,
  the injected random source, and the generic lemmas on floors and rounding
  that the component theories share.
\<close>

named_theorems model_simps "equations of the modelled operations, unfolded by the component proofs"

type_synonym ms = int \<comment> \<open>a \<open>Date.now()\<close> value, in milliseconds\<close>
type_synonym addr = nat \<comment> \<open>a reference to a JavaScript object in the explicit heap\<close>

text \<open>
  \<open>Math.random()\<close> is a global generator with hidden state. The model makes the
  state explicit: a generator \<open>g\<close> maps a state to a draw and the next state.
  Its contract, that every draw lies in \<open>[0, 1)\<close>, is \<open>rng_ok\<close>.
\<close>

type_synonym 's rng = "'s \<Rightarrow> real \<times> 's"

abbreviation rng_ok :: "'s rng \<Rightarrow> bool" where
  "rng_ok g \<equiv> \<forall>s. 0 \<le> fst (g s) \<and> fst (g s) < 1"

text \<open>
  \<open>+x.toFixed(d)\<close>: ECMAScript picks the integer \<open>n\<close> nearest to \<open>|x| * 10^d\<close>,
  the larger one on a tie, and puts the sign back. Floating-point representation
  error is not modelled: numbers are exact reals.
\<close>

definition to_fixed :: "nat \<Rightarrow> real \<Rightarrow> real" where
  "to_fixed d x = sgn x * of_int \<lfloor>\<bar>x\<bar> * 10 ^ d + 1 / 2\<rfloor> / 10 ^ d"

text \<open>
  A JSON value, the payload the code hands to \<open>JSON.stringify\<close>. A \<open>JDate\<close> is
  the ISO-8601 string \<open>new Date().toISOString()\<close> of an instant; the text
  printing itself is not modelled, so a published message is its JSON value.
\<close>

datatype json = JNull | JBool bool | JNum real | JStr string | JDate ms
  | JArr "json list" | JObj "(string \<times> json) list"

text \<open>
  \<open>x || d\<close> for an optional string \<open>x\<close>: \<open>undefined\<close> and the empty string
  are falsy, so both give \<open>d\<close>.
\<close>

definition js_or_string :: "string option \<Rightarrow> string \<Rightarrow> string" where
  "js_or_string x d = (case x of None \<Rightarrow> d | Some v \<Rightarrow> if v = [] then d else v)"

text \<open>\<open>Math.round(x)\<close>: the nearest integer, ties towards \<open>+\<infinity>\<close>.\<close>

definition math_round :: "real \<Rightarrow> int" where
  "math_round x = \<lfloor>x + 1 / 2\<rfloor>"

subsection \<open>Uniform integer draws\<close>

text \<open>
  \<open>Math.floor(Math.random() * (k + 1))\<close> lies in \<open>[0, k]\<close> for \<open>k \<ge> 0\<close>:
  the shape of the demand draw and of the lead-time draw.
\<close>

lemma floor_draw_bounds:
  fixes r :: real and k :: int
  assumes "0 \<le> r" "r < 1" "0 \<le> k"
  shows "0 \<le> \<lfloor>r * (of_int k + 1)\<rfloor> \<and> \<lfloor>r * (of_int k + 1)\<rfloor> \<le> k"
proof
  show "0 \<le> \<lfloor>r * (of_int k + 1)\<rfloor>"
    using assms by simp
  have "r * (of_int k + 1) < of_int k + 1"
    using assms by (simp add: mult_less_cancel_right1)
  then show "\<lfloor>r * (of_int k + 1)\<rfloor> \<le> k"
    by (simp add: floor_le_iff)
qed

subsection \<open>Lists\<close>

lemma sum_list_indicator:
  "sum_list (map (\<lambda>x. if P x then 1 else 0) xs) = (int (length (filter P xs)) :: int)"
  by (induction xs) auto

lemma nth_map2 [simp]:
  "i < length xs \<Longrightarrow> i < length ys \<Longrightarrow> map2 f xs ys ! i = f (xs ! i) (ys ! i)"
  by simp

lemma map_update_self [simp]: "(map f xs)[i := f (xs ! i)] = map f xs"
  by (metis length_map list_update_beyond list_update_id not_le nth_map)

lemma length_filter_map_eq:
  "map P xs = map P ys \<Longrightarrow> length (filter P xs) = length (filter P ys)"
proof (induction xs arbitrary: ys)
  case Nil
  then show ?case by simp
next
  case (Cons x xs)
  then obtain y ys' where "ys = y # ys'" "P x = P y" "map P xs = map P ys'"
    by (cases ys) auto
  with Cons.IH show ?case by simp
qed

lemma length_filter_update_false:
  "i < length xs \<Longrightarrow> P (xs ! i) \<Longrightarrow> \<not> P y \<Longrightarrow>
   length (filter P (xs[i := y])) = length (filter P xs) - 1"
proof (induction xs arbitrary: i)
  case Nil
  then show ?case by simp
next
  case (Cons x xs)
  show ?case
  proof (cases i)
    case 0
    with Cons.prems show ?thesis by simp
  next
    case (Suc j)
    with Cons.prems have "length (filter P (xs[j := y])) = length (filter P xs) - 1"
      by (intro Cons.IH) simp_all
    moreover from Cons.prems Suc have "0 < length (filter P xs)"
      by (auto simp: length_filter_conv_card intro!: card_gt_0_iff[THEN iffD2])
    ultimately show ?thesis using Suc by simp
  qed
qed

lemma length_filter_update_same:
  "i < length xs \<Longrightarrow> P y = P (xs ! i) \<Longrightarrow> length (filter P (xs[i := y])) = length (filter P xs)"
proof (induction xs arbitrary: i)
  case Nil
  then show ?case by simp
next
  case (Cons x xs)
  then show ?case by (cases i) simp_all
qed

lemma filter_unique_index:
  assumes "length (filter P xs) \<le> 1" "i < length xs" "j < length xs" "P (xs ! i)" "P (xs ! j)"
  shows "i = j"
proof (rule ccontr)
  assume ne: "i \<noteq> j"
  have sub: "{i, j} \<subseteq> {k. k < length xs \<and> P (xs ! k)}" using assms(2-5) by blast
  have "card {i, j} \<le> card {k. k < length xs \<and> P (xs ! k)}"
    by (rule card_mono[OF _ sub]) simp
  then have "2 \<le> length (filter P xs)" using ne by (simp add: length_filter_conv_card)
  then show False using assms(1) by simp
qed

lemma map2_right [simp]:
  "length xs = length ys \<Longrightarrow> map2 (\<lambda>x y. f y) xs ys = map f ys"
  by (induction xs ys rule: list_induct2) auto

subsection \<open>Rounding to a fixed number of decimals\<close>

lemma to_fixed_error:
  "\<bar>to_fixed d x - x\<bar> \<le> 1 / (2 * 10 ^ d)"
proof -
  define m :: real where "m = 10 ^ d"
  define n where "n = \<lfloor>\<bar>x\<bar> * m + 1 / 2\<rfloor>"
  have m: "0 < m" by (simp add: m_def)
  have lo: "\<bar>x\<bar> * m - 1 / 2 < of_int n"
    unfolding n_def by linarith
  have hi: "of_int n \<le> \<bar>x\<bar> * m + 1 / 2"
    unfolding n_def by linarith
  have "of_int n / m - \<bar>x\<bar> = (of_int n - \<bar>x\<bar> * m) / m"
    using m by (simp add: diff_divide_distrib)
  then have "\<bar>of_int n / m - \<bar>x\<bar>\<bar> = \<bar>of_int n - \<bar>x\<bar> * m\<bar> / m"
    using m by (simp add: abs_divide)
  also have "\<dots> \<le> (1 / 2) / m"
    using lo hi m by (intro divide_right_mono) linarith+
  also have "\<dots> = 1 / (2 * m)" by simp
  finally have "\<bar>of_int n / m - \<bar>x\<bar>\<bar> \<le> 1 / (2 * m)" .
  then have err: "\<bar>of_int n / m - \<bar>x\<bar>\<bar> \<le> 1 / (2 * 10 ^ d)"
    by (simp add: m_def)
  have tf: "to_fixed d x = sgn x * (of_int n / m)"
    by (simp add: to_fixed_def n_def m_def)
  consider (pos) "0 < x" | (neg) "x < 0" | (zero) "x = 0" by linarith
  then show ?thesis
  proof cases
    case pos
    then show ?thesis using err tf by simp
  next
    case neg
    then have "\<bar>to_fixed d x - x\<bar> = \<bar>of_int n / m - \<bar>x\<bar>\<bar>"
      using tf by (simp add: abs_minus_commute)
    then show ?thesis using err by simp
  next
    case zero
    then show ?thesis by (simp add: to_fixed_def)
  qed
qed

lemma to_fixed_range:
  fixes k :: int
  assumes "0 \<le> x" "x \<le> of_int k"
  shows "0 \<le> to_fixed d x \<and> to_fixed d x \<le> of_int k"
proof -
  have k: "of_int k * 10 ^ d + 1 / 2 = of_int (k * 10 ^ d) + (1 / 2 :: real)"
    by simp
  have "\<lfloor>x * 10 ^ d + 1 / 2\<rfloor> \<le> \<lfloor>of_int k * 10 ^ d + (1 / 2 :: real)\<rfloor>"
    using assms by (intro floor_mono) simp
  also have "\<dots> = k * 10 ^ d"
    unfolding k by (subst floor_add2) (simp_all, metis floor_of_int of_int_mult of_int_numeral of_int_power)
  finally have "of_int \<lfloor>x * 10 ^ d + 1 / 2\<rfloor> \<le> (of_int (k * 10 ^ d) :: real)"
    by (simp only: of_int_le_iff)
  then have up: "of_int \<lfloor>x * 10 ^ d + 1 / 2\<rfloor> / 10 ^ d \<le> (of_int k :: real)"
    by (simp add: pos_divide_le_eq)
  have nonneg: "0 \<le> \<lfloor>x * 10 ^ d + 1 / (2 :: real)\<rfloor>"
    using assms by simp
  show ?thesis
  proof (cases "x = 0")
    case True
    then show ?thesis using assms by (simp add: to_fixed_def)
  next
    case False
    with assms have "sgn x = 1" "\<bar>x\<bar> = x" by simp_all
    then show ?thesis
      using up nonneg by (simp add: to_fixed_def)
  qed
qed

end
