(* ===== verification/Data_Model.thy ===== *)
theory Data_Model
  imports Prelude
begin

text \<open>
  The data of the simulator as \<^verbatim>\<open>src/types.ts\<close> and \<^verbatim>\<open>src/constants.ts\<close>
  declare it, and the fixed seed catalog \<open>initialProducts\<close> of
  \<^verbatim>\<open>src/App.tsx\<close>. JavaScript numbers that the code only ever holds as
  integers (stock counts, rates, totals) are \<open>int\<close>; the others (prices,
  temperatures, humidities, the operator's parameters, which the form parses
  with \<open>Number(value)\<close>) are \<open>real\<close>.
\<close>

section \<open>Types (\<^verbatim>\<open>src/types.ts\<close>)\<close>

record sim_params =
  initialStock :: real
  reorderPoint :: real
  reorderQuantity :: real
  demandMin :: real
  demandMax :: real
  leadTimeMin :: real
  leadTimeMax :: real
  simulationInterval :: real

text \<open>
  \<open>SimulationResult\<close>. The ISO-8601 string of \<open>new Date().toISOString()\<close> is
  represented by the instant it prints. The optional \<open>products\<close> snapshot is
  polymorphic: product values in the tick engine, heap references in the
  scheduler, where the snapshot aliases the registry's objects.
\<close>

record 'p simulation_result =
  timestamp :: ms
  demand :: int
  inventory_level :: int
  reorder_quantity :: int
  lead_time_days :: real
  stockout :: int
  products :: "'p list option"

datatype mqtt_status = CONNECTED | DISCONNECTED | CONNECTING | ERROR

primrec mqtt_status_value :: "mqtt_status \<Rightarrow> string" where
  "mqtt_status_value CONNECTED = ''Connected''"
| "mqtt_status_value DISCONNECTED = ''Disconnected''"
| "mqtt_status_value CONNECTING = ''Connecting''"
| "mqtt_status_value ERROR = ''Error''"

datatype product_type = FRESH | FROZEN | DRY

record sensor_reading =
  temperature :: real
  humidity :: real
  readAt :: ms \<comment> \<open>the field \<open>sensors.timestamp\<close>\<close>

record product =
  product_id :: string \<comment> \<open>\<open>id\<close>\<close>
  name :: string
  ptype :: product_type \<comment> \<open>\<open>type\<close>\<close>
  idealTemp :: real
  idealHumidity :: real
  maxStock :: int
  currentStock :: int
  reorderLevel :: int
  price :: real
  demandRate :: int
  sensors :: sensor_reading
  status :: string
  lastRestock :: "ms option"

section \<open>Constants (\<^verbatim>\<open>src/constants.ts\<close>)\<close>

record mqtt_config =
  BROKER_URL :: string
  PORT :: int
  TOPIC :: string

definition MQTT_CONFIG :: mqtt_config where
  "MQTT_CONFIG = \<lparr>BROKER_URL = ''test.mosquitto.org'', PORT = 8080,
                  TOPIC = ''supplychain/warehouse/events''\<rparr>"

definition DEFAULT_PARAMS :: sim_params where
  "DEFAULT_PARAMS = \<lparr>initialStock = 200, reorderPoint = 50, reorderQuantity = 150,
     demandMin = 10, demandMax = 50, leadTimeMin = 1, leadTimeMax = 5,
     simulationInterval = 1 / 2\<rparr>"

section \<open>The seed catalog (\<^verbatim>\<open>initialProducts\<close> in \<^verbatim>\<open>src/App.tsx\<close>)\<close>

text \<open>
  The catalog's names contain non-ASCII letters; a string is a list of bytes, so
  \<open>\<acute>e\<close> is its two UTF-8 bytes.
\<close>

definition e_acute :: string where
  "e_acute = [char_of (195 :: nat), char_of (169 :: nat)]"

text \<open>
  The catalog is rebuilt at every render of \<open>App\<close>; its sensor time stamps are
  \<open>Date.now()\<close> of that render, the argument \<open>now\<close>.
\<close>

definition initialProducts :: "ms \<Rightarrow> product list" where
  "initialProducts now =
    [\<lparr>product_id = ''P001'', name = ''Pommes Golden (Frais)'', ptype = FRESH,
      idealTemp = 4, idealHumidity = 90, maxStock = 500, currentStock = 450,
      reorderLevel = 100, price = 5 / 2, demandRate = 5,
      sensors = \<lparr>temperature = 21 / 5, humidity = 88, readAt = now\<rparr>,
      status = ''OK'', lastRestock = None\<rparr>,
     \<lparr>product_id = ''P002'', name = ''Steaks Hach'' @ e_acute @ ''s (Surgel'' @ e_acute @ '')'', ptype = FROZEN,
      idealTemp = -18, idealHumidity = 50, maxStock = 300, currentStock = 280,
      reorderLevel = 50, price = 89 / 10, demandRate = 3,
      sensors = \<lparr>temperature = -37 / 2, humidity = 55, readAt = now\<rparr>,
      status = ''OK'', lastRestock = None\<rparr>,
     \<lparr>product_id = ''P003'', name = ''Riz Basmati 5kg (Sec)'', ptype = DRY,
      idealTemp = 20, idealHumidity = 40, maxStock = 200, currentStock = 150,
      reorderLevel = 20, price = 12, demandRate = 1,
      sensors = \<lparr>temperature = 21, humidity = 38, readAt = now\<rparr>,
      status = ''OK'', lastRestock = None\<rparr>]"

section \<open>Well-formedness of a product\<close>

text \<open>
  The data-model invariant of the specification: positive capacity,
  non-negative threshold and demand rate, and stock within \<open>[0, maxStock]\<close>.
\<close>

definition product_wf :: "product \<Rightarrow> bool" where
  "product_wf p \<longleftrightarrow> 0 < maxStock p \<and> 0 \<le> reorderLevel p \<and> 0 \<le> demandRate p
     \<and> 0 \<le> currentStock p \<and> currentStock p \<le> maxStock p"

lemma initialProducts_wf: "list_all product_wf (initialProducts now)"
  by (simp add: initialProducts_def product_wf_def)

lemma initialProducts_status: "list_all (\<lambda>p. status p = ''OK'') (initialProducts now)"
  by (simp add: initialProducts_def)

lemma initialProducts_ids: "map product_id (initialProducts now) = [''P001'', ''P002'', ''P003'']"
  by (simp add: initialProducts_def)

end
