(* ===== verification/Tick_Engine.thy ===== *)
theory Tick_Engine
  imports Data_Model
begin

text \<open>
  The tick engine: the body of \<open>runSimulationTick\<close> in \<^verbatim>\<open>src/App.tsx\<close>, the
  updater passed to \<open>setProducts\<close>. It maps every product through one demand
  draw, the restock rule and two sensor draws, accumulating the tick's totals in
  four \<open>let\<close> variables, then draws the lead time once and assembles the
  aggregate. The theory holds the executable model, a declarative reference
  (\<open>product_step\<close>, \<open>tick_spec\<close>) and the proof that the model refines it,
  and the properties of a tick: the stock invariant, the aggregate's totals, the
  restock rule, the bounds of the draws and the sensor readings.
\<close>

section \<open>One product (the \<open>prev.map\<close> callback)\<close>

record totals =
  totalDemand :: int
  totalInventory :: int
  totalReorder :: int
  totalStockouts :: int

definition totals0 :: totals where
  "totals0 = \<lparr>totalDemand = 0, totalInventory = 0, totalReorder = 0, totalStockouts = 0\<rparr>"

text \<open>\<open>Math.floor(Math.random() * (p.demandRate + 1))\<close>\<close>

definition demand_draw :: "real \<Rightarrow> product \<Rightarrow> int" where
  "demand_draw r p = \<lfloor>r * (of_int (demandRate p) + 1)\<rfloor>"

text \<open>\<open>+(p.idealTemp + (Math.random() - 0.5) * 1).toFixed(2)\<close>\<close>

definition temp_reading :: "real \<Rightarrow> product \<Rightarrow> real" where
  "temp_reading r p = to_fixed 2 (idealTemp p + (r - 1 / 2) * 1)"

text \<open>\<open>+Math.max(0, Math.min(100, p.idealHumidity + (Math.random() - 0.5) * 4)).toFixed(1)\<close>\<close>

definition humidity_reading :: "real \<Rightarrow> product \<Rightarrow> real" where
  "humidity_reading r p = to_fixed 1 (max 0 (min 100 (idealHumidity p + (r - 1 / 2) * 4)))"

text \<open>\<open>Math.abs(newTemp - p.idealTemp) > 2 ? 'WARNING' : 'OK'\<close>\<close>

definition status_of :: "real \<Rightarrow> product \<Rightarrow> string" where
  "status_of newTemp p = (if 2 < \<bar>newTemp - idealTemp p\<bar> then ''WARNING'' else ''OK'')"

text \<open>
  The callback reads three draws of \<open>Math.random()\<close> in order. It returns the
  object \<open>p\<close> as it is after the in-place write \<open>p.lastRestock = Date.now()\<close>,
  and the fresh object built by the spread. The four running totals of the
  enclosing updater and the generator state are threaded through; the shadowing
  \<open>let\<close>s are the source's reassignments.
\<close>

definition simulate_product ::
  "'s rng \<Rightarrow> ms \<Rightarrow> product \<Rightarrow> totals \<times> 's \<Rightarrow> (product \<times> product) \<times> totals \<times> 's" where
  "simulate_product g now p acc =
    (let (tot, s) = acc;
         (r1, s1) = g s;
         sold = demand_draw r1 p;
         tot = tot\<lparr>totalDemand := totalDemand tot + sold\<rparr>;
         newStock = max 0 (currentStock p - sold);
         tot = (if newStock = 0 then tot\<lparr>totalStockouts := totalStockouts tot + 1\<rparr> else tot);
         (newStock, tot, p) =
           (if newStock \<le> reorderLevel p
            then (let reorderQty = maxStock p - newStock
                  in (newStock + reorderQty, tot\<lparr>totalReorder := totalReorder tot + reorderQty\<rparr>,
                      p\<lparr>lastRestock := Some now\<rparr>))
            else (newStock, tot, p));
         (r2, s2) = g s1;
         newTemp = temp_reading r2 p;
         (r3, s3) = g s2;
         newHumidity = humidity_reading r3 p;
         newStatus = status_of newTemp p;
         tot = tot\<lparr>totalInventory := totalInventory tot + newStock\<rparr>
     in ((p, p\<lparr>currentStock := newStock,
               sensors := \<lparr>temperature = newTemp, humidity = newHumidity, readAt = now\<rparr>,
               status := newStatus, lastRestock := lastRestock p\<rparr>),
         tot, s3))"

section \<open>The whole registry and the aggregate\<close>

text \<open>\<open>prev.map(...)\<close>: the callback applied in registry order.\<close>

fun simulate_products ::
  "'s rng \<Rightarrow> ms \<Rightarrow> product list \<Rightarrow> totals \<times> 's \<Rightarrow> (product \<times> product) list \<times> totals \<times> 's" where
  "simulate_products g now [] acc = ([], acc)"
| "simulate_products g now (p # ps) acc =
     (let (pp, acc1) = simulate_product g now p acc;
          (pps, acc2) = simulate_products g now ps acc1
      in (pp # pps, acc2))"

text \<open>
  \<open>Math.floor(Math.random() * (params.leadTimeMax - params.leadTimeMin + 1)) +
  params.leadTimeMin\<close>; the parameters are not validated anywhere.
\<close>

definition lead_time :: "sim_params \<Rightarrow> real \<Rightarrow> real" where
  "lead_time params r =
     of_int \<lfloor>r * (leadTimeMax params - leadTimeMin params + 1)\<rfloor> + leadTimeMin params"

text \<open>
  What the updater produces: the previous objects after their in-place writes,
  the next registry \<open>next\<close>, the aggregate \<open>agg\<close> (without the product
  snapshot, as it is published), and the generator state.
\<close>

record 's tick_out =
  prev_after :: "product list"
  next_products :: "product list"
  aggregate :: "product simulation_result"
  rng_after :: 's

definition tick :: "'s rng \<Rightarrow> ms \<Rightarrow> sim_params \<Rightarrow> product list \<Rightarrow> 's \<Rightarrow> 's tick_out" where
  "tick g now params prev s =
    (let (pairs, tot, s1) = simulate_products g now prev (totals0, s);
         next = map snd pairs;
         (r, s2) = g s1;
         leadTime = lead_time params r;
         agg = \<lparr>timestamp = now, demand = totalDemand tot, inventory_level = totalInventory tot,
                reorder_quantity = totalReorder tot, lead_time_days = leadTime,
                stockout = totalStockouts tot, products = None\<rparr>
     in \<lparr>prev_after = map fst pairs, next_products = next, aggregate = agg, rng_after = s2\<rparr>)"

section \<open>Declarative reference\<close>

text \<open>
  What a tick promises, without accumulators: three draws per product in
  registry order, each product's outcome a function of its own draws, and the
  aggregate the sums of the per-product contributions.
\<close>

fun product_draws :: "'s rng \<Rightarrow> product list \<Rightarrow> 's \<Rightarrow> (real \<times> real \<times> real) list \<times> 's" where
  "product_draws g [] s = ([], s)"
| "product_draws g (p # ps) s =
     (let (r1, s1) = g s; (r2, s2) = g s1; (r3, s3) = g s2; (ds, s4) = product_draws g ps s3
      in ((r1, r2, r3) # ds, s4))"

definition after_sale :: "real \<Rightarrow> product \<Rightarrow> int" where
  "after_sale r p = max 0 (currentStock p - demand_draw r p)"

definition restocks :: "real \<Rightarrow> product \<Rightarrow> bool" where
  "restocks r p \<longleftrightarrow> after_sale r p \<le> reorderLevel p"

definition reorder_of :: "real \<Rightarrow> product \<Rightarrow> int" where
  "reorder_of r p = (if restocks r p then maxStock p - after_sale r p else 0)"

definition stockout_of :: "real \<Rightarrow> product \<Rightarrow> int" where
  "stockout_of r p = (if after_sale r p = 0 then 1 else 0)"

definition product_step :: "ms \<Rightarrow> real \<times> real \<times> real \<Rightarrow> product \<Rightarrow> product \<times> product" where
  "product_step now d p =
     (case d of (r1, r2, r3) \<Rightarrow>
        let pm = (if restocks r1 p then p\<lparr>lastRestock := Some now\<rparr> else p);
            t = temp_reading r2 p
        in (pm, pm\<lparr>currentStock := (if restocks r1 p then maxStock p else after_sale r1 p),
                   sensors := \<lparr>temperature = t, humidity = humidity_reading r3 p, readAt = now\<rparr>,
                   status := status_of t p\<rparr>))"

definition add_totals :: "totals \<Rightarrow> int \<Rightarrow> int \<Rightarrow> int \<Rightarrow> int \<Rightarrow> totals" where
  "add_totals tot d i r k =
     \<lparr>totalDemand = totalDemand tot + d, totalInventory = totalInventory tot + i,
      totalReorder = totalReorder tot + r, totalStockouts = totalStockouts tot + k\<rparr>"

definition tick_spec ::
  "ms \<Rightarrow> sim_params \<Rightarrow> (real \<times> real \<times> real) list \<Rightarrow> real \<Rightarrow> product list
   \<Rightarrow> product list \<times> product list \<times> product simulation_result" where
  "tick_spec now params ds r prev =
    (let pairs = map2 (product_step now) ds prev;
         next = map snd pairs
     in (map fst pairs, next,
         \<lparr>timestamp = now,
          demand = sum_list (map2 (\<lambda>d. demand_draw (fst d)) ds prev),
          inventory_level = sum_list (map currentStock next),
          reorder_quantity = sum_list (map2 (\<lambda>d. reorder_of (fst d)) ds prev),
          lead_time_days = lead_time params r,
          stockout = sum_list (map2 (\<lambda>d. stockout_of (fst d)) ds prev),
          products = None\<rparr>))"

text \<open>The contract of one product's draws: each in \<open>[0, 1)\<close>.\<close>

definition draw_ok :: "real \<times> real \<times> real \<Rightarrow> bool" where
  "draw_ok d \<longleftrightarrow> (case d of (r1, r2, r3) \<Rightarrow>
     0 \<le> r1 \<and> r1 < 1 \<and> 0 \<le> r2 \<and> r2 < 1 \<and> 0 \<le> r3 \<and> r3 < 1)"

text \<open>
  The safety margin of a product: its stock lies above its reorder level, and
  the level covers the largest demand a tick can draw (\<open>demandRate\<close>), so
  one tick can bring it to the level but never to zero.
\<close>

definition stock_margin :: "product \<Rightarrow> bool" where
  "stock_margin p \<longleftrightarrow> 0 \<le> demandRate p \<and> demandRate p \<le> reorderLevel p
     \<and> reorderLevel p < currentStock p \<and> currentStock p \<le> maxStock p"

text \<open>The attributes no tick writes.\<close>

definition static_attrs :: "product \<Rightarrow> string \<times> string \<times> product_type \<times> real \<times> real \<times> int \<times> int \<times> real \<times> int" where
  "static_attrs q = (product_id q, name q, ptype q, idealTemp q, idealHumidity q,
                     maxStock q, reorderLevel q, price q, demandRate q)"

text \<open>
  A linear congruential generator that stands in for \<open>Math.random()\<close> in the
  worked examples below; its draws are multiples of \<open>1/1000\<close> in \<open>[0, 1)\<close>.
\<close>

definition demo_rng :: "nat rng" where
  "demo_rng s = (of_nat (s mod 1000) / 1000, (s * 733 + 271) mod 1000)"

section \<open>The loop refines the declarative tick\<close>

lemma product_draws_length: "product_draws g ps s = (ds, s') \<Longrightarrow> length ds = length ps"
  by (induction ps arbitrary: s ds s') (auto simp: Let_def split: prod.splits)

text \<open>The sensor draws and the status do not read \<open>lastRestock\<close>.\<close>

lemma readings_lastRestock [simp]:
  "temp_reading r (p\<lparr>lastRestock := x\<rparr>) = temp_reading r p"
  "humidity_reading r (p\<lparr>lastRestock := x\<rparr>) = humidity_reading r p"
  "status_of t (p\<lparr>lastRestock := x\<rparr>) = status_of t p"
  by (simp_all add: temp_reading_def humidity_reading_def status_of_def)

lemma simulate_product_step:
  "simulate_product g now p (tot, s) =
    (let (r1, s1) = g s; (r2, s2) = g s1; (r3, s3) = g s2;
         pp = product_step now (r1, r2, r3) p
     in (pp, add_totals tot (demand_draw r1 p) (currentStock (snd pp)) (reorder_of r1 p)
               (stockout_of r1 p), s3))"
proof -
  obtain r1 s1 where g1: "g s = (r1, s1)" by fastforce
  obtain r2 s2 where g2: "g s1 = (r2, s2)" by fastforce
  obtain r3 s3 where g3: "g s2 = (r3, s3)" by fastforce
  show ?thesis
    by (simp add: simulate_product_def product_step_def add_totals_def after_sale_def
        restocks_def reorder_of_def stockout_of_def g1 g2 g3 Let_def)
qed

lemma add_totals_zero [simp]: "add_totals tot 0 0 0 0 = tot"
  by (simp add: add_totals_def)

lemma add_totals_add [simp]:
  "add_totals (add_totals tot a b c d) a' b' c' d' = add_totals tot (a + a') (b + b') (c + c') (d + d')"
  by (simp add: add_totals_def)

lemma add_totals_sel [simp]:
  "totalDemand (add_totals tot a b c d) = totalDemand tot + a"
  "totalInventory (add_totals tot a b c d) = totalInventory tot + b"
  "totalReorder (add_totals tot a b c d) = totalReorder tot + c"
  "totalStockouts (add_totals tot a b c d) = totalStockouts tot + d"
  by (simp_all add: add_totals_def)

text \<open>
  The loop with its four accumulators computes the declarative tick: the
  pairs are \<open>product_step\<close> applied to each product's own draws, and each
  accumulator grows by the sum of the products' contributions.
\<close>

lemma simulate_products_refines:
  "simulate_products g now ps (tot, s) =
    (let (ds, s') = product_draws g ps s;
         pairs = map2 (product_step now) ds ps
     in (pairs,
         add_totals tot (sum_list (map2 (\<lambda>d. demand_draw (fst d)) ds ps))
           (sum_list (map (currentStock \<circ> snd) pairs))
           (sum_list (map2 (\<lambda>d. reorder_of (fst d)) ds ps))
           (sum_list (map2 (\<lambda>d. stockout_of (fst d)) ds ps)),
         s'))"
proof (induction ps arbitrary: tot s)
  case Nil
  then show ?case by simp
next
  case (Cons p ps)
  obtain r1 s1 where g1: "g s = (r1, s1)" by fastforce
  obtain r2 s2 where g2: "g s1 = (r2, s2)" by fastforce
  obtain r3 s3 where g3: "g s2 = (r3, s3)" by fastforce
  obtain ds s4 where dr: "product_draws g ps s3 = (ds, s4)" by fastforce
  show ?case
    using Cons.IH[of _ s3]
    by (simp add: simulate_product_step g1 g2 g3 dr Let_def algebra_simps)
qed

lemma tick_unfold:
  assumes "product_draws g prev s = (ds, s1)" and "g s1 = (r, s2)"
  shows "tick g now params prev s =
    (case tick_spec now params ds r prev of (pa, nx, agg) \<Rightarrow>
       \<lparr>prev_after = pa, next_products = nx, aggregate = agg, rng_after = s2\<rparr>)"
  using assms
  by (simp add: tick_def simulate_products_refines totals0_def add_totals_def tick_spec_def
      Let_def comp_def)

text \<open>Projections of a tick through its draws, used by the properties below.\<close>

lemma tick_parts:
  assumes "product_draws g prev s = (ds, s1)" and "g s1 = (r, s2)"
  shows "next_products (tick g now params prev s) = map snd (map2 (product_step now) ds prev)"
    and "prev_after (tick g now params prev s) = map fst (map2 (product_step now) ds prev)"
    and "aggregate (tick g now params prev s) = snd (snd (tick_spec now params ds r prev))"
    and "rng_after (tick g now params prev s) = s2"
  using tick_unfold[OF assms, of now params] by (simp_all add: tick_spec_def Let_def)

section \<open>Per-product facts\<close>

lemma product_draws_ok:
  "rng_ok g \<Longrightarrow> product_draws g ps s = (ds, s') \<Longrightarrow> list_all draw_ok ds"
proof (induction ps arbitrary: s ds s')
  case Nil
  then show ?case by simp
next
  case (Cons p ps)
  obtain r1 s1 where g1: "g s = (r1, s1)" by fastforce
  obtain r2 s2 where g2: "g s1 = (r2, s2)" by fastforce
  obtain r3 s3 where g3: "g s2 = (r3, s3)" by fastforce
  obtain ds' s4 where dr: "product_draws g ps s3 = (ds', s4)" by fastforce
  have "r1 = fst (g s)" "r2 = fst (g s1)" "r3 = fst (g s2)" using g1 g2 g3 by simp_all
  then have "draw_ok (r1, r2, r3)" using Cons.prems(1) by (simp add: draw_ok_def)
  moreover have "list_all draw_ok ds'" using Cons dr by blast
  ultimately show ?case using Cons.prems(2) by (auto simp: g1 g2 g3 dr)
qed

lemma demand_draw_bounds:
  "0 \<le> r \<Longrightarrow> r < 1 \<Longrightarrow> 0 \<le> demandRate p \<Longrightarrow> 0 \<le> demand_draw r p \<and> demand_draw r p \<le> demandRate p"
  unfolding demand_draw_def by (rule floor_draw_bounds)

lemma after_sale_bounds:
  "0 \<le> r \<Longrightarrow> r < 1 \<Longrightarrow> 0 \<le> demandRate p \<Longrightarrow> 0 \<le> after_sale r p \<and> after_sale r p \<le> max 0 (currentStock p)"
  using demand_draw_bounds[of r p] by (auto simp: after_sale_def max_def)

lemma product_step_fields [simp]:
  "static_attrs (snd (product_step now d p)) = static_attrs p"
  "idealTemp (snd (product_step now d p)) = idealTemp p"
  "maxStock (snd (product_step now d p)) = maxStock p"
  "reorderLevel (snd (product_step now d p)) = reorderLevel p"
  "demandRate (snd (product_step now d p)) = demandRate p"
  by (simp_all add: product_step_def static_attrs_def Let_def split: prod.split)

lemma product_step_sensors:
  "product_step now (r1, r2, r3) p = (pm, q) \<Longrightarrow>
     status q = status_of (temp_reading r2 p) p \<and> temperature (sensors q) = temp_reading r2 p
     \<and> humidity (sensors q) = humidity_reading r3 p"
  by (auto simp: product_step_def Let_def)

lemma product_step_wf:
  assumes "draw_ok d" "product_wf p"
  shows "product_wf (snd (product_step now d p))"
proof -
  obtain r1 r2 r3 where d: "d = (r1, r2, r3)" by (cases d) auto
  with assms have "0 \<le> after_sale r1 p \<and> after_sale r1 p \<le> currentStock p"
    using after_sale_bounds[of r1 p] by (simp add: draw_ok_def product_wf_def)
  with assms show ?thesis
    by (simp add: d product_step_def product_wf_def Let_def)
qed

lemma temp_reading_close:
  assumes "0 \<le> r" "r < 1"
  shows "\<bar>temp_reading r p - idealTemp p\<bar> \<le> 101 / 200"
proof -
  let ?x = "idealTemp p + (r - 1 / 2) * 1"
  have "\<bar>to_fixed 2 ?x - ?x\<bar> \<le> 1 / 200"
    using to_fixed_error[of 2 ?x] by simp
  moreover have "\<bar>?x - idealTemp p\<bar> \<le> 1 / 2"
    using assms by (auto simp: abs_if)
  ultimately show ?thesis unfolding temp_reading_def by arith
qed

lemma humidity_reading_range: "0 \<le> humidity_reading r p \<and> humidity_reading r p \<le> 100"
  using to_fixed_range[of "max 0 (min 100 (idealHumidity p + (r - 1 / 2) * 4))" 100 1]
  by (simp add: humidity_reading_def)

lemma status_of_temp_reading:
  "0 \<le> r \<Longrightarrow> r < 1 \<Longrightarrow> status_of (temp_reading r p) p = ''OK''"
  using temp_reading_close[of r p] by (simp add: status_of_def)

section \<open>Whole-tick facts\<close>

lemma list_all_map2_zip:
  "list_all P (map snd (map2 f xs ys)) \<longleftrightarrow> (\<forall>(x, y) \<in> set (zip xs ys). P (snd (f x y)))"
  by (auto simp: list_all_iff)

text \<open>A fact of every product the step makes from valid draws holds of the whole next registry.\<close>

lemma tick_next_all:
  assumes "rng_ok g"
    and "\<And>d p. draw_ok d \<Longrightarrow> p \<in> set prev \<Longrightarrow> P (snd (product_step now d p))"
  shows "list_all P (next_products (tick g now params prev s))"
proof -
  obtain ds s1 where dr: "product_draws g prev s = (ds, s1)" by fastforce
  obtain r s2 where gr: "g s1 = (r, s2)" by fastforce
  have ok: "list_all draw_ok ds" using product_draws_ok[OF assms(1) dr] .
  have "P (snd (product_step now x y))" if "(x, y) \<in> set (zip ds prev)" for x y
  proof -
    from that have "x \<in> set ds" "y \<in> set prev" by (auto dest: set_zip_leftD set_zip_rightD)
    with ok assms(2) show ?thesis by (simp add: list_all_iff)
  qed
  then have "\<forall>(x, y) \<in> set (zip ds prev). P (snd (product_step now x y))" by auto
  then show ?thesis
    by (simp only: tick_parts(1)[OF dr gr] list_all_map2_zip)
qed

lemma product_step_prev:
  "fst (product_step now d p) = p\<lparr>lastRestock := lastRestock (snd (product_step now d p))\<rparr>"
  by (cases d) (simp add: product_step_def Let_def)

lemma lead_time_bounds:
  assumes "0 \<le> r" "r < 1" "leadTimeMin params = of_int a" "leadTimeMax params = of_int b" "a \<le> b"
  shows "of_int a \<le> lead_time params r \<and> lead_time params r \<le> of_int b"
proof -
  have "leadTimeMax params - leadTimeMin params + 1 = of_int (b - a) + 1"
    using assms(3,4) by simp
  then have "lead_time params r = of_int \<lfloor>r * (of_int (b - a) + 1)\<rfloor> + of_int a"
    using assms(3) by (simp add: lead_time_def)
  moreover have "0 \<le> \<lfloor>r * (of_int (b - a) + 1)\<rfloor> \<and> \<lfloor>r * (of_int (b - a) + 1)\<rfloor> \<le> b - a"
    using assms by (intro floor_draw_bounds) simp_all
  ultimately show ?thesis by linarith
qed

lemma demand_draw_rate0:
  "0 \<le> r \<Longrightarrow> r < 1 \<Longrightarrow> demandRate p = 0 \<Longrightarrow> demand_draw r p = 0"
  using demand_draw_bounds[of r p] by simp

lemma tick_prev_after_map2:
  "length ds = length prev \<Longrightarrow>
   map fst (map2 (product_step now) ds prev)
     = map2 (\<lambda>p q. p\<lparr>lastRestock := lastRestock q\<rparr>) prev (map snd (map2 (product_step now) ds prev))"
  by (induction ds prev rule: list_induct2) (simp_all add: product_step_prev[symmetric])

lemma tick_lengths:
  "length (next_products (tick g now params prev s)) = length prev"
  "length (prev_after (tick g now params prev s)) = length prev"
proof -
  obtain ds s1 where dr: "product_draws g prev s = (ds, s1)" by fastforce
  obtain r s2 where gr: "g s1 = (r, s2)" by fastforce
  have len: "length ds = length prev" by (rule product_draws_length[OF dr])
  show "length (next_products (tick g now params prev s)) = length prev"
    "length (prev_after (tick g now params prev s)) = length prev"
    using len by (simp_all add: tick_parts[OF dr gr])
qed

lemma tick_inventory_sum:
  "inventory_level (aggregate (tick g now params prev s))
     = sum_list (map currentStock (next_products (tick g now params prev s)))"
proof -
  obtain ds s1 where dr: "product_draws g prev s = (ds, s1)" by fastforce
  obtain r s2 where gr: "g s1 = (r, s2)" by fastforce
  show ?thesis by (simp add: tick_parts[OF dr gr] tick_spec_def Let_def comp_assoc)
qed

lemma tick_stockout_filter:
  "stockout (aggregate (tick g now params prev s)) =
     int (length (filter (\<lambda>(d, p). after_sale (fst d) p = 0) (zip (fst (product_draws g prev s)) prev)))"
proof -
  obtain ds s1 where dr: "product_draws g prev s = (ds, s1)" by fastforce
  obtain r s2 where gr: "g s1 = (r, s2)" by fastforce
  have eq: "(\<lambda>(d, p). stockout_of (fst d) p) = (\<lambda>x. if (\<lambda>(d, p). after_sale (fst d) p = 0) x then 1 else 0)"
    by (auto simp: stockout_of_def fun_eq_iff)
  show ?thesis
    using sum_list_indicator[of "\<lambda>(d, p). after_sale (fst d) p = 0" "zip ds prev"]
    by (simp only: tick_parts(3)[OF dr gr] tick_spec_def Let_def snd_conv simulation_result.select_convs eq dr fst_conv)
qed

lemma tick_reorder_sum:
  "reorder_quantity (aggregate (tick g now params prev s)) =
     sum_list (map (\<lambda>(d, p). if restocks (fst d) p then maxStock p - after_sale (fst d) p else 0)
                   (zip (fst (product_draws g prev s)) prev))"
proof -
  obtain ds s1 where dr: "product_draws g prev s = (ds, s1)" by fastforce
  obtain r s2 where gr: "g s1 = (r, s2)" by fastforce
  show ?thesis
    by (simp add: tick_parts(3)[OF dr gr] tick_spec_def Let_def dr reorder_of_def case_prod_unfold)
qed

lemma tick_next_status_ok:
  assumes "rng_ok g"
  shows "list_all (\<lambda>q. status q = ''OK'') (next_products (tick g now params prev s))"
proof (rule tick_next_all[OF assms])
  fix d p
  assume ok: "draw_ok d"
  obtain r1 r2 r3 where d: "d = (r1, r2, r3)" by (cases d) auto
  with ok have "0 \<le> r2" "r2 < 1" by (simp_all add: draw_ok_def)
  then show "status (snd (product_step now d p)) = ''OK''"
    using product_step_sensors[of now r1 r2 r3 p] status_of_temp_reading[of r2 p]
    by (simp add: d prod_eq_iff)
qed

lemma tick_prev_after_succ:
  "prev_after (tick g now params prev s)
     = map2 (\<lambda>p q. p\<lparr>lastRestock := lastRestock q\<rparr>) prev (next_products (tick g now params prev s))"
proof -
  obtain ds s1 where dr: "product_draws g prev s = (ds, s1)" by fastforce
  obtain r s2 where gr: "g s1 = (r, s2)" by fastforce
  show ?thesis
    using tick_prev_after_map2[OF product_draws_length[OF dr], of now]
    by (simp only: tick_parts(1,2)[OF dr gr])
qed

lemma tick_next_wf:
  "rng_ok g \<Longrightarrow> list_all product_wf prev \<Longrightarrow> list_all product_wf (next_products (tick g now params prev s))"
  by (rule tick_next_all) (auto simp: list_all_iff product_step_wf)

text \<open>When no product can fall to its reorder level, the tick writes nothing into the previous objects.\<close>

lemma tick_prev_after_unchanged:
  assumes "rng_ok g" "list_all (\<lambda>p. 0 \<le> demandRate p \<and> reorderLevel p + demandRate p < currentStock p) prev"
  shows "prev_after (tick g now params prev s) = prev"
proof -
  obtain ds s1 where dr: "product_draws g prev s = (ds, s1)" by fastforce
  obtain r s2 where gr: "g s1 = (r, s2)" by fastforce
  have len: "length ds = length prev" by (rule product_draws_length[OF dr])
  have ok: "list_all draw_ok ds" by (rule product_draws_ok[OF assms(1) dr])
  have "fst (product_step now (ds ! k) (prev ! k)) = prev ! k" if k: "k < length prev" for k
  proof -
    obtain r1 r2 r3 where d: "ds ! k = (r1, r2, r3)" by (cases "ds ! k") auto
    have "draw_ok (ds ! k)" using ok k len by (simp add: list_all_length)
    then have r1: "0 \<le> r1" "r1 < 1" by (simp_all add: d draw_ok_def)
    have p: "0 \<le> demandRate (prev ! k)" "reorderLevel (prev ! k) + demandRate (prev ! k) < currentStock (prev ! k)"
      using assms(2) k by (simp_all add: list_all_length)
    then have "demand_draw r1 (prev ! k) \<le> demandRate (prev ! k)"
      using demand_draw_bounds[OF r1] by blast
    with p have "\<not> restocks r1 (prev ! k)" by (simp add: restocks_def after_sale_def)
    then show ?thesis by (simp add: d product_step_def Let_def)
  qed
  then show ?thesis
    using len by (simp add: tick_parts(2)[OF dr gr] list_eq_iff_nth_eq)
qed

text \<open>
  A product with its margin keeps it through the tick and is never sold out:
  the sale leaves stock above zero, and a product falling to its level is
  refilled to \<open>maxStock\<close>, above the level.
\<close>

lemma product_step_margin:
  assumes "draw_ok d" "stock_margin p"
  shows "stock_margin (snd (product_step now d p)) \<and> 0 < after_sale (fst d) p"
proof -
  obtain r1 r2 r3 where d: "d = (r1, r2, r3)" by (cases d) auto
  have m: "0 \<le> demandRate p" "demandRate p \<le> reorderLevel p" "reorderLevel p < currentStock p"
    "currentStock p \<le> maxStock p"
    using assms(2) by (simp_all add: stock_margin_def)
  have "0 \<le> r1" "r1 < 1" using assms(1) by (simp_all add: d draw_ok_def)
  then have "demand_draw r1 p \<le> demandRate p" using demand_draw_bounds m(1) by blast
  then have pos: "0 < after_sale r1 p" using m by (simp add: after_sale_def)
  have "reorderLevel p < (if restocks r1 p then maxStock p else after_sale r1 p)"
    using m by (simp add: restocks_def)
  with m pos have "stock_margin (snd (product_step now d p))"
    using after_sale_bounds[of r1 p] \<open>0 \<le> r1\<close> \<open>r1 < 1\<close>
    by (simp add: d product_step_def Let_def stock_margin_def split: if_splits)
  with pos show ?thesis by (simp add: d)
qed

lemma tick_next_margin:
  "rng_ok g \<Longrightarrow> list_all stock_margin prev \<Longrightarrow> list_all stock_margin (next_products (tick g now params prev s))"
  by (rule tick_next_all) (auto simp: list_all_iff dest: product_step_margin)

lemma tick_no_stockout:
  assumes "rng_ok g" "list_all stock_margin prev"
  shows "stockout (aggregate (tick g now params prev s)) = 0"
proof -
  obtain ds s1 where dr: "product_draws g prev s = (ds, s1)" by fastforce
  have ok: "list_all draw_ok ds" by (rule product_draws_ok[OF assms(1) dr])
  have "after_sale (fst d) p \<noteq> 0" if "(d, p) \<in> set (zip ds prev)" for d p
  proof -
    from that have "d \<in> set ds" "p \<in> set prev" by (auto dest: set_zip_leftD set_zip_rightD)
    with ok assms(2) show ?thesis using product_step_margin[of d p] by (auto simp: list_all_iff)
  qed
  then have "filter (\<lambda>(d, p). after_sale (fst d) p = 0) (zip ds prev) = []"
    by (auto simp: filter_empty_conv)
  then show ?thesis by (simp add: tick_stockout_filter dr)
qed

text \<open>The aggregate's lead time is \<open>lead_time\<close> at one draw of the source.\<close>

lemma tick_lead_time_draw:
  assumes "rng_ok g"
  shows "\<exists>r. 0 \<le> r \<and> r < 1 \<and> lead_time_days (aggregate (tick g now params prev s)) = lead_time params r"
proof -
  obtain ds s1 where dr: "product_draws g prev s = (ds, s1)" by fastforce
  obtain r s2 where gr: "g s1 = (r, s2)" by fastforce
  have "0 \<le> r" "r < 1" using assms gr by (metis fst_conv)+
  then show ?thesis by (auto simp: tick_parts(3)[OF dr gr] tick_spec_def Let_def)
qed

text \<open>With the bounds inverted by at least one, every draw lands above \<open>leadTimeMax\<close>.\<close>

lemma lead_time_inverted:
  assumes "0 \<le> r" "r < 1" "leadTimeMax params + 1 \<le> leadTimeMin params"
  shows "leadTimeMax params < lead_time params r"
proof -
  let ?w = "leadTimeMax params - leadTimeMin params + 1"
  have "?w \<le> 0" using assms(3) by simp
  then have "?w \<le> r * ?w" using assms(1,2) by (simp add: mult_le_cancel_right1 mult_nonpos_nonneg)
  then have "?w - 1 < of_int \<lfloor>r * ?w\<rfloor>" by linarith
  then show ?thesis by (simp add: lead_time_def)
qed

section \<open>Properties of a tick\<close>

text \<open>
  C1. Stock invariant: when every draw of the random source lies in \<open>[0, 1)\<close>,
  a tick maps a registry of well-formed products (stock within
  \<open>[0, maxStock]\<close>, non-negative rate and threshold) to a registry of
  well-formed products.
\<close>

theorem tick_preserves_wf:
  assumes "rng_ok g" and "list_all product_wf prev"
  shows "list_all product_wf (next_products (tick g now params prev s))"
  using assms by (rule tick_next_wf)

theorem tick_preserves_wf_witness:
  "rng_ok demo_rng \<and> list_all product_wf (initialProducts 0)
   \<and> list_all product_wf (next_products (tick demo_rng 0 DEFAULT_PARAMS (initialProducts 0) 7))"
proof -
  have g: "rng_ok demo_rng" by (simp add: demo_rng_def)
  have p: "list_all product_wf (initialProducts 0)" by (rule initialProducts_wf)
  show ?thesis using tick_preserves_wf[OF g p] g p by blast
qed

text \<open>
  C2. Refinement: the updater, with its running totals threaded through the
  \<open>map\<close> callback, computes the declarative tick \<open>tick_spec\<close> on the draws the
  generator yields, three per product in registry order and one more for the
  lead time.
\<close>

theorem tick_refines_spec:
  "tick g now params prev s =
    (case product_draws g prev s of (ds, s1) \<Rightarrow>
       case g s1 of (r, s2) \<Rightarrow>
         case tick_spec now params ds r prev of (pa, nx, agg) \<Rightarrow>
           \<lparr>prev_after = pa, next_products = nx, aggregate = agg, rng_after = s2\<rparr>)"
  by (simp add: tick_unfold split: prod.split)

text \<open>
  C3. The aggregate's totals: \<open>inventory_level\<close> is the sum of the post-tick
  stocks; \<open>stockout\<close> counts the products whose stock after the sale,
  \<open>max(0, currentStock - sold)\<close>, is zero (before any restock);
  \<open>reorder_quantity\<close> is the sum, over the restocked products, of
  \<open>maxStock - max(0, currentStock - sold)\<close>.
\<close>

theorem tick_aggregate_totals:
  "inventory_level (aggregate (tick g now params prev s))
     = sum_list (map currentStock (next_products (tick g now params prev s)))
   \<and> stockout (aggregate (tick g now params prev s)) =
     int (length (filter (\<lambda>(d, p). after_sale (fst d) p = 0) (zip (fst (product_draws g prev s)) prev)))
   \<and> reorder_quantity (aggregate (tick g now params prev s)) =
     sum_list (map (\<lambda>(d, p). if restocks (fst d) p then maxStock p - after_sale (fst d) p else 0)
                   (zip (fst (product_draws g prev s)) prev))"
  by (simp only: tick_inventory_sum tick_stockout_filter tick_reorder_sum simp_thms)

text \<open>
  C4. The restock rule, product by product: when the stock after the sale is at
  or below the reorder level, the product ends the tick at exactly
  \<open>maxStock\<close> with \<open>lastRestock\<close> set to now; otherwise it keeps the stock after
  the sale and its \<open>lastRestock\<close>.
\<close>

theorem tick_restock_to_max:
  assumes "i < length prev"
  shows "let d = fst (fst (product_draws g prev s) ! i); q = next_products (tick g now params prev s) ! i
         in if restocks d (prev ! i)
            then currentStock q = maxStock (prev ! i) \<and> lastRestock q = Some now
            else currentStock q = after_sale d (prev ! i) \<and> lastRestock q = lastRestock (prev ! i)"
proof -
  obtain ds s1 where dr: "product_draws g prev s = (ds, s1)" by fastforce
  obtain r s2 where gr: "g s1 = (r, s2)" by fastforce
  have len: "length ds = length prev" by (rule product_draws_length[OF dr])
  obtain r1 r2 r3 where di: "ds ! i = (r1, r2, r3)" by (cases "ds ! i") auto
  show ?thesis
    using assms len by (simp add: tick_parts(1)[OF dr gr] dr di product_step_def Let_def)
qed

theorem tick_restock_to_max_witness:
  "(0::nat) < length (initialProducts 0)
   \<and> (let d = fst (fst (product_draws demo_rng (initialProducts 0) 7) ! 0);
          q = next_products (tick demo_rng 0 DEFAULT_PARAMS (initialProducts 0) 7) ! 0
      in if restocks d (initialProducts 0 ! 0)
         then currentStock q = maxStock (initialProducts 0 ! 0) \<and> lastRestock q = Some 0
         else currentStock q = after_sale d (initialProducts 0 ! 0)
              \<and> lastRestock q = lastRestock (initialProducts 0 ! 0))"
proof -
  have h: "(0::nat) < length (initialProducts 0)" by (simp add: initialProducts_def)
  show ?thesis using h tick_restock_to_max[OF h, of demo_rng 7 0 DEFAULT_PARAMS] by blast
qed

text \<open>
  C5. With integral lead-time bounds \<open>leadTimeMin \<le> leadTimeMax\<close> and draws in
  \<open>[0, 1)\<close>, the aggregate's \<open>lead_time_days\<close> lies in
  \<open>[leadTimeMin, leadTimeMax]\<close>.
\<close>

theorem tick_lead_time_bounds:
  assumes "rng_ok g" "leadTimeMin params \<in> \<int>" "leadTimeMax params \<in> \<int>"
    and "leadTimeMin params \<le> leadTimeMax params"
  shows "leadTimeMin params \<le> lead_time_days (aggregate (tick g now params prev s))
         \<and> lead_time_days (aggregate (tick g now params prev s)) \<le> leadTimeMax params"
proof -
  obtain ds s1 where dr: "product_draws g prev s = (ds, s1)" by fastforce
  obtain r s2 where gr: "g s1 = (r, s2)" by fastforce
  obtain a where a: "leadTimeMin params = of_int a" using assms(2) by (auto elim: Ints_cases)
  obtain b where b: "leadTimeMax params = of_int b" using assms(3) by (auto elim: Ints_cases)
  have r: "0 \<le> r" "r < 1" using assms(1) gr by (metis fst_conv)+
  have "a \<le> b" using assms(4) a b by simp
  with r a b have "of_int a \<le> lead_time params r \<and> lead_time params r \<le> of_int b"
    by (intro lead_time_bounds)
  then show ?thesis
    by (simp add: tick_parts(3)[OF dr gr] tick_spec_def Let_def a b)
qed

theorem tick_lead_time_bounds_witness:
  "rng_ok demo_rng \<and> leadTimeMin DEFAULT_PARAMS \<in> \<int> \<and> leadTimeMax DEFAULT_PARAMS \<in> \<int>
   \<and> leadTimeMin DEFAULT_PARAMS \<le> leadTimeMax DEFAULT_PARAMS
   \<and> leadTimeMin DEFAULT_PARAMS \<le> lead_time_days (aggregate (tick demo_rng 0 DEFAULT_PARAMS (initialProducts 0) 7))
   \<and> lead_time_days (aggregate (tick demo_rng 0 DEFAULT_PARAMS (initialProducts 0) 7)) \<le> leadTimeMax DEFAULT_PARAMS"
proof -
  have g: "rng_ok demo_rng" by (simp add: demo_rng_def)
  have h: "leadTimeMin DEFAULT_PARAMS \<in> \<int>" "leadTimeMax DEFAULT_PARAMS \<in> \<int>"
    "leadTimeMin DEFAULT_PARAMS \<le> leadTimeMax DEFAULT_PARAMS"
    by (simp_all add: DEFAULT_PARAMS_def)
  show ?thesis using g h tick_lead_time_bounds[OF g h, of 0 "initialProducts 0" 7] by blast
qed

text \<open>
  C6. The \<open>WARNING\<close> status is unreachable: with draws in \<open>[0, 1)\<close> the new
  temperature is within \<open>0.505\<close> of the ideal, so every product leaves the
  tick with status \<open>OK\<close>.
\<close>

theorem tick_status_always_ok:
  assumes "rng_ok g"
  shows "list_all (\<lambda>q. status q = ''OK'') (next_products (tick g now params prev s))"
  using assms by (rule tick_next_status_ok)

theorem tick_status_always_ok_witness:
  "rng_ok demo_rng
   \<and> list_all (\<lambda>q. status q = ''OK'') (next_products (tick demo_rng 0 DEFAULT_PARAMS (initialProducts 0) 7))"
proof -
  have g: "rng_ok demo_rng" by (simp add: demo_rng_def)
  show ?thesis using g tick_status_always_ok[OF g] by blast
qed

text \<open>
  C7. Sensor bounds: every new humidity lies in \<open>[0, 100]\<close>, and with draws in
  \<open>[0, 1)\<close> every new temperature lies within \<open>0.5 + 0.005\<close> (the draw's range
  plus the rounding of \<open>toFixed(2)\<close>) of the product's ideal temperature.
\<close>

theorem tick_sensor_bounds:
  assumes "rng_ok g"
  shows "list_all (\<lambda>q. 0 \<le> humidity (sensors q) \<and> humidity (sensors q) \<le> 100
                       \<and> \<bar>temperature (sensors q) - idealTemp q\<bar> \<le> 101 / 200)
           (next_products (tick g now params prev s))"
proof (rule tick_next_all[OF assms])
  fix d p
  assume ok: "draw_ok d"
  obtain r1 r2 r3 where d: "d = (r1, r2, r3)" by (cases d) auto
  with ok have "0 \<le> r2" "r2 < 1" by (simp_all add: draw_ok_def)
  then show "0 \<le> humidity (sensors (snd (product_step now d p)))
        \<and> humidity (sensors (snd (product_step now d p))) \<le> 100
        \<and> \<bar>temperature (sensors (snd (product_step now d p))) - idealTemp (snd (product_step now d p))\<bar> \<le> 101 / 200"
    using product_step_sensors[of now r1 r2 r3 p] temp_reading_close[of r2 p]
      humidity_reading_range[of r3 p]
    by (simp add: d prod_eq_iff)
qed

theorem tick_sensor_bounds_witness:
  "rng_ok demo_rng
   \<and> list_all (\<lambda>q. 0 \<le> humidity (sensors q) \<and> humidity (sensors q) \<le> 100
                   \<and> \<bar>temperature (sensors q) - idealTemp q\<bar> \<le> 101 / 200)
       (next_products (tick demo_rng 0 DEFAULT_PARAMS (initialProducts 0) 7))"
proof -
  have g: "rng_ok demo_rng" by (simp add: demo_rng_def)
  show ?thesis using g tick_sensor_bounds[OF g] by blast
qed

text \<open>
  C8. A tick returns exactly one product per input product, in the same
  order, and writes none of the static attributes (identity, name, type,
  setpoints, capacity, threshold, price, demand rate).
\<close>

theorem tick_static_attrs:
  "map static_attrs (next_products (tick g now params prev s)) = map static_attrs prev"
proof -
  obtain ds s1 where dr: "product_draws g prev s = (ds, s1)" by fastforce
  obtain r s2 where gr: "g s1 = (r, s2)" by fastforce
  have len: "length ds = length prev" by (rule product_draws_length[OF dr])
  have "map static_attrs (map snd (map2 (product_step now) ds prev)) = map static_attrs prev"
    using len by (induction ds prev rule: list_induct2) simp_all
  then show ?thesis by (simp only: tick_parts(1)[OF dr gr])
qed

text \<open>
  C9. With draws in \<open>[0, 1)\<close> and non-negative demand rates, the aggregate's
  \<open>demand\<close> lies between \<open>0\<close> and the sum of the demand rates.
\<close>

theorem tick_demand_bounds:
  assumes "rng_ok g" "list_all product_wf prev"
  shows "0 \<le> demand (aggregate (tick g now params prev s))
         \<and> demand (aggregate (tick g now params prev s)) \<le> sum_list (map demandRate prev)"
proof -
  obtain ds s1 where dr: "product_draws g prev s = (ds, s1)" by fastforce
  obtain r s2 where gr: "g s1 = (r, s2)" by fastforce
  have len: "length ds = length prev" by (rule product_draws_length[OF dr])
  have ok: "list_all draw_ok ds" by (rule product_draws_ok[OF assms(1) dr])
  have each: "0 \<le> demand_draw (fst x) y \<and> demand_draw (fst x) y \<le> demandRate y"
    if "(x, y) \<in> set (zip ds prev)" for x y
  proof -
    from that have "x \<in> set ds" "y \<in> set prev" by (auto dest: set_zip_leftD set_zip_rightD)
    with ok assms(2) have "draw_ok x" "product_wf y" by (simp_all add: list_all_iff)
    then show ?thesis
      by (cases x) (intro demand_draw_bounds; simp add: draw_ok_def product_wf_def)
  qed
  have lo: "0 \<le> sum_list (map2 (\<lambda>d. demand_draw (fst d)) ds prev)"
    using each by (intro sum_list_nonneg) auto
  have "sum_list (map2 (\<lambda>d. demand_draw (fst d)) ds prev) \<le> sum_list (map2 (\<lambda>d. demandRate) ds prev)"
    using each by (intro sum_list_mono) auto
  with len have hi: "sum_list (map2 (\<lambda>d. demand_draw (fst d)) ds prev) \<le> sum_list (map demandRate prev)"
    by simp
  show ?thesis
    using lo hi by (simp add: tick_parts(3)[OF dr gr] tick_spec_def Let_def)
qed

theorem tick_demand_bounds_witness:
  "rng_ok demo_rng \<and> list_all product_wf (initialProducts 0)
   \<and> 0 \<le> demand (aggregate (tick demo_rng 0 DEFAULT_PARAMS (initialProducts 0) 7))
   \<and> demand (aggregate (tick demo_rng 0 DEFAULT_PARAMS (initialProducts 0) 7))
       \<le> sum_list (map demandRate (initialProducts 0))"
proof -
  have g: "rng_ok demo_rng" by (simp add: demo_rng_def)
  have p: "list_all product_wf (initialProducts 0)" by (rule initialProducts_wf)
  show ?thesis using g p tick_demand_bounds[OF g p] by blast
qed

lemma restock_at_threshold_case:
  assumes "0 \<le> fst (g s)" "fst (g s) < 1"
  shows "case simulate_product g now
              ((hd (initialProducts t))\<lparr>currentStock := 50, reorderLevel := 50, demandRate := 0\<rparr>) (tot, s)
         of ((pm, q), tot', s') \<Rightarrow>
           maxStock q = 500 \<and> currentStock q = 500 \<and> lastRestock q = Some now
           \<and> totalDemand tot' = totalDemand tot \<and> totalReorder tot' = totalReorder tot + 450
           \<and> totalStockouts tot' = totalStockouts tot \<and> totalInventory tot' = totalInventory tot + 500"
proof -
  obtain r1 s1 where g1: "g s = (r1, s1)" by fastforce
  let ?p = "(hd (initialProducts t))\<lparr>currentStock := 50, reorderLevel := 50, demandRate := 0\<rparr>"
  have "demand_draw r1 ?p = 0"
    using assms g1 by (intro demand_draw_rate0) auto
  then show ?thesis
    by (simp add: simulate_product_step g1 product_step_def after_sale_def restocks_def
        reorder_of_def stockout_of_def initialProducts_def Let_def split: prod.split)
qed

lemma stockout_and_restock_case:
  assumes "10 / 21 \<le> fst (g s)" "fst (g s) < 11 / 21"
  shows "case simulate_product g now
              ((hd (initialProducts t))\<lparr>maxStock := 100, currentStock := 10, reorderLevel := 5,
                                          demandRate := 20\<rparr>) (tot, s)
         of ((pm, q), tot', s') \<Rightarrow>
           currentStock q = 100 \<and> lastRestock q = Some now
           \<and> totalDemand tot' = totalDemand tot + 10 \<and> totalStockouts tot' = totalStockouts tot + 1
           \<and> totalReorder tot' = totalReorder tot + 100 \<and> totalInventory tot' = totalInventory tot + 100"
proof -
  obtain r1 s1 where g1: "g s = (r1, s1)" by fastforce
  let ?p = "(hd (initialProducts t))\<lparr>maxStock := 100, currentStock := 10, reorderLevel := 5,
                                      demandRate := 20\<rparr>"
  have "10 \<le> r1 * 21" "r1 * 21 < 11" using assms g1 by auto
  then have "demand_draw r1 ?p = 10"
    by (simp add: demand_draw_def floor_eq_iff)
  then show ?thesis
    by (simp add: simulate_product_step g1 product_step_def after_sale_def restocks_def
        reorder_of_def stockout_of_def initialProducts_def Let_def split: prod.split)
qed

text \<open>
  C10. The scenarios of the specification. A product with
  \<open>currentStock = 50\<close>, \<open>reorderLevel = 50\<close>, \<open>maxStock = 500\<close> and
  \<open>demandRate = 0\<close> sells nothing, stays at \<open>50 \<le> 50\<close>, so it restocks
  \<open>450\<close> units to end at \<open>500\<close>, without a stockout. A product with
  \<open>currentStock = 10\<close>, \<open>reorderLevel = 5\<close>, \<open>demandRate = 20\<close>,
  \<open>maxStock = 100\<close> and a demand draw of \<open>10\<close> reaches \<open>0\<close>: the
  stockout is counted, and in the same tick it restocks \<open>100\<close> units to end
  at \<open>100\<close>.
\<close>

theorem spec_scenarios:
  "(0 \<le> fst (g s) \<and> fst (g s) < 1 \<longrightarrow>
     (case simulate_product g now
              ((hd (initialProducts t))\<lparr>currentStock := 50, reorderLevel := 50, demandRate := 0\<rparr>) (tot, s)
         of ((pm, q), tot', s') \<Rightarrow>
           maxStock q = 500 \<and> currentStock q = 500 \<and> lastRestock q = Some now
           \<and> totalDemand tot' = totalDemand tot \<and> totalReorder tot' = totalReorder tot + 450
           \<and> totalStockouts tot' = totalStockouts tot \<and> totalInventory tot' = totalInventory tot + 500))
   \<and> (10 / 21 \<le> fst (g sb) \<and> fst (g sb) < 11 / 21 \<longrightarrow>
     (case simulate_product g now
              ((hd (initialProducts tb))\<lparr>maxStock := 100, currentStock := 10, reorderLevel := 5,
                                          demandRate := 20\<rparr>) (totb, sb)
         of ((pm, q), tot', s') \<Rightarrow>
           currentStock q = 100 \<and> lastRestock q = Some now
           \<and> totalDemand tot' = totalDemand totb + 10 \<and> totalStockouts tot' = totalStockouts totb + 1
           \<and> totalReorder tot' = totalReorder totb + 100 \<and> totalInventory tot' = totalInventory totb + 100))"
proof (intro conjI impI)
  assume "0 \<le> fst (g s) \<and> fst (g s) < 1"
  then show "case simulate_product g now
              ((hd (initialProducts t))\<lparr>currentStock := 50, reorderLevel := 50, demandRate := 0\<rparr>) (tot, s)
         of ((pm, q), tot', s') \<Rightarrow>
           maxStock q = 500 \<and> currentStock q = 500 \<and> lastRestock q = Some now
           \<and> totalDemand tot' = totalDemand tot \<and> totalReorder tot' = totalReorder tot + 450
           \<and> totalStockouts tot' = totalStockouts tot \<and> totalInventory tot' = totalInventory tot + 500"
    by (intro restock_at_threshold_case) simp_all
next
  assume "10 / 21 \<le> fst (g sb) \<and> fst (g sb) < 11 / 21"
  then show "case simulate_product g now
              ((hd (initialProducts tb))\<lparr>maxStock := 100, currentStock := 10, reorderLevel := 5,
                                          demandRate := 20\<rparr>) (totb, sb)
         of ((pm, q), tot', s') \<Rightarrow>
           currentStock q = 100 \<and> lastRestock q = Some now
           \<and> totalDemand tot' = totalDemand totb + 10 \<and> totalStockouts tot' = totalStockouts totb + 1
           \<and> totalReorder tot' = totalReorder totb + 100 \<and> totalInventory tot' = totalInventory totb + 100"
    by (intro stockout_and_restock_case) simp_all
qed

theorem spec_scenarios_witness:
  "(0 \<le> fst (demo_rng 7) \<and> fst (demo_rng 7) < 1
    \<and> (case simulate_product demo_rng 0
              ((hd (initialProducts 0))\<lparr>currentStock := 50, reorderLevel := 50, demandRate := 0\<rparr>) (totals0, 7)
         of ((pm, q), tot', s') \<Rightarrow>
           maxStock q = 500 \<and> currentStock q = 500 \<and> lastRestock q = Some 0
           \<and> totalDemand tot' = totalDemand totals0 \<and> totalReorder tot' = totalReorder totals0 + 450
           \<and> totalStockouts tot' = totalStockouts totals0 \<and> totalInventory tot' = totalInventory totals0 + 500))
   \<and> (10 / 21 \<le> fst (demo_rng 500) \<and> fst (demo_rng 500) < 11 / 21
    \<and> (case simulate_product demo_rng 0
              ((hd (initialProducts 0))\<lparr>maxStock := 100, currentStock := 10, reorderLevel := 5,
                                          demandRate := 20\<rparr>) (totals0, 500)
         of ((pm, q), tot', s') \<Rightarrow>
           currentStock q = 100 \<and> lastRestock q = Some 0
           \<and> totalDemand tot' = totalDemand totals0 + 10 \<and> totalStockouts tot' = totalStockouts totals0 + 1
           \<and> totalReorder tot' = totalReorder totals0 + 100 \<and> totalInventory tot' = totalInventory totals0 + 100))"
proof -
  have h: "0 \<le> fst (demo_rng 7)" "fst (demo_rng 7) < 1"
    "10 / 21 \<le> fst (demo_rng 500)" "fst (demo_rng 500) < 11 / 21"
    by (simp_all add: demo_rng_def)
  note sc = spec_scenarios[where g = demo_rng and s = 7 and sb = 500 and now = 0 and t = 0 and tb = 0
        and tot = totals0 and totb = totals0]
  show ?thesis
    by (intro conjI h mp[OF conjunct1[OF sc]] mp[OF conjunct2[OF sc]])
qed

text \<open>
  Aliasing of the previous registry: the tick writes \<open>lastRestock\<close> into
  each previous product object it restocks (\<open>p.lastRestock = Date.now()\<close>), so
  after the tick each previous object carries the \<open>lastRestock\<close> of its
  successor; nothing else of it changes.
\<close>

theorem tick_prev_after_write:
  "prev_after (tick g now params prev s)
     = map2 (\<lambda>p q. p\<lparr>lastRestock := lastRestock q\<rparr>) prev (next_products (tick g now params prev s))"
  by (rule tick_prev_after_succ)

text \<open>
  C12. The operator's policy parameters have no effect on a tick: replacing
  \<open>initialStock\<close>, \<open>reorderPoint\<close>, \<open>reorderQuantity\<close>, \<open>demandMin\<close> and
  \<open>demandMax\<close> by any values leaves the tick's result unchanged. Only the
  lead-time bounds are read; demand and restocking use each product's own
  \<open>demandRate\<close>, \<open>reorderLevel\<close> and \<open>maxStock\<close>.
\<close>

theorem tick_ignores_policy_params:
  "tick g now (params\<lparr>initialStock := a, reorderPoint := b, reorderQuantity := c,
                      demandMin := d, demandMax := e\<rparr>) prev s
   = tick g now params prev s"
  by (simp add: tick_def lead_time_def)

end
