(* ===== verification/Transport.thy ===== *)
theory Transport
  imports Tick_Engine
begin

text \<open>
  The transport adapter \<open>MqttService\<close> of \<^verbatim>\<open>src/services/mqttService.ts\<close>.
  Its one field \<open>client\<close> references an object of the \<open>mqtt\<close> client library.
  The library's objects are kept in an explicit heap \<open>lib_clients\<close>, because
  \<open>connect\<close> can replace the reference while the old object lives on. Of the
  library, only what the adapter observes is modelled: the \<open>connected\<close> flag,
  \<open>end()\<close>, the messages handed to \<open>publish\<close>, and the three events
  (\<open>connect\<close>, \<open>error\<close>, \<open>offline\<close>) whose handlers the adapter installs.
  The status sink \<open>onStatusChange\<close> is modelled by the list of strings each
  operation passes to it, in order.
\<close>

section \<open>State\<close>

record mqtt_options =
  clientId :: string
  clean :: bool
  reconnectPeriod :: nat
  connectTimeout :: nat

record mqtt_client =
  url :: string
  options :: mqtt_options
  connected :: bool
  ended :: bool
  sent :: "(string \<times> json) list" \<comment> \<open>\<open>(topic, message)\<close> pairs passed to \<open>client.publish\<close>\<close>

datatype client_event = EvConnect | EvError string | EvOffline

record transport =
  client :: "addr option" \<comment> \<open>\<open>this.client\<close>; \<open>None\<close> is \<open>null\<close>\<close>
  lib_clients :: "mqtt_client list" \<comment> \<open>the library's client objects, by address\<close>

definition transport0 :: transport where
  "transport0 = \<lparr>client = None, lib_clients = []\<rparr>"

section \<open>String conversions used by \<open>connect\<close>\<close>

definition digit_char :: "nat \<Rightarrow> char" where
  "digit_char d = ''0123456789abcdef'' ! d"

text \<open>\<open>String(n)\<close> for a natural number, as a template literal prints it.\<close>

fun decimal :: "nat \<Rightarrow> string" where
  "decimal n = (if n < 10 then [digit_char n] else decimal (n div 10) @ [digit_char (n mod 10)])"

definition int_string :: "int \<Rightarrow> string" where
  "int_string i = (if i < 0 then CHR ''-'' # decimal (nat (- i)) else decimal (nat i))"

text \<open>
  The hexadecimal fraction digits of \<open>x \<in> [0, 1)\<close> that \<open>x.toString(16)\<close> prints
  after \<open>0.\<close>, at most \<open>n\<close> of them: the expansion stops when the rest is zero.
\<close>

fun hex_digits :: "nat \<Rightarrow> real \<Rightarrow> string" where
  "hex_digits 0 x = []"
| "hex_digits (Suc n) x =
     (if x = 0 then []
      else let y = x * 16 in digit_char (nat \<lfloor>y\<rfloor>) # hex_digits n (y - of_int \<lfloor>y\<rfloor>))"

text \<open>
  The digit loop of \<open>x.toString(16)\<close> on a fraction, unbounded: it emits the
  integer part of \<open>16 x\<close> and continues on the fraction until nothing is left.
  On an arbitrary real it may not stop (\<open>None\<close>); \<open>Math.random()\<close> returns a
  double, a dyadic rational, on which it does.
\<close>

partial_function (option) hex_expand :: "real \<Rightarrow> string option" where
  "hex_expand x =
     (if x = 0 then Some []
      else Option.bind (hex_expand (x * 16 - of_int \<lfloor>x * 16\<rfloor>))
             (\<lambda>ds. Some (digit_char (nat \<lfloor>x * 16\<rfloor>) # ds)))"

text \<open>\<open>x.toString(16)\<close> for \<open>x \<in> [0, 1)\<close>: \<open>0\<close>, or \<open>0.\<close> and the digits.\<close>

definition to_string16 :: "real \<Rightarrow> string option" where
  "to_string16 x = map_option (\<lambda>ds. if ds = [] then ''0'' else ''0.'' @ ds) (hex_expand x)"

text \<open>\<open>s.substring(i, j)\<close> for \<open>i \<le> j\<close>.\<close>

definition js_substring :: "string \<Rightarrow> nat \<Rightarrow> nat \<Rightarrow> string" where
  "js_substring s i j = take (j - i) (drop i s)"

section \<open>Operations\<close>

text \<open>\<open>ws://${MQTT_CONFIG.BROKER_URL}:${MQTT_CONFIG.PORT}\<close>\<close>

definition connect_url :: "mqtt_config \<Rightarrow> string" where
  "connect_url cfg = ''ws://'' @ BROKER_URL cfg @ '':'' @ int_string (PORT cfg)"

text \<open>
  \<open>connect(onStatusChange)\<close>: report \<open>Connecting...\<close>, draw the client id
  \<open>'sc_sim_' + Math.random().toString(16).substring(2, 8)\<close> from the shared
  generator, create a fresh library client and point \<open>this.client\<close> at it. A
  previous client is not ended.
\<close>

definition connect :: "'s rng \<Rightarrow> transport \<times> 's \<Rightarrow> (transport \<times> 's) \<times> string list" where
  "connect g ts =
    (let (t, s) = ts;
         (r, s1) = g s;
         opts = \<lparr>clientId = ''sc_sim_'' @ hex_digits 6 r, clean = True,
                 reconnectPeriod = 5000, connectTimeout = 30000\<rparr>;
         c = \<lparr>url = connect_url MQTT_CONFIG, options = opts, connected = False, ended = False,
              sent = []\<rparr>
     in ((t\<lparr>client := Some (length (lib_clients t)), lib_clients := lib_clients t @ [c]\<rparr>, s1),
         [''Connecting...'']))"

text \<open>What each installed handler reports to the sink.\<close>

primrec client_event_status :: "client_event \<Rightarrow> string" where
  "client_event_status EvConnect = ''Connected''"
| "client_event_status (EvError msg) = ''Error: '' @ msg"
| "client_event_status EvOffline = ''Disconnected''"

text \<open>
  The library fires an event on client \<open>i\<close>: it sets its \<open>connected\<close> flag
  (on \<open>connect\<close> and \<open>offline\<close>), then the handler reports to the sink.
\<close>

definition on_client_event :: "addr \<Rightarrow> client_event \<Rightarrow> transport \<Rightarrow> transport \<times> string list" where
  "on_client_event i e t =
    (let c = lib_clients t ! i;
         c' = (case e of EvConnect \<Rightarrow> c\<lparr>connected := True\<rparr>
                       | EvError msg \<Rightarrow> c
                       | EvOffline \<Rightarrow> c\<lparr>connected := False\<rparr>)
     in (t\<lparr>lib_clients := (lib_clients t)[i := c']\<rparr>, [client_event_status e]))"

text \<open>
  \<open>publish(data, topic?)\<close>: only through a connected client; the result is the
  message, or \<open>null\<close> (\<open>None\<close>) with nothing sent.
\<close>

definition publish :: "json \<Rightarrow> string option \<Rightarrow> transport \<Rightarrow> transport \<times> json option" where
  "publish data topic t =
    (let dest = js_or_string topic (TOPIC MQTT_CONFIG)
     in case client t of
          None \<Rightarrow> (t, None)
        | Some i \<Rightarrow>
            if connected (lib_clients t ! i)
            then (let message = data; c = lib_clients t ! i
                  in (t\<lparr>lib_clients := (lib_clients t)[i := c\<lparr>sent := sent c @ [(dest, message)]\<rparr>]\<rparr>,
                      Some message))
            else (t, None))"

text \<open>\<open>disconnect()\<close>: end the client, if any, and drop the reference.\<close>

definition disconnect :: "transport \<Rightarrow> transport" where
  "disconnect t =
    (case client t of
       None \<Rightarrow> t
     | Some i \<Rightarrow> (let c = lib_clients t ! i
                  in t\<lparr>lib_clients := (lib_clients t)[i := c\<lparr>ended := True, connected := False\<rparr>],
                       client := None\<rparr>))"

section \<open>The adapter with its environment\<close>

text \<open>
  The adapter's reachable states: any sequence of its three operations and of
  the library's events on clients that have not been ended (the library reports
  nothing on a client after \<open>end()\<close>).
\<close>

inductive transport_step :: "'s rng \<Rightarrow> transport \<times> 's \<Rightarrow> transport \<times> 's \<Rightarrow> bool" for g where
  step_connect: "transport_step g ts (fst (connect g ts))"
| step_publish: "transport_step g (t, s) (fst (publish d topic t), s)"
| step_disconnect: "transport_step g (t, s) (disconnect t, s)"
| step_event: "i < length (lib_clients t) \<Longrightarrow> \<not> ended (lib_clients t ! i) \<Longrightarrow>
     transport_step g (t, s) (fst (on_client_event i e t), s)"

definition is_connected :: "transport \<Rightarrow> bool" where
  "is_connected t = (case client t of None \<Rightarrow> False | Some i \<Rightarrow> connected (lib_clients t ! i))"

text \<open>
  The adapter's invariant: \<open>this.client\<close> references a live (not ended)
  object, and an ended object is not connected.
\<close>

definition transport_inv :: "transport \<Rightarrow> bool" where
  "transport_inv t \<longleftrightarrow>
     (case client t of None \<Rightarrow> True | Some i \<Rightarrow> i < length (lib_clients t) \<and> \<not> ended (lib_clients t ! i))
     \<and> list_all (\<lambda>c. \<not> (ended c \<and> connected c)) (lib_clients t)"

definition live_clients :: "transport \<Rightarrow> nat" where
  "live_clients t = length (filter (\<lambda>c. \<not> ended c) (lib_clients t))"

text \<open>What of the adapter decides delivery and liveness: the reference and each client's flags.\<close>

definition link_view :: "transport \<Rightarrow> addr option \<times> (bool \<times> bool) list" where
  "link_view t = (client t, map (\<lambda>c. (connected c, ended c)) (lib_clients t))"

declare decimal.simps [simp del]

section \<open>Facts about the operations\<close>

lemma connect_eq:
  "connect g (t, s) =
    ((t\<lparr>client := Some (length (lib_clients t)),
        lib_clients := lib_clients t @ [\<lparr>url = connect_url MQTT_CONFIG,
           options = \<lparr>clientId = ''sc_sim_'' @ hex_digits 6 (fst (g s)), clean = True,
                      reconnectPeriod = 5000, connectTimeout = 30000\<rparr>,
           connected = False, ended = False, sent = []\<rparr>]\<rparr>, snd (g s)),
     [''Connecting...''])"
  by (simp add: connect_def split: prod.split)

lemma connect_inv: "transport_inv t \<Longrightarrow> transport_inv (fst (fst (connect g (t, s))))"
  by (auto simp: connect_eq transport_inv_def nth_append split: option.splits)

lemma publish_inv: "transport_inv t \<Longrightarrow> transport_inv (fst (publish d topic t))"
  by (auto simp: publish_def transport_inv_def Let_def list_all_length nth_list_update
      split: option.splits)

lemma disconnect_inv: "transport_inv t \<Longrightarrow> transport_inv (disconnect t)"
  by (auto simp: disconnect_def transport_inv_def Let_def list_all_length nth_list_update
      split: option.splits)

lemma event_inv:
  "transport_inv t \<Longrightarrow> i < length (lib_clients t) \<Longrightarrow> \<not> ended (lib_clients t ! i) \<Longrightarrow>
   transport_inv (fst (on_client_event i e t))"
  by (cases e) (auto simp: on_client_event_def transport_inv_def Let_def list_all_length nth_list_update
      split: option.splits)

lemma transport_step_inv:
  "transport_step g ts ts' \<Longrightarrow> transport_inv (fst ts) \<Longrightarrow> transport_inv (fst ts')"
  by (induction rule: transport_step.induct)
     (auto simp: connect_inv publish_inv disconnect_inv event_inv split: prod.split)

lemma length_16: "length ''0123456789abcdef'' = 16"
  by simp

lemma link_view_nth:
  assumes "link_view t' = link_view t"
  shows "client t' = client t" "length (lib_clients t') = length (lib_clients t)"
    and "i < length (lib_clients t) \<Longrightarrow> connected (lib_clients t' ! i) = connected (lib_clients t ! i)"
    and "i < length (lib_clients t) \<Longrightarrow> ended (lib_clients t' ! i) = ended (lib_clients t ! i)"
proof -
  let ?f = "\<lambda>c. (connected c, ended c)"
  have m: "map ?f (lib_clients t') = map ?f (lib_clients t)" and c: "client t' = client t"
    using assms by (simp_all add: link_view_def)
  show "client t' = client t" by (rule c)
  show len: "length (lib_clients t') = length (lib_clients t)" using arg_cong[OF m, of length] by simp
  assume i: "i < length (lib_clients t)"
  have "?f (lib_clients t' ! i) = ?f (lib_clients t ! i)"
    using nth_map[of i "lib_clients t'" ?f] nth_map[of i "lib_clients t" ?f] i len m by simp
  then show "connected (lib_clients t' ! i) = connected (lib_clients t ! i)"
    and "ended (lib_clients t' ! i) = ended (lib_clients t ! i)" by simp_all
qed

lemma transport_inv_view:
  assumes "link_view t' = link_view t"
  shows "transport_inv t' = transport_inv t"
proof -
  note v = link_view_nth[OF assms]
  have "list_all (\<lambda>c. \<not> (ended c \<and> connected c)) (lib_clients t')
        = list_all (\<lambda>c. \<not> (ended c \<and> connected c)) (lib_clients t)"
    using v by (simp add: list_all_length)
  moreover have "(case client t' of None \<Rightarrow> True | Some i \<Rightarrow> i < length (lib_clients t') \<and> \<not> ended (lib_clients t' ! i))
        = (case client t of None \<Rightarrow> True | Some i \<Rightarrow> i < length (lib_clients t) \<and> \<not> ended (lib_clients t ! i))"
    using v by (auto split: option.split)
  ultimately show ?thesis by (simp only: transport_inv_def)
qed

lemma live_clients_view:
  "link_view t' = link_view t \<Longrightarrow> live_clients t' = live_clients t"
proof -
  assume "link_view t' = link_view t"
  then have "map (\<lambda>c. (connected c, ended c)) (lib_clients t') = map (\<lambda>c. (connected c, ended c)) (lib_clients t)"
    by (simp add: link_view_def)
  then have "map (\<lambda>x. \<not> snd x) (map (\<lambda>c. (connected c, ended c)) (lib_clients t'))
           = map (\<lambda>x. \<not> snd x) (map (\<lambda>c. (connected c, ended c)) (lib_clients t))" by simp
  then have "map (\<lambda>c. \<not> ended c) (lib_clients t') = map (\<lambda>c. \<not> ended c) (lib_clients t)"
    by (simp add: comp_def)
  then show ?thesis unfolding live_clients_def by (rule length_filter_map_eq)
qed

lemma is_connected_view:
  assumes "link_view t' = link_view t" "transport_inv t"
  shows "is_connected t' = is_connected t"
proof (cases "client t")
  case None
  then show ?thesis using link_view_nth(1)[OF assms(1)] by (simp add: is_connected_def)
next
  case (Some i)
  with assms(2) have "i < length (lib_clients t)" by (simp add: transport_inv_def)
  then show ?thesis
    using Some link_view_nth(1,3)[OF assms(1)] by (simp add: is_connected_def)
qed

lemma publish_link_view: "link_view (fst (publish d topic t)) = link_view t"
proof (cases "client t")
  case None
  then show ?thesis by (simp add: publish_def Let_def)
next
  case (Some i)
  let ?f = "\<lambda>c. (connected c, ended c)"
  have self: "(map ?f (lib_clients t))[i := ?f ((lib_clients t ! i)\<lparr>sent := x\<rparr>)] = map ?f (lib_clients t)" for x
    using map_update_self[of ?f "lib_clients t" i] by simp
  show ?thesis
  proof (cases "connected (lib_clients t ! i)")
    case True
    let ?c = "lib_clients t ! i"
    have "fst (publish d topic t) = t\<lparr>lib_clients := (lib_clients t)[i := ?c\<lparr>sent := sent ?c
            @ [(js_or_string topic (TOPIC MQTT_CONFIG), d)]\<rparr>]\<rparr>"
      using Some True by (simp add: publish_def Let_def)
    then show ?thesis using self by (simp add: link_view_def map_update)
  next
    case False
    then show ?thesis using Some by (simp add: publish_def Let_def)
  qed
qed

lemma connect_live: "live_clients (fst (fst (connect g (t, s)))) = Suc (live_clients t)"
  by (simp add: connect_eq live_clients_def)

lemma disconnect_live:
  "transport_inv t \<Longrightarrow> client t = Some i \<Longrightarrow> live_clients (disconnect t) = live_clients t - 1"
  unfolding live_clients_def transport_inv_def disconnect_def
  by (simp add: Let_def length_filter_update_false)

lemma event_fields:
  "client (fst (on_client_event i e t)) = client t"
  "length (lib_clients (fst (on_client_event i e t))) = length (lib_clients t)"
  "i < length (lib_clients t) \<Longrightarrow> live_clients (fst (on_client_event i e t)) = live_clients t"
  unfolding on_client_event_def live_clients_def
  by (cases e; simp add: Let_def length_filter_update_same)+

lemma event_connected:
  "i < length (lib_clients t) \<Longrightarrow>
   connected (lib_clients (fst (on_client_event i e t)) ! i) = (case e of EvConnect \<Rightarrow> True
      | EvError m \<Rightarrow> connected (lib_clients t ! i) | EvOffline \<Rightarrow> False)"
  by (cases e) (simp_all add: on_client_event_def Let_def)

lemma live_unique:
  "live_clients t \<le> 1 \<Longrightarrow> i < length (lib_clients t) \<Longrightarrow> j < length (lib_clients t) \<Longrightarrow>
   \<not> ended (lib_clients t ! i) \<Longrightarrow> \<not> ended (lib_clients t ! j) \<Longrightarrow> i = j"
  unfolding live_clients_def by (rule filter_unique_index)

lemma live_pos:
  "i < length (lib_clients t) \<Longrightarrow> \<not> ended (lib_clients t ! i) \<Longrightarrow> 0 < live_clients t"
  unfolding live_clients_def length_filter_conv_card
  by (auto simp: card_gt_0_iff)

lemma hex_digits_chars:
  "0 \<le> x \<Longrightarrow> x < 1 \<Longrightarrow> set (hex_digits n x) \<subseteq> set ''0123456789abcdef'' \<and> length (hex_digits n x) \<le> n"
proof (induction n arbitrary: x)
  case 0
  then show ?case by simp
next
  case (Suc n)
  show ?case
  proof (cases "x = 0")
    case True
    then show ?thesis by simp
  next
    case False
    let ?y = "x * 16"
    have fl: "0 \<le> \<lfloor>?y\<rfloor>" "\<lfloor>?y\<rfloor> < 16" using Suc.prems by (simp_all add: floor_less_iff)
    have "nat \<lfloor>?y\<rfloor> < 16"
      using nat_less_iff[OF fl(1), of 16] fl(2) by (simp only: of_nat_numeral)
    then have "nat \<lfloor>?y\<rfloor> < length ''0123456789abcdef''" by (simp only: length_16)
    then have "digit_char (nat \<lfloor>?y\<rfloor>) \<in> set ''0123456789abcdef''"
      unfolding digit_char_def by (rule nth_mem)
    moreover have "0 \<le> ?y - of_int \<lfloor>?y\<rfloor>" "?y - of_int \<lfloor>?y\<rfloor> < 1" by linarith+
    ultimately show ?thesis using Suc.IH False by (simp add: Let_def)
  qed
qed

lemma hex_expand_zero: "hex_expand 0 = Some []"
  by (subst hex_expand.simps) simp

lemma hex_expand_step:
  "x \<noteq> 0 \<Longrightarrow> hex_expand x =
     Option.bind (hex_expand (x * 16 - of_int \<lfloor>x * 16\<rfloor>)) (\<lambda>ds. Some (digit_char (nat \<lfloor>x * 16\<rfloor>) # ds))"
  by (subst hex_expand.simps) simp

lemma dyadic_frac_step:
  fixes m k :: nat
  shows "of_nat m / 2 ^ k * 16 - of_int \<lfloor>(of_nat m / 2 ^ k * 16 :: real)\<rfloor>
           = (if k \<le> 4 then 0 else (of_nat (m mod 2 ^ (k - 4)) / 2 ^ (k - 4) :: real))"
proof (cases "k \<le> 4")
  case True
  then have h: "(16::real) = 2 ^ k * 2 ^ (4 - k)"
    by (simp add: power_add[symmetric])
  have "of_nat m / 2 ^ k * 16 = (of_nat m / 2 ^ k) * (2 ^ k * 2 ^ (4 - k) :: real)"
    by (subst h) (rule refl)
  also have "\<dots> = of_nat (m * 2 ^ (4 - k))" by simp
  finally have "of_nat m / 2 ^ k * 16 = (of_nat (m * 2 ^ (4 - k)) :: real)" .
  then show ?thesis using True by simp
next
  case False
  define d :: nat where "d = 2 ^ (k - 4)"
  have "k = (k - 4) + 4" using False by simp
  then have "(2::real) ^ k = 2 ^ (k - 4) * 2 ^ 4" by (metis power_add)
  then have "(2::real) ^ k = 2 ^ (k - 4) * 16" by simp
  then have e: "of_nat m / 2 ^ k * 16 = (of_nat m / of_nat d :: real)"
    by (simp add: d_def)
  have f: "\<lfloor>(of_nat m / of_nat d :: real)\<rfloor> = of_nat (m div d)"
    by (rule floor_divide_of_nat_eq)
  have "(of_nat m :: real) = of_nat d * of_nat (m div d) + of_nat (m mod d)"
    by (simp flip: of_nat_mult of_nat_add)
  moreover have "0 < (of_nat d :: real)" by (simp add: d_def)
  ultimately have "of_nat m / of_nat d - of_nat (m div d) = (of_nat (m mod d) / of_nat d :: real)"
    by (simp add: field_simps)
  then show ?thesis using False e f by (simp add: d_def)
qed


lemma hex_expand_dyadic:
  fixes m k :: nat
  assumes "m < 2 ^ k"
  shows "\<exists>ds. hex_expand (of_nat m / 2 ^ k) = Some ds \<and> length ds \<le> (k + 3) div 4"
  using assms
proof (induction k arbitrary: m rule: less_induct)
  case (less k)
  show ?case
  proof (cases "m = 0")
    case True
    then show ?thesis by (simp add: hex_expand_zero)
  next
    case False
    then have nz: "(of_nat m / 2 ^ k :: real) \<noteq> 0" by simp
    have st: "hex_expand (of_nat m / 2 ^ k) =
      Option.bind (hex_expand (if k \<le> 4 then 0 else of_nat (m mod 2 ^ (k - 4)) / 2 ^ (k - 4)))
        (\<lambda>ds. Some (digit_char (nat \<lfloor>(of_nat m / 2 ^ k * 16 :: real)\<rfloor>) # ds))"
      by (simp only: hex_expand_step[OF nz] dyadic_frac_step)
    show ?thesis
    proof (cases "k \<le> 4")
      case True
      have "k \<noteq> 0"
      proof
        assume "k = 0"
        with less.prems False show False by simp
      qed
      then show ?thesis using True by (simp add: st hex_expand_zero)
    next
      case big: False
      have lt: "k - 4 < k" using big by simp
      have "m mod 2 ^ (k - 4) < 2 ^ (k - 4)" by simp
      from less.IH[OF lt this] obtain ds
        where ds: "hex_expand (of_nat (m mod 2 ^ (k - 4)) / 2 ^ (k - 4)) = Some ds"
          "length ds \<le> (k - 4 + 3) div 4"
        by blast
      moreover have "Suc ((k - 4 + 3) div 4) = (k + 3) div 4" using big by simp
      ultimately show ?thesis using big by (simp add: st)
    qed
  qed
qed

lemma hex_digits_expand: "hex_expand x = Some ds \<Longrightarrow> hex_digits n x = take n ds"
proof (induction n arbitrary: x ds)
  case (Suc n)
  show ?case
  proof (cases "x = 0")
    case True
    then show ?thesis using Suc.prems by (simp add: hex_expand_zero)
  next
    case False
    then obtain ds' where "hex_expand (x * 16 - of_int \<lfloor>x * 16\<rfloor>) = Some ds'"
      "ds = digit_char (nat \<lfloor>x * 16\<rfloor>) # ds'"
      using Suc.prems by (auto simp: hex_expand_step bind_eq_Some_conv)
    then show ?thesis using False Suc.IH by (simp add: Let_def)
  qed
qed simp

section \<open>Properties of the adapter\<close>

text \<open>
  C13. In every state the adapter reaches from \<open>new MqttService()\<close>, through its
  operations and the library's events, \<open>this.client\<close> references a live
  client and no ended client counts as connected.
\<close>

theorem transport_reachable_inv:
  assumes "(transport_step g)\<^sup>*\<^sup>* (transport0, s0) (t, s)"
  shows "transport_inv t"
proof -
  have "transport_inv (fst (transport0, s0))" by (simp add: transport0_def transport_inv_def)
  with assms have "transport_inv (fst (t, s))"
    by (induction rule: rtranclp_induct) (auto intro: transport_step_inv)
  then show ?thesis by simp
qed

theorem transport_reachable_inv_witness:
  "(transport_step demo_rng)\<^sup>*\<^sup>* (transport0, 7) (fst (connect demo_rng (transport0, 7)))
   \<and> transport_inv (fst (fst (connect demo_rng (transport0, 7))))"
proof -
  have r: "(transport_step demo_rng)\<^sup>*\<^sup>* (transport0, 7) (fst (connect demo_rng (transport0, 7)))"
    by (rule r_into_rtranclp) (rule transport_step.step_connect)
  obtain t s where ts: "fst (connect demo_rng (transport0, 7)) = (t, s)" by fastforce
  have r': "(transport_step demo_rng)\<^sup>*\<^sup>* (transport0, 7) (t, s)" using r ts by simp
  show ?thesis using r transport_reachable_inv[OF r'] by (simp add: ts)
qed

text \<open>
  C14. \<open>publish\<close> on an adapter that is not connected (no client, or a client
  whose link is down) neither sends nor fails: it returns \<open>null\<close> and leaves
  the adapter and every library client unchanged.
\<close>

theorem publish_not_connected:
  assumes "\<not> is_connected t"
  shows "publish data topic t = (t, None)"
  using assms by (simp add: publish_def is_connected_def split: option.splits)

theorem publish_not_connected_witness:
  "\<not> is_connected transport0 \<and> publish (JStr ''x'') None transport0 = (transport0, None)"
proof -
  have h: "\<not> is_connected transport0" by (simp add: is_connected_def transport0_def)
  show ?thesis using h publish_not_connected[OF h] by blast
qed

text \<open>
  C15. \<open>publish\<close> through a connected client returns the message and appends
  exactly one \<open>(topic, message)\<close> pair to what that client has sent, and
  touches no other client. The topic is \<open>topic || this.defaultTopic\<close>: the
  given topic when it is a non-empty string, and
  \<open>supplychain/warehouse/events\<close> both when it is absent and when it is the
  empty string, which JavaScript's \<open>||\<close> treats as false.
\<close>

theorem publish_connected:
  assumes "client t = Some i" "i < length (lib_clients t)" "connected (lib_clients t ! i)"
  shows "snd (publish data topic t) = Some data
         \<and> client (fst (publish data topic t)) = Some i
         \<and> lib_clients (fst (publish data topic t))
             = (lib_clients t)[i := (lib_clients t ! i)\<lparr>sent := sent (lib_clients t ! i)
                 @ [(case topic of None \<Rightarrow> ''supplychain/warehouse/events''
                     | Some tp \<Rightarrow> if tp = [] then ''supplychain/warehouse/events'' else tp, data)]\<rparr>]"
  using assms by (simp add: publish_def Let_def js_or_string_def MQTT_CONFIG_def split: option.split)

theorem publish_connected_witness:
  "client (fst (on_client_event 0 EvConnect (fst (fst (connect demo_rng (transport0, 7)))))) = Some 0
   \<and> 0 < length (lib_clients (fst (on_client_event 0 EvConnect (fst (fst (connect demo_rng (transport0, 7)))))))
   \<and> connected (lib_clients (fst (on_client_event 0 EvConnect (fst (fst (connect demo_rng (transport0, 7)))))) ! 0)
   \<and> snd (publish (JStr ''x'') (Some []) (fst (on_client_event 0 EvConnect (fst (fst (connect demo_rng (transport0, 7))))))) = Some (JStr ''x'')"
proof -
  let ?t = "fst (on_client_event 0 EvConnect (fst (fst (connect demo_rng (transport0, 7)))))"
  have h: "client ?t = Some 0" "0 < length (lib_clients ?t)" "connected (lib_clients ?t ! 0)"
    by (simp_all add: on_client_event_def connect_eq transport0_def)
  show ?thesis using h publish_connected[OF h, of "JStr ''x''" "Some []"] by blast
qed

text \<open>
  \<open>disconnect\<close> is idempotent and always leaves the adapter without a
  client, from which \<open>connect\<close> creates and references a fresh client.
\<close>

theorem disconnect_idempotent:
  "disconnect (disconnect t) = disconnect t
   \<and> client (disconnect t) = None
   \<and> client (fst (fst (connect g (disconnect t, s)))) = Some (length (lib_clients (disconnect t)))"
  by (simp add: disconnect_def connect_eq Let_def split: option.split)

text \<open>
  C16. \<open>connect\<close> does not check for an existing client ("Connect MQTT if not
  already" in \<open>startSimulation\<close>): connecting again while a client is
  referenced leaves the old client live (not ended) and unreferenced, so two
  library clients run and the old one keeps reporting to the status sink.
\<close>

theorem connect_leaks_live_client:
  assumes "transport_inv t" "client t = Some i"
  shows "let t' = fst (fst (connect g (t, s)))
         in live_clients t' = Suc (live_clients t) \<and> i < length (lib_clients t')
            \<and> \<not> ended (lib_clients t' ! i) \<and> client t' \<noteq> Some i
            \<and> snd (on_client_event i EvConnect t') = [''Connected'']"
  using assms by (auto simp: connect_eq transport_inv_def live_clients_def nth_append on_client_event_def)

theorem connect_leaks_live_client_witness:
  "transport_inv (fst (fst (connect demo_rng (transport0, 7))))
   \<and> client (fst (fst (connect demo_rng (transport0, 7)))) = Some 0
   \<and> (let t' = fst (fst (connect demo_rng (fst (fst (connect demo_rng (transport0, 7))), 8)))
      in live_clients t' = Suc (live_clients (fst (fst (connect demo_rng (transport0, 7)))))
         \<and> 0 < length (lib_clients t') \<and> \<not> ended (lib_clients t' ! 0) \<and> client t' \<noteq> Some 0
         \<and> snd (on_client_event 0 EvConnect t') = [''Connected''])"
proof -
  let ?t = "fst (fst (connect demo_rng (transport0, 7)))"
  have h: "transport_inv ?t" "client ?t = Some 0"
    by (simp_all add: connect_eq transport0_def transport_inv_def)
  show ?thesis using h connect_leaks_live_client[OF h, of demo_rng 8] by blast
qed

text \<open>
  With a draw in \<open>[0, 1)\<close>, the new client's id is \<open>sc_sim_\<close> followed
  by at most six lowercase hexadecimal digits, and it connects to
  \<open>ws://test.mosquitto.org:8080\<close> with a clean session, a reconnect period of
  5 s and a connect timeout of 30 s.
\<close>

theorem connect_client_options:
  assumes "0 \<le> fst (g s)" "fst (g s) < 1"
  shows "let c = last (lib_clients (fst (fst (connect g (t, s))))); cid = clientId (options c)
         in take 7 cid = ''sc_sim_'' \<and> length cid \<le> 13 \<and> set (drop 7 cid) \<subseteq> set ''0123456789abcdef''
            \<and> url c = ''ws://test.mosquitto.org:8080'' \<and> clean (options c)
            \<and> reconnectPeriod (options c) = 5000 \<and> connectTimeout (options c) = 30000"
proof -
  have "connect_url MQTT_CONFIG = ''ws://test.mosquitto.org:8080''"
    by (simp add: connect_url_def MQTT_CONFIG_def int_string_def decimal.simps digit_char_def)
  then show ?thesis
    using hex_digits_chars[OF assms, of 6] by (simp add: connect_eq Let_def)
qed

theorem connect_client_options_witness:
  "0 \<le> fst (demo_rng 7) \<and> fst (demo_rng 7) < 1
   \<and> (let c = last (lib_clients (fst (fst (connect demo_rng (transport0, 7))))); cid = clientId (options c)
      in take 7 cid = ''sc_sim_'' \<and> length cid \<le> 13 \<and> set (drop 7 cid) \<subseteq> set ''0123456789abcdef''
         \<and> url c = ''ws://test.mosquitto.org:8080'' \<and> clean (options c)
         \<and> reconnectPeriod (options c) = 5000 \<and> connectTimeout (options c) = 30000)"
proof -
  have h: "0 \<le> fst (demo_rng 7)" "fst (demo_rng 7) < 1" by (simp_all add: demo_rng_def)
  show ?thesis using h connect_client_options[where g = demo_rng and s = 7 and t = transport0, OF h] by blast
qed

end
