(* ===== verification/Scheduler.thy ===== *)
theory Scheduler
  imports Transport
begin

text \<open>
  The \<open>App\<close> component of \<^verbatim>\<open>src/App.tsx\<close> as a state machine: its React
  state (\<open>params\<close>, \<open>isRunning\<close>, \<open>mqttStatus\<close>, \<open>currentData\<close>,
  \<open>history\<close>, \<open>products\<close>), the ref \<open>timerRef\<close>, the browser's table of
  armed intervals, the \<open>mqttService\<close> singleton and the state of
  \<open>Math.random()\<close>. Product objects live in an explicit heap: the registry,
  the catalog captured by \<open>startSimulation\<close>, and the snapshots held by
  \<open>currentData\<close> and \<open>history\<close> are lists of references into it, because
  the tick writes \<open>lastRestock\<close> into objects those snapshots share.
  React state updates are applied once, in the order the code issues them.
\<close>

section \<open>State\<close>

record 's app_state =
  params :: sim_params
  isRunning :: bool
  mqttStatus :: string
  currentData :: "addr simulation_result option"
  history :: "addr simulation_result list"
  timerRef :: "nat option" \<comment> \<open>\<open>timerRef.current\<close>\<close>
  timers :: "nat list" \<comment> \<open>the intervals the browser has armed\<close>
  nextTimer :: nat \<comment> \<open>the id the next \<open>setInterval\<close> returns\<close>
  products :: "addr list" \<comment> \<open>the \<open>products\<close> state\<close>
  catalog :: "addr list" \<comment> \<open>\<open>initialProducts\<close> as captured by \<open>startSimulation\<close>\<close>
  catalogTime :: ms \<comment> \<open>\<open>Date.now()\<close> of the render that built that catalog\<close>
  heap :: "product list" \<comment> \<open>the product objects, by address\<close>
  mqtt :: transport \<comment> \<open>\<open>mqttService\<close> and the library's clients\<close>
  rng :: 's \<comment> \<open>the state of \<open>Math.random()\<close>\<close>

text \<open>The first render: default parameters, the catalog as the initial registry.\<close>

definition app_init :: "'s \<Rightarrow> ms \<Rightarrow> 's app_state" where
  "app_init s0 t0 =
    \<lparr>params = DEFAULT_PARAMS, isRunning = False, mqttStatus = ''Disconnected'',
     currentData = None, history = [], timerRef = None, timers = [], nextTimer = 1,
     products = [0 ..< length (initialProducts t0)], catalog = [0 ..< length (initialProducts t0)],
     catalogTime = t0, heap = initialProducts t0, mqtt = transport0, rng = s0\<rparr>"

section \<open>Payloads\<close>

primrec product_type_name :: "product_type \<Rightarrow> string" where
  "product_type_name FRESH = ''FRESH''"
| "product_type_name FROZEN = ''FROZEN''"
| "product_type_name DRY = ''DRY''"

text \<open>The \<open>product_update\<close> event built in \<open>next.forEach\<close>.\<close>

definition product_payload :: "ms \<Rightarrow> product \<Rightarrow> json" where
  "product_payload now prd =
    JObj [(''event'', JStr ''product_update''), (''timestamp'', JDate now),
          (''product'', JObj [
             (''id'', JStr (product_id prd)), (''name'', JStr (name prd)),
             (''type'', JStr (product_type_name (ptype prd))),
             (''currentStock'', JNum (of_int (currentStock prd))),
             (''maxStock'', JNum (of_int (maxStock prd))),
             (''reorderLevel'', JNum (of_int (reorderLevel prd))),
             (''price'', JNum (price prd)),
             (''demandRate'', JNum (of_int (demandRate prd))),
             (''sensors'', JObj [(''temperature'', JNum (temperature (sensors prd))),
                                (''humidity'', JNum (humidity (sensors prd))),
                                (''timestamp'', JNum (of_int (readAt (sensors prd))))]),
             (''status'', JStr (status prd)),
             (''lastRestock'', (case lastRestock prd of None \<Rightarrow> JNull | Some t \<Rightarrow> JNum (of_int t)))])]"

text \<open>The aggregate \<open>agg\<close>, published without a product snapshot.\<close>

definition agg_payload :: "'p simulation_result \<Rightarrow> json" where
  "agg_payload agg =
    JObj [(''timestamp'', JDate (timestamp agg)), (''demand'', JNum (of_int (demand agg))),
          (''inventory_level'', JNum (of_int (inventory_level agg))),
          (''reorder_quantity'', JNum (of_int (reorder_quantity agg))),
          (''lead_time_days'', JNum (lead_time_days agg)),
          (''stockout'', JNum (of_int (stockout agg)))]"

text \<open>\<open>{ ...agg, products: next }\<close>\<close>

definition with_products :: "'a simulation_result \<Rightarrow> 'b list \<Rightarrow> 'b simulation_result" where
  "with_products agg ps =
    \<lparr>timestamp = timestamp agg, demand = demand agg, inventory_level = inventory_level agg,
     reorder_quantity = reorder_quantity agg, lead_time_days = lead_time_days agg,
     stockout = stockout agg, products = Some ps\<rparr>"

section \<open>The heap\<close>

text \<open>In-place writes to the objects at the given addresses, in order.\<close>

fun write_back :: "addr list \<Rightarrow> product list \<Rightarrow> product list \<Rightarrow> product list" where
  "write_back (a # as) (p # ps) h = write_back as ps (h[a := p])"
| "write_back _ _ h = h"

definition deref :: "product list \<Rightarrow> addr list \<Rightarrow> product list" where
  "deref h as = map (nth h) as"

section \<open>Operations\<close>

text \<open>\<open>next.forEach(prod => mqttService.publish(payload))\<close>\<close>

fun publish_each :: "json list \<Rightarrow> transport \<Rightarrow> transport" where
  "publish_each [] t = t"
| "publish_each (d # ds) t = publish_each ds (fst (publish d None t))"

text \<open>
  \<open>runSimulationTick\<close>: the tick engine's updater applied to the registry's
  objects, its in-place writes made in the heap, the next registry allocated,
  every product event and then the aggregate published, and the aggregate with
  the next registry stored as \<open>currentData\<close> and appended to \<open>history\<close>.
\<close>

definition run_tick :: "'s rng \<Rightarrow> ms \<Rightarrow> 's app_state \<Rightarrow> 's app_state" where
  "run_tick g now st =
    (let out = tick g now (params st) (deref (heap st) (products st)) (rng st);
         h1 = write_back (products st) (prev_after out) (heap st);
         nxt = next_products out;
         addrs = [length h1 ..< length h1 + length nxt];
         m1 = publish_each (map (product_payload now) nxt) (mqtt st);
         m2 = fst (publish (agg_payload (aggregate out)) None m1);
         aggWithProducts = with_products (aggregate out) addrs
     in st\<lparr>heap := h1 @ nxt, products := addrs, mqtt := m2,
           currentData := Some aggWithProducts, history := history st @ [aggWithProducts],
           rng := rng_after out\<rparr>)"

text \<open>The value \<open>setMqttStatus\<close> holds after the sink received \<open>ss\<close>.\<close>

definition last_status :: "string list \<Rightarrow> string \<Rightarrow> string" where
  "last_status ss cur = (if ss = [] then cur else last ss)"

text \<open>
  \<open>startSimulation\<close>: connect, reset the registry to the captured catalog,
  clear the history, mark running, run one tick at once, then arm the interval.
\<close>

definition start_simulation :: "'s rng \<Rightarrow> ms \<Rightarrow> 's app_state \<Rightarrow> 's app_state" where
  "start_simulation g now st =
    (let ((m1, s1), ss) = connect g (mqtt st, rng st);
         st1 = st\<lparr>mqtt := m1, rng := s1, mqttStatus := last_status ss (mqttStatus st),
                  products := catalog st, history := [], isRunning := True\<rparr>;
         st2 = run_tick g now st1;
         tid = nextTimer st2
     in st2\<lparr>timerRef := Some tid, timers := timers st2 @ [tid], nextTimer := Suc tid\<rparr>)"

text \<open>
  \<open>stopSimulation\<close>: clear the interval if \<open>timerRef.current\<close> is truthy (an
  id of \<open>0\<close> is falsy), disconnect, report \<open>Disconnected\<close>, mark stopped.
\<close>

definition stop_simulation :: "'s app_state \<Rightarrow> 's app_state" where
  "stop_simulation st =
    (let st1 = (case timerRef st of
                  None \<Rightarrow> st
                | Some tid \<Rightarrow> if tid = 0 then st
                              else st\<lparr>timers := filter (\<lambda>x. x \<noteq> tid) (timers st), timerRef := None\<rparr>)
     in st1\<lparr>mqtt := disconnect (mqtt st1), mqttStatus := ''Disconnected'', isRunning := False\<rparr>)"

text \<open>
  The cleanup of the mount effect, run on unmount: clear the interval if
  \<open>timerRef.current\<close> is truthy (without resetting the ref) and disconnect.
\<close>

definition unmount_cleanup :: "'s app_state \<Rightarrow> 's app_state" where
  "unmount_cleanup st =
    (let st1 = (case timerRef st of
                  None \<Rightarrow> st
                | Some tid \<Rightarrow> if tid = 0 then st else st\<lparr>timers := filter (\<lambda>x. x \<noteq> tid) (timers st)\<rparr>)
     in st1\<lparr>mqtt := disconnect (mqtt st1)\<rparr>)"

text \<open>A library event on client \<open>i\<close>, its handler reporting through \<open>setMqttStatus\<close>.\<close>

definition broker_event :: "addr \<Rightarrow> client_event \<Rightarrow> 's app_state \<Rightarrow> 's app_state" where
  "broker_event i e st =
    (let (m1, ss) = on_client_event i e (mqtt st)
     in st\<lparr>mqtt := m1, mqttStatus := last_status ss (mqttStatus st)\<rparr>)"

text \<open>The field of \<open>SimulationParams\<close> an input of the form writes.\<close>

datatype param_field = InitialStock | ReorderPoint | ReorderQuantity | DemandMin | DemandMax
  | LeadTimeMin | LeadTimeMax | SimulationInterval

primrec set_param_field :: "param_field \<Rightarrow> real \<Rightarrow> sim_params \<Rightarrow> sim_params" where
  "set_param_field InitialStock v p = p\<lparr>initialStock := v\<rparr>"
| "set_param_field ReorderPoint v p = p\<lparr>reorderPoint := v\<rparr>"
| "set_param_field ReorderQuantity v p = p\<lparr>reorderQuantity := v\<rparr>"
| "set_param_field DemandMin v p = p\<lparr>demandMin := v\<rparr>"
| "set_param_field DemandMax v p = p\<lparr>demandMax := v\<rparr>"
| "set_param_field LeadTimeMin v p = p\<lparr>leadTimeMin := v\<rparr>"
| "set_param_field LeadTimeMax v p = p\<lparr>leadTimeMax := v\<rparr>"
| "set_param_field SimulationInterval v p = p\<lparr>simulationInterval := v\<rparr>"

text \<open>
  \<open>setParams({...params, [name]: v})\<close> and the render it causes: the render
  builds a fresh \<open>initialProducts\<close>, and because \<open>params\<close> changed,
  \<open>useCallback\<close> gives \<open>startSimulation\<close> a closure capturing it.
\<close>

definition set_param :: "param_field \<Rightarrow> real \<Rightarrow> ms \<Rightarrow> 's app_state \<Rightarrow> 's app_state" where
  "set_param f v now st =
    st\<lparr>params := set_param_field f v (params st),
       catalog := [length (heap st) ..< length (heap st) + length (initialProducts now)],
       catalogTime := now, heap := heap st @ initialProducts now\<rparr>"

section \<open>Runs\<close>

text \<open>
  The reachable states. The form shows Start only while stopped and Stop only
  while running, and disables its inputs while running; the browser fires only
  armed intervals; the library reports only on clients not ended.
\<close>

inductive app_reach :: "'s rng \<Rightarrow> 's \<Rightarrow> ms \<Rightarrow> 's app_state \<Rightarrow> bool" for g s0 t0 where
  init: "app_reach g s0 t0 (app_init s0 t0)"
| start: "app_reach g s0 t0 st \<Longrightarrow> \<not> isRunning st \<Longrightarrow> app_reach g s0 t0 (start_simulation g now st)"
| stop: "app_reach g s0 t0 st \<Longrightarrow> isRunning st \<Longrightarrow> app_reach g s0 t0 (stop_simulation st)"
| fire: "app_reach g s0 t0 st \<Longrightarrow> i \<in> set (timers st) \<Longrightarrow> app_reach g s0 t0 (run_tick g now st)"
| param: "app_reach g s0 t0 st \<Longrightarrow> \<not> isRunning st \<Longrightarrow> app_reach g s0 t0 (set_param f v now st)"
| broker: "app_reach g s0 t0 st \<Longrightarrow> i < length (lib_clients (mqtt st)) \<Longrightarrow>
     \<not> ended (lib_clients (mqtt st) ! i) \<Longrightarrow> app_reach g s0 t0 (broker_event i e st)"

text \<open>
  The armed interval firing once at each of the times \<open>nows\<close>: each firing runs
  \<open>runSimulationTick\<close>.
\<close>

definition fire_ticks :: "'s rng \<Rightarrow> ms list \<Rightarrow> 's app_state \<Rightarrow> 's app_state" where
  "fire_ticks g nows st = fold (run_tick g) nows st"

section \<open>The invariant\<close>

text \<open>
  At most one interval is armed, and \<open>timerRef\<close> holds it exactly while running.
\<close>

definition timer_inv :: "'s app_state \<Rightarrow> bool" where
  "timer_inv st \<longleftrightarrow> 0 < nextTimer st \<and>
     (case timerRef st of
        None \<Rightarrow> timers st = [] \<and> \<not> isRunning st
      | Some i \<Rightarrow> timers st = [i] \<and> 0 < i \<and> i < nextTimer st \<and> isRunning st)"

text \<open>
  The adapter holds a client exactly while running, exactly that client is
  live, and the status shows \<open>Connected\<close> only when that client is connected.
\<close>

definition link_inv :: "'s app_state \<Rightarrow> bool" where
  "link_inv st \<longleftrightarrow> transport_inv (mqtt st)
     \<and> isRunning st = (client (mqtt st) \<noteq> None)
     \<and> live_clients (mqtt st) = (if isRunning st then 1 else 0)
     \<and> (mqttStatus st = ''Connected'' \<longrightarrow> is_connected (mqtt st))"

text \<open>
  The registry and the catalog are valid distinct references, the same list
  or disjoint; the catalog is the \<open>initialProducts\<close> of its render, unchanged;
  every registry product is well formed and has status \<open>OK\<close>.
\<close>

definition valid_refs :: "product list \<Rightarrow> addr list \<Rightarrow> bool" where
  "valid_refs h as \<longleftrightarrow> distinct as \<and> list_all (\<lambda>a. a < length h) as"

definition heap_inv :: "'s app_state \<Rightarrow> bool" where
  "heap_inv st \<longleftrightarrow> valid_refs (heap st) (products st) \<and> valid_refs (heap st) (catalog st)
     \<and> (products st = catalog st \<or> set (products st) \<inter> set (catalog st) = {})
     \<and> deref (heap st) (catalog st) = initialProducts (catalogTime st)
     \<and> list_all product_wf (deref (heap st) (products st))
     \<and> list_all (\<lambda>p. status p = ''OK'') (deref (heap st) (products st))"

text \<open>
  \<open>currentData\<close> is the last entry of \<open>history\<close>, its snapshot is the
  registry, and its \<open>inventory_level\<close> is the registry's total stock.
\<close>

definition data_inv :: "'s app_state \<Rightarrow> bool" where
  "data_inv st \<longleftrightarrow>
     (case currentData st of
        None \<Rightarrow> history st = []
      | Some agg \<Rightarrow> history st \<noteq> [] \<and> last (history st) = agg
          \<and> simulation_result.products agg = Some (products st)
          \<and> inventory_level agg = sum_list (map currentStock (deref (heap st) (products st))))"

definition app_inv :: "'s app_state \<Rightarrow> bool" where
  "app_inv st \<longleftrightarrow> timer_inv st \<and> link_inv st \<and> heap_inv st \<and> data_inv st"

text \<open>
  Every registry product keeps its stock margin, and no aggregate, current or
  in the history, has counted a stockout.
\<close>

definition stock_inv :: "'s app_state \<Rightarrow> bool" where
  "stock_inv st \<longleftrightarrow> list_all stock_margin (deref (heap st) (products st))
     \<and> list_all (\<lambda>e. stockout e = 0) (history st)
     \<and> (case currentData st of None \<Rightarrow> True | Some d \<Rightarrow> stockout d = 0)"

text \<open>A run used by the examples: seed \<open>7\<close>, first render at time \<open>0\<close>, Start at \<open>1000\<close>.\<close>

definition demo_started :: "nat app_state" where
  "demo_started = start_simulation demo_rng 1000 (app_init 7 0)"

section \<open>Heap lemmas\<close>

lemma length_write_back [simp]: "length (write_back as ps h) = length h"
  by (induction as ps h rule: write_back.induct) simp_all

lemma write_back_other: "a \<notin> set as \<Longrightarrow> write_back as ps h ! a = h ! a"
  by (induction as ps h rule: write_back.induct) simp_all

lemma deref_write_back:
  "valid_refs h as \<Longrightarrow> length ps = length as \<Longrightarrow> deref (write_back as ps h) as = ps"
proof (induction as ps h rule: write_back.induct)
  case (1 a as p ps h)
  then have "valid_refs (h[a := p]) as" and "a \<notin> set as" and "a < length h"
    by (simp_all add: valid_refs_def)
  with 1 show ?case by (simp add: deref_def write_back_other)
qed (simp_all add: deref_def)

lemma deref_write_back_other:
  "set bs \<inter> set as = {} \<Longrightarrow> deref (write_back as ps h) bs = deref h bs"
  by (auto simp: deref_def intro!: write_back_other)

lemma deref_append:
  "list_all (\<lambda>a. a < length h) as \<Longrightarrow> deref (h @ xs) as = deref h as"
  by (simp add: deref_def list_all_iff nth_append)

lemma deref_fresh: "deref (h @ xs) [length h ..< length h + length xs] = xs"
  by (rule nth_equalityI) (simp_all add: deref_def nth_append)

lemma valid_refs_append:
  "valid_refs h as \<Longrightarrow> valid_refs (h @ xs) as"
  by (auto simp: valid_refs_def list_all_iff)

lemma valid_refs_fresh: "valid_refs (h @ xs) [length h ..< length h + length xs]"
  by (simp add: valid_refs_def list_all_iff)

lemma fresh_disjoint:
  "list_all (\<lambda>a. a < length h) as \<Longrightarrow> set as \<inter> set [length h ..< n] = {}"
  by (auto simp: list_all_iff)

lemma valid_refs_length:
  "length h' = length h \<Longrightarrow> valid_refs h' as = valid_refs h as"
  by (simp add: valid_refs_def)

lemma catalog_no_restock:
  "list_all (\<lambda>p. 0 \<le> demandRate p \<and> reorderLevel p + demandRate p < currentStock p) (initialProducts now)"
  by (simp add: initialProducts_def)

section \<open>The tick handler\<close>

lemma publish_each_link_view: "link_view (publish_each ds t) = link_view t"
  by (induction ds arbitrary: t) (simp_all add: publish_link_view)

lemma run_tick_fields [simp]:
  "isRunning (run_tick g now st) = isRunning st"
  "timerRef (run_tick g now st) = timerRef st"
  "timers (run_tick g now st) = timers st"
  "nextTimer (run_tick g now st) = nextTimer st"
  "params (run_tick g now st) = params st"
  "catalog (run_tick g now st) = catalog st"
  "catalogTime (run_tick g now st) = catalogTime st"
  "mqttStatus (run_tick g now st) = mqttStatus st"
  "link_view (mqtt (run_tick g now st)) = link_view (mqtt st)"
  by (simp_all add: run_tick_def Let_def publish_link_view publish_each_link_view)

lemma run_tick_parts:
  assumes "out = tick g now (params st) (deref (heap st) (products st)) (rng st)"
    and "h1 = write_back (products st) (prev_after out) (heap st)"
    and "addrs = [length h1 ..< length h1 + length (next_products out)]"
  shows "heap (run_tick g now st) = h1 @ next_products out"
    and "products (run_tick g now st) = addrs"
    and "deref (heap (run_tick g now st)) addrs = next_products out"
    and "currentData (run_tick g now st) = Some (with_products (aggregate out) addrs)"
    and "history (run_tick g now st) = history st @ [with_products (aggregate out) addrs]"
    and "rng (run_tick g now st) = rng_after out"
proof -
  show hp: "heap (run_tick g now st) = h1 @ next_products out"
    using assms by (simp add: run_tick_def Let_def)
  show "deref (heap (run_tick g now st)) addrs = next_products out"
    by (simp only: hp assms(3) deref_fresh)
qed (use assms in \<open>simp_all add: run_tick_def Let_def\<close>)

lemma link_inv_view:
  assumes "link_view (mqtt st') = link_view (mqtt st)" "isRunning st' = isRunning st"
    "mqttStatus st' = mqttStatus st"
  shows "link_inv st' = link_inv st"
proof -
  note v = assms(1)
  show ?thesis
    using transport_inv_view[OF v] live_clients_view[OF v] is_connected_view[OF v] link_view_nth(1)[OF v]
    by (auto simp: link_inv_def assms(2,3))
qed

lemma run_tick_link_inv: "link_inv (run_tick g now st) = link_inv st"
  by (rule link_inv_view) simp_all

lemma run_tick_timer_inv: "timer_inv (run_tick g now st) = timer_inv st"
  by (simp add: timer_inv_def split: option.split)

lemma run_tick_data_inv: "data_inv (run_tick g now st)"
  using run_tick_parts[OF refl refl refl, of g now st]
  by (simp add: data_inv_def with_products_def tick_inventory_sum)

lemma run_tick_heap_inv:
  assumes g: "rng_ok g" and inv: "heap_inv st"
  shows "heap_inv (run_tick g now st)"
proof -
  define prev where "prev = deref (heap st) (products st)"
  define out where "out = tick g now (params st) prev (rng st)"
  define h1 where "h1 = write_back (products st) (prev_after out) (heap st)"
  define addrs where "addrs = [length h1 ..< length h1 + length (next_products out)]"
  note parts = run_tick_parts[OF out_def[unfolded prev_def] h1_def addrs_def]
  have vp: "valid_refs (heap st) (products st)" and vc: "valid_refs (heap st) (catalog st)"
    and cat: "deref (heap st) (catalog st) = initialProducts (catalogTime st)"
    and wf: "list_all product_wf prev"
    using inv by (simp_all add: heap_inv_def prev_def)
  have lp: "length (prev_after out) = length (products st)"
    by (simp add: out_def tick_lengths prev_def deref_def)
  have h1len: "length h1 = length (heap st)" by (simp add: h1_def)
  have cat1: "deref h1 (catalog st) = deref (heap st) (catalog st)"
  proof (cases "products st = catalog st")
    case True
    then have "prev = initialProducts (catalogTime st)" by (simp add: prev_def cat)
    then have "prev_after out = prev"
      by (simp add: out_def tick_prev_after_unchanged[OF g] catalog_no_restock)
    then show ?thesis using True deref_write_back[OF vp lp] by (simp add: h1_def prev_def)
  next
    case False
    then have "set (catalog st) \<inter> set (products st) = {}" using inv by (auto simp: heap_inv_def)
    then show ?thesis by (simp add: h1_def deref_write_back_other)
  qed
  have vc1: "valid_refs h1 (catalog st)" using vc by (simp add: valid_refs_length[OF h1len])
  have "set addrs \<inter> set (catalog st) = {}"
    using vc fresh_disjoint[where as = "catalog st" and h = h1] by (auto simp: addrs_def h1len valid_refs_def)
  moreover have "valid_refs (heap (run_tick g now st)) addrs"
    by (simp add: parts(1) addrs_def valid_refs_fresh)
  moreover have "valid_refs (heap (run_tick g now st)) (catalog st)"
    by (simp add: parts(1) valid_refs_append[OF vc1])
  moreover have "deref (heap (run_tick g now st)) (catalog st) = initialProducts (catalogTime st)"
    using vc1 by (simp add: parts(1) deref_append valid_refs_def cat1 cat)
  moreover have "list_all product_wf (next_products out)"
    by (simp add: out_def tick_next_wf[OF g wf])
  moreover have "list_all (\<lambda>p. status p = ''OK'') (next_products out)"
    by (simp add: out_def tick_next_status_ok[OF g])
  ultimately show ?thesis by (simp add: heap_inv_def parts(2,3))
qed

section \<open>The other handlers\<close>

text \<open>Parts of the invariant that only read some fields.\<close>

lemma inv_timer_update [simp]:
  "link_inv (st\<lparr>timerRef := a, timers := b, nextTimer := c\<rparr>) = link_inv st"
  "heap_inv (st\<lparr>timerRef := a, timers := b, nextTimer := c\<rparr>) = heap_inv st"
  "data_inv (st\<lparr>timerRef := a, timers := b, nextTimer := c\<rparr>) = data_inv st"
  by (simp_all add: link_inv_def heap_inv_def data_inv_def split: option.split)

lemma inv_link_update [simp]:
  "timer_inv (st\<lparr>mqtt := m, mqttStatus := x\<rparr>) = timer_inv st"
  "heap_inv (st\<lparr>mqtt := m, mqttStatus := x\<rparr>) = heap_inv st"
  "data_inv (st\<lparr>mqtt := m, mqttStatus := x\<rparr>) = data_inv st"
  by (simp_all add: timer_inv_def heap_inv_def data_inv_def split: option.split)

lemma start_eq:
  "start_simulation g now st =
    (let st2 = run_tick g now (st\<lparr>mqtt := fst (fst (connect g (mqtt st, rng st))), rng := snd (g (rng st)),
                  mqttStatus := ''Connecting...'', products := catalog st, history := [], isRunning := True\<rparr>)
     in st2\<lparr>timerRef := Some (nextTimer st), timers := timers st @ [nextTimer st],
            nextTimer := Suc (nextTimer st)\<rparr>)"
  by (simp add: start_simulation_def connect_eq last_status_def Let_def)

lemma start_inv:
  assumes g: "rng_ok g" and inv: "app_inv st" and stopped: "\<not> isRunning st"
  shows "app_inv (start_simulation g now st)"
proof -
  define st1 where "st1 = st\<lparr>mqtt := fst (fst (connect g (mqtt st, rng st))), rng := snd (g (rng st)),
                  mqttStatus := ''Connecting...'', products := catalog st, history := [], isRunning := True\<rparr>"
  have ti: "timer_inv st" and li: "link_inv st" and hi: "heap_inv st"
    using inv by (simp_all add: app_inv_def)
  have t0: "timerRef st = None" "timers st = []" "0 < nextTimer st"
    using ti stopped by (auto simp: timer_inv_def split: option.splits)
  have "heap_inv st1"
    using hi initialProducts_wf initialProducts_status by (simp add: st1_def heap_inv_def)
  moreover have "link_inv st1"
  proof -
    obtain t s where ts: "(mqtt st, rng st) = (t, s)" by fastforce
    have "transport_inv t" "client t = None" "live_clients t = 0"
      using li stopped ts by (auto simp: link_inv_def)
    then show ?thesis
      using ts by (simp add: st1_def link_inv_def connect_inv connect_live) (simp add: connect_eq)
  qed
  ultimately show ?thesis
    using t0 run_tick_heap_inv[OF g, of st1 now] run_tick_data_inv[of g now st1]
    by (simp add: start_eq st1_def[symmetric] app_inv_def run_tick_link_inv)
       (simp add: timer_inv_def st1_def)
qed

lemma stop_inv:
  assumes inv: "app_inv st" and running: "isRunning st"
  shows "app_inv (stop_simulation st)"
proof -
  obtain i j where ij: "timerRef st = Some i" "timers st = [i]" "0 < i" "client (mqtt st) = Some j"
    and tn: "0 < nextTimer st" and tv: "transport_inv (mqtt st)" and lc: "live_clients (mqtt st) = 1"
    using inv running by (auto simp: app_inv_def timer_inv_def link_inv_def split: option.splits)
  have st: "stop_simulation st = st\<lparr>timers := [], timerRef := None, mqtt := disconnect (mqtt st),
      mqttStatus := ''Disconnected'', isRunning := False\<rparr>"
    using ij by (simp add: stop_simulation_def)
  have "client (disconnect (mqtt st)) = None" by (simp add: disconnect_def ij)
  then have "timer_inv (stop_simulation st)" "link_inv (stop_simulation st)"
    using tn disconnect_inv[OF tv] disconnect_live[OF tv ij(4)] lc
    by (simp_all add: st timer_inv_def link_inv_def)
  moreover have "heap_inv (stop_simulation st) = heap_inv st" "data_inv (stop_simulation st) = data_inv st"
    by (simp_all add: st heap_inv_def data_inv_def split: option.split)
  ultimately show ?thesis using inv by (simp add: app_inv_def)
qed

lemma set_param_inv:
  assumes inv: "app_inv st"
  shows "app_inv (set_param f v now st)"
proof -
  have hi: "heap_inv st" using inv by (simp add: app_inv_def)
  then have vp: "valid_refs (heap st) (products st)" and vc: "valid_refs (heap st) (catalog st)"
    by (simp_all add: heap_inv_def)
  then have dp: "deref (heap st @ initialProducts now) (products st) = deref (heap st) (products st)"
    by (simp add: deref_append valid_refs_def)
  have "set (products st) \<inter> set [length (heap st) ..< length (heap st) + length (initialProducts now)] = {}"
    using vp fresh_disjoint[where as = "products st" and h = "heap st"] by (simp add: valid_refs_def)
  then have "heap_inv (set_param f v now st)"
    using hi dp valid_refs_append[OF vp] valid_refs_fresh[of "heap st" "initialProducts now"]
    by (simp add: set_param_def heap_inv_def deref_fresh)
  moreover have "data_inv (set_param f v now st)"
    using inv dp by (simp add: app_inv_def data_inv_def set_param_def split: option.splits)
  moreover have "timer_inv (set_param f v now st) = timer_inv st"
    by (simp add: set_param_def timer_inv_def split: option.split)
  moreover have "link_inv (set_param f v now st) = link_inv st"
    by (simp add: set_param_def link_inv_def)
  ultimately show ?thesis using inv by (simp add: app_inv_def)
qed

lemma event_status_connected:
  "client_event_status e = ''Connected'' \<Longrightarrow> e = EvConnect"
  by (cases e) auto

lemma broker_inv:
  assumes inv: "app_inv st" and i: "i < length (lib_clients (mqtt st))"
    and live: "\<not> ended (lib_clients (mqtt st) ! i)"
  shows "app_inv (broker_event i e st)"
proof -
  let ?t = "mqtt st"
  have li: "link_inv st" using inv by (simp add: app_inv_def)
  have "0 < live_clients ?t" by (rule live_pos[OF i live])
  then have run: "isRunning st" and l1: "live_clients ?t = 1" and tv: "transport_inv ?t"
    using li by (auto simp: link_inv_def split: if_splits)
  then obtain j where j: "client ?t = Some j" "j < length (lib_clients ?t)" "\<not> ended (lib_clients ?t ! j)"
    using li by (auto simp: link_inv_def transport_inv_def split: option.splits)
  have "i = j" by (rule live_unique[OF _ i j(2) live j(3)]) (simp add: l1)
  have eq: "broker_event i e st = st\<lparr>mqtt := fst (on_client_event i e ?t), mqttStatus := client_event_status e\<rparr>"
    by (simp add: broker_event_def on_client_event_def Let_def last_status_def)
  have "client_event_status e = ''Connected'' \<Longrightarrow> is_connected (fst (on_client_event i e ?t))"
    using event_status_connected[of e] event_connected[OF i, where e = e] event_fields(1) j(1) \<open>i = j\<close>
    by (auto simp: is_connected_def)
  then have "link_inv (broker_event i e st)"
    using li event_inv[OF tv i live] event_fields(1) event_fields(3)[OF i]
    by (simp add: eq link_inv_def)
  then show ?thesis
    using inv by (simp add: app_inv_def eq)
qed

lemma deref_all: "deref h [0 ..< length h] = h"
  by (rule nth_equalityI) (simp_all add: deref_def)

lemma init_inv: "app_inv (app_init s0 t0)"
  using initialProducts_wf[of t0] initialProducts_status[of t0] deref_all[of "initialProducts t0"]
  by (simp add: app_inv_def app_init_def timer_inv_def link_inv_def heap_inv_def data_inv_def
      transport0_def transport_inv_def live_clients_def valid_refs_def list_all_iff)

lemma app_reach_inv: "app_reach g s0 t0 st \<Longrightarrow> rng_ok g \<Longrightarrow> app_inv st"
proof (induction rule: app_reach.induct)
  case init
  show ?case by (rule init_inv)
next
  case (fire st i now)
  then show ?case
    by (simp add: app_inv_def run_tick_timer_inv run_tick_link_inv run_tick_data_inv run_tick_heap_inv)
qed (simp_all add: start_inv stop_inv set_param_inv broker_inv)

lemma start_link_view:
  "link_view (mqtt (start_simulation g now st)) = link_view (fst (fst (connect g (mqtt st, rng st))))"
  by (simp add: start_eq Let_def)

lemma demo_rng_ok: "rng_ok demo_rng"
  by (simp add: demo_rng_def)

lemma demo_started_reach: "app_reach demo_rng 7 0 demo_started"
  unfolding demo_started_def by (rule app_reach.start[OF app_reach.init]) (simp add: app_init_def)

lemma demo_started_running: "isRunning demo_started"
  by (simp add: demo_started_def start_eq Let_def)

lemma demo_stopped_reach: "app_reach demo_rng 7 0 (stop_simulation demo_started)"
  by (rule app_reach.stop[OF demo_started_reach demo_started_running])

lemma demo_started_link_view:
  "link_view (mqtt demo_started) = (Some 0, [(False, False)])"
  unfolding demo_started_def start_link_view
  by (simp add: connect_eq app_init_def transport0_def link_view_def)

lemma stop_not_running: "\<not> isRunning (stop_simulation st)"
  by (simp add: stop_simulation_def Let_def split: option.split)

lemma publish_each_sent:
  assumes "client t = Some i" "i < length (lib_clients t)"
  shows "publish_each ds t =
    (if connected (lib_clients t ! i)
     then t\<lparr>lib_clients := (lib_clients t)[i := (lib_clients t ! i)\<lparr>sent :=
             sent (lib_clients t ! i) @ map (\<lambda>d. (TOPIC MQTT_CONFIG, d)) ds\<rparr>]\<rparr>
     else t)"
  using assms
proof (induction ds arbitrary: t)
  case (Cons d ds)
  then show ?case
    by (simp add: publish_def Let_def js_or_string_def list_update_overwrite)
qed simp

lemma demo_started_data: "currentData demo_started = Some (the (currentData demo_started))"
  by (simp add: demo_started_def start_eq Let_def run_tick_parts(4)[OF refl refl refl])

section \<open>The catalog's stock margin\<close>

lemma initialProducts_margin: "list_all stock_margin (initialProducts now)"
  by (simp add: initialProducts_def stock_margin_def)

lemma stock_inv_fields [simp]:
  "stock_inv (st\<lparr>timerRef := a, timers := b, nextTimer := c\<rparr>) = stock_inv st"
  "stock_inv (st\<lparr>mqtt := m, mqttStatus := x\<rparr>) = stock_inv st"
  "stock_inv (stop_simulation st) = stock_inv st"
  "stock_inv (broker_event i e st) = stock_inv st"
  by (simp_all add: stock_inv_def stop_simulation_def broker_event_def Let_def split: option.split prod.split)

lemma run_tick_stock_inv:
  assumes "rng_ok g" "list_all stock_margin (deref (heap st) (products st))"
    and "list_all (\<lambda>e. stockout e = 0) (history st)"
  shows "stock_inv (run_tick g now st)"
  using run_tick_parts[OF refl refl refl, of g now st] tick_next_margin[OF assms(1,2)]
    tick_no_stockout[OF assms(1,2)] assms(3)
  by (simp add: stock_inv_def with_products_def)

lemma start_stock_inv:
  assumes g: "rng_ok g" and inv: "app_inv st"
  shows "stock_inv (start_simulation g now st)"
proof -
  define st1 where "st1 = st\<lparr>mqtt := fst (fst (connect g (mqtt st, rng st))), rng := snd (g (rng st)),
                  mqttStatus := ''Connecting...'', products := catalog st, history := [], isRunning := True\<rparr>"
  have "deref (heap st1) (products st1) = initialProducts (catalogTime st)"
    using inv by (simp add: st1_def app_inv_def heap_inv_def)
  then have "stock_inv (run_tick g now st1)"
    using initialProducts_margin by (intro run_tick_stock_inv[OF g]) (simp_all add: st1_def)
  then show ?thesis by (simp add: start_eq Let_def st1_def[symmetric])
qed

lemma set_param_stock_inv:
  assumes "app_inv st" "stock_inv st"
  shows "stock_inv (set_param f v now st)"
proof -
  have "valid_refs (heap st) (products st)" using assms(1) by (simp add: app_inv_def heap_inv_def)
  then have "deref (heap st @ initialProducts now) (products st) = deref (heap st) (products st)"
    by (simp add: deref_append valid_refs_def)
  with assms(2) show ?thesis by (simp add: set_param_def stock_inv_def)
qed

lemma app_reach_stock_inv: "app_reach g s0 t0 st \<Longrightarrow> rng_ok g \<Longrightarrow> stock_inv st"
proof (induction rule: app_reach.induct)
  case init
  show ?case
    using initialProducts_margin[of t0] deref_all[of "initialProducts t0"]
    by (simp add: stock_inv_def app_init_def)
next
  case (start st now)
  show ?case by (rule start_stock_inv[OF start.prems app_reach_inv[OF start.hyps(1) start.prems]])
next
  case (stop st)
  show ?case by (simp only: stock_inv_fields stop.IH[OF stop.prems])
next
  case (fire st i now)
  have "stock_inv st" by (rule fire.IH[OF fire.prems])
  then show ?case by (intro run_tick_stock_inv[OF fire.prems]) (simp_all add: stock_inv_def)
next
  case (param st f v now)
  show ?case
    by (rule set_param_stock_inv[OF app_reach_inv[OF param.hyps(1) param.prems] param.IH[OF param.prems]])
next
  case (broker st i e)
  show ?case by (simp only: stock_inv_fields broker.IH[OF broker.prems])
qed

lemma set_param_running [simp]: "isRunning (set_param f v now st) = isRunning st"
  by (simp add: set_param_def)

lemma start_data:
  "\<exists>addrs. currentData (start_simulation g now st)
       = Some (with_products (aggregate (tick g now (params st) (deref (heap st) (catalog st)) (snd (g (rng st))))) addrs)
     \<and> history (start_simulation g now st) = [the (currentData (start_simulation g now st))]"
  by (simp add: start_eq Let_def run_tick_parts(4,5)[OF refl refl refl] with_products_def)

section \<open>Properties of the application\<close>

text \<open>
  C17. Invariant of every reachable state of the application: at most one
  interval is armed and \<open>timerRef\<close> holds it exactly while running; the adapter
  references a client exactly while running and that client is the only live
  one; \<open>Connected\<close> is shown only over a connected client; the registry and the
  catalog are valid references, the catalog unchanged since its render, the
  registry's products well formed; \<open>currentData\<close> is the last history entry and
  agrees with the registry.
\<close>

theorem app_reachable_inv:
  assumes "rng_ok g" and "app_reach g s0 t0 st"
  shows "app_inv st"
  using app_reach_inv[OF assms(2,1)] .

theorem app_reachable_inv_witness:
  "rng_ok demo_rng \<and> app_reach demo_rng 7 0 demo_started \<and> app_inv demo_started"
  using app_reachable_inv[OF demo_rng_ok demo_started_reach] demo_rng_ok demo_started_reach by blast

text \<open>
  C18. A stopped application has no armed interval, so no tick can fire, and no
  live MQTT client; in particular this holds right after \<open>stopSimulation\<close>.
  Unmounting the application from any reachable state likewise leaves no armed
  interval and no live client.
\<close>

theorem stopped_no_tick:
  assumes "rng_ok g" and "app_reach g s0 t0 st"
  shows "(\<not> isRunning st \<longrightarrow>
            timers st = [] \<and> timerRef st = None \<and> client (mqtt st) = None \<and> live_clients (mqtt st) = 0)
         \<and> timers (unmount_cleanup st) = [] \<and> client (mqtt (unmount_cleanup st)) = None
         \<and> live_clients (mqtt (unmount_cleanup st)) = 0"
proof -
  have inv: "app_inv st" by (rule app_reach_inv[OF assms(2,1)])
  then have tv: "transport_inv (mqtt st)" by (simp add: app_inv_def link_inv_def)
  show ?thesis
  proof (cases "isRunning st")
    case True
    then obtain i j where ij: "timerRef st = Some i" "timers st = [i]" "0 < i" "client (mqtt st) = Some j"
      and lc: "live_clients (mqtt st) = 1"
      using inv by (auto simp: app_inv_def timer_inv_def link_inv_def split: option.splits)
    have u: "unmount_cleanup st = st\<lparr>timers := [], mqtt := disconnect (mqtt st)\<rparr>"
      using ij by (simp add: unmount_cleanup_def)
    show ?thesis
      using True disconnect_live[OF tv ij(4)] lc by (simp add: u disconnect_def ij)
  next
    case False
    then have "timers st = [] \<and> timerRef st = None \<and> client (mqtt st) = None \<and> live_clients (mqtt st) = 0"
      using inv by (auto simp: app_inv_def timer_inv_def link_inv_def split: option.splits)
    then show ?thesis by (simp add: unmount_cleanup_def disconnect_def)
  qed
qed

theorem stopped_no_tick_witness:
  "rng_ok demo_rng \<and> app_reach demo_rng 7 0 (stop_simulation demo_started)
   \<and> \<not> isRunning (stop_simulation demo_started)
   \<and> timers (stop_simulation demo_started) = [] \<and> timerRef (stop_simulation demo_started) = None
   \<and> client (mqtt (stop_simulation demo_started)) = None
   \<and> live_clients (mqtt (stop_simulation demo_started)) = 0
   \<and> timers (unmount_cleanup (stop_simulation demo_started)) = []
   \<and> client (mqtt (unmount_cleanup (stop_simulation demo_started))) = None
   \<and> live_clients (mqtt (unmount_cleanup (stop_simulation demo_started))) = 0"
  using stopped_no_tick[OF demo_rng_ok demo_stopped_reach] demo_rng_ok
    demo_stopped_reach stop_not_running by blast

text \<open>
  C19. Progress while running: the armed interval can always fire, and
  however often it fires the application stays reachable and running with the
  same single interval, each firing appending exactly one entry to the
  history. No reachable running state blocks the ticks.
\<close>

theorem running_keeps_ticking:
  assumes "rng_ok g" and "app_reach g s0 t0 st" and "isRunning st"
  shows "app_reach g s0 t0 (fire_ticks g nows st) \<and> isRunning (fire_ticks g nows st)
         \<and> timers (fire_ticks g nows st) = timers st
         \<and> length (history (fire_ticks g nows st)) = length (history st) + length nows"
  using assms(2,3)
proof (induction nows arbitrary: st)
  case Nil
  then show ?case by (simp add: fire_ticks_def)
next
  case (Cons now nows)
  obtain i where "timers st = [i]"
    using app_reach_inv[OF Cons.prems(1) assms(1)] Cons.prems(2)
    by (auto simp: app_inv_def timer_inv_def split: option.splits)
  then have "app_reach g s0 t0 (run_tick g now st)"
    by (intro app_reach.fire[OF Cons.prems(1), of i]) simp
  moreover have "isRunning (run_tick g now st)" using Cons.prems(2) by simp
  ultimately have "app_reach g s0 t0 (fire_ticks g nows (run_tick g now st))
      \<and> isRunning (fire_ticks g nows (run_tick g now st))
      \<and> timers (fire_ticks g nows (run_tick g now st)) = timers (run_tick g now st)
      \<and> length (history (fire_ticks g nows (run_tick g now st)))
          = length (history (run_tick g now st)) + length nows"
    by (rule Cons.IH)
  then show ?case
    by (simp add: fire_ticks_def run_tick_parts(5)[OF refl refl refl])
qed

theorem running_keeps_ticking_witness:
  "rng_ok demo_rng \<and> app_reach demo_rng 7 0 demo_started \<and> isRunning demo_started
   \<and> app_reach demo_rng 7 0 (fire_ticks demo_rng [2000, 3000, 4000] demo_started)
   \<and> isRunning (fire_ticks demo_rng [2000, 3000, 4000] demo_started)
   \<and> timers (fire_ticks demo_rng [2000, 3000, 4000] demo_started) = timers demo_started
   \<and> length (history (fire_ticks demo_rng [2000, 3000, 4000] demo_started))
       = length (history demo_started) + length [2000, 3000, 4000::ms]"
  using running_keeps_ticking[OF demo_rng_ok demo_started_reach demo_started_running, of "[2000, 3000, 4000]"]
    demo_rng_ok demo_started_reach demo_started_running by blast

text \<open>
  C20. Stop then Start resets: \<open>startSimulation\<close> from a stopped state clears
  the history, runs exactly one tick on the captured catalog, exactly as its
  render built it, and arms exactly one interval.
\<close>

theorem start_resets_registry:
  assumes "rng_ok g" and "app_reach g s0 t0 st" and "\<not> isRunning st"
  shows "let st' = start_simulation g now st
         in isRunning st' \<and> timers st' = [nextTimer st] \<and> history st' = [the (currentData st')]
            \<and> deref (heap st') (products st')
                = next_products (tick g now (params st) (initialProducts (catalogTime st)) (snd (g (rng st))))"
proof -
  have inv: "app_inv st" by (rule app_reach_inv[OF assms(2,1)])
  define st1 where "st1 = st\<lparr>mqtt := fst (fst (connect g (mqtt st, rng st))), rng := snd (g (rng st)),
                  mqttStatus := ''Connecting...'', products := catalog st, history := [], isRunning := True\<rparr>"
  have tm: "timers st = []"
    using inv assms(3) by (auto simp: app_inv_def timer_inv_def split: option.splits)
  have d: "deref (heap st1) (products st1) = initialProducts (catalogTime st)"
    using inv by (simp add: st1_def app_inv_def heap_inv_def)
  have f: "params st1 = params st" "rng st1 = snd (g (rng st))" "history st1 = []" "isRunning st1"
    by (simp_all add: st1_def)
  note parts = run_tick_parts[OF refl refl refl, of g now st1]
  show ?thesis
    unfolding start_eq Let_def st1_def[symmetric]
    using parts tm by (simp add: d f)
qed

theorem start_resets_registry_witness:
  "rng_ok demo_rng \<and> app_reach demo_rng 7 0 (stop_simulation demo_started)
   \<and> \<not> isRunning (stop_simulation demo_started)
   \<and> (let st' = start_simulation demo_rng 5000 (stop_simulation demo_started)
      in isRunning st' \<and> timers st' = [nextTimer (stop_simulation demo_started)]
         \<and> history st' = [the (currentData st')]
         \<and> deref (heap st') (products st')
             = next_products (tick demo_rng 5000 (params (stop_simulation demo_started))
                 (initialProducts (catalogTime (stop_simulation demo_started)))
                 (snd (demo_rng (rng (stop_simulation demo_started))))))"
  using start_resets_registry[OF demo_rng_ok demo_stopped_reach stop_not_running, of 5000]
    demo_rng_ok demo_stopped_reach stop_not_running by blast

text \<open>
  C21. Publication order of a tick: through a connected client the tick sends,
  on the default topic, one \<open>product_update\<close> event per product of the next
  registry, in registry order, then the aggregate; through a client not
  connected it sends nothing and leaves the adapter unchanged. A failed or
  skipped publish never blocks or alters the tick: the state a tick leaves,
  apart from the adapter, does not depend on the adapter's state.
\<close>

theorem tick_publishes_in_order:
  assumes "client (mqtt st) = Some i" and "i < length (lib_clients (mqtt st))"
  shows "(let out = tick g now (params st) (deref (heap st) (products st)) (rng st);
             c = lib_clients (mqtt st) ! i;
             msgs = map (\<lambda>d. (TOPIC MQTT_CONFIG, d))
                      (map (product_payload now) (next_products out) @ [agg_payload (aggregate out)])
         in mqtt (run_tick g now st)
              = (if connected c then (mqtt st)\<lparr>lib_clients := (lib_clients (mqtt st))[i := c\<lparr>sent := sent c @ msgs\<rparr>]\<rparr>
                 else mqtt st))
         \<and> run_tick g now (st\<lparr>mqtt := m\<rparr>) = (run_tick g now st)\<lparr>mqtt := mqtt (run_tick g now (st\<lparr>mqtt := m\<rparr>))\<rparr>"
proof
  show "let out = tick g now (params st) (deref (heap st) (products st)) (rng st);
             c = lib_clients (mqtt st) ! i;
             msgs = map (\<lambda>d. (TOPIC MQTT_CONFIG, d))
                      (map (product_payload now) (next_products out) @ [agg_payload (aggregate out)])
         in mqtt (run_tick g now st)
              = (if connected c then (mqtt st)\<lparr>lib_clients := (lib_clients (mqtt st))[i := c\<lparr>sent := sent c @ msgs\<rparr>]\<rparr>
                 else mqtt st)"
    using publish_each_sent[OF assms] assms
    by (simp add: run_tick_def Let_def publish_def js_or_string_def list_update_overwrite)
  show "run_tick g now (st\<lparr>mqtt := m\<rparr>) = (run_tick g now st)\<lparr>mqtt := mqtt (run_tick g now (st\<lparr>mqtt := m\<rparr>))\<rparr>"
    by (simp add: run_tick_def Let_def)
qed

theorem tick_publishes_in_order_witness:
  "client (mqtt demo_started) = Some 0 \<and> 0 < length (lib_clients (mqtt demo_started))
   \<and> (let out = tick demo_rng 2000 (params demo_started) (deref (heap demo_started) (products demo_started))
                 (rng demo_started);
          c = lib_clients (mqtt demo_started) ! 0;
          msgs = map (\<lambda>d. (TOPIC MQTT_CONFIG, d))
                   (map (product_payload 2000) (next_products out) @ [agg_payload (aggregate out)])
      in mqtt (run_tick demo_rng 2000 demo_started)
           = (if connected c then (mqtt demo_started)\<lparr>lib_clients := (lib_clients (mqtt demo_started))[0 := c\<lparr>sent := sent c @ msgs\<rparr>]\<rparr>
              else mqtt demo_started))
   \<and> run_tick demo_rng 2000 (demo_started\<lparr>mqtt := transport0\<rparr>)
          = (run_tick demo_rng 2000 demo_started)\<lparr>mqtt := mqtt (run_tick demo_rng 2000 (demo_started\<lparr>mqtt := transport0\<rparr>))\<rparr>"
proof -
  have h: "client (mqtt demo_started) = Some 0" "0 < length (lib_clients (mqtt demo_started))"
    using demo_started_link_view by (auto simp: link_view_def map_eq_Cons_conv)
  show ?thesis using tick_publishes_in_order[OF h, of demo_rng 2000 transport0] h by blast
qed

text \<open>
  C22. History entries alias the registry: after a tick, the snapshot held by
  the entry that was current before it reads each of its products with the
  \<open>lastRestock\<close> of that product's successor, so a chart or log reading the
  old entry sees the later restock time.
\<close>

theorem history_snapshot_rewritten:
  assumes "rng_ok g" and "app_reach g s0 t0 st" and "currentData st = Some agg"
  shows "deref (heap (run_tick g now st)) (the (simulation_result.products agg))
           = map2 (\<lambda>p q. p\<lparr>lastRestock := lastRestock q\<rparr>) (deref (heap st) (products st))
               (deref (heap (run_tick g now st)) (products (run_tick g now st)))"
proof -
  have inv: "app_inv st" by (rule app_reach_inv[OF assms(2,1)])
  then have pa: "simulation_result.products agg = Some (products st)"
    and vp: "valid_refs (heap st) (products st)"
    using assms(3) by (simp_all add: app_inv_def data_inv_def heap_inv_def)
  define out where "out = tick g now (params st) (deref (heap st) (products st)) (rng st)"
  define h1 where "h1 = write_back (products st) (prev_after out) (heap st)"
  define addrs where "addrs = [length h1 ..< length h1 + length (next_products out)]"
  note parts = run_tick_parts[OF out_def h1_def addrs_def]
  have lp: "length (prev_after out) = length (products st)"
    by (simp add: out_def tick_lengths deref_def)
  have "deref (heap (run_tick g now st)) (products st) = deref h1 (products st)"
    using vp by (simp add: parts(1) deref_append valid_refs_def h1_def)
  also have "\<dots> = prev_after out" by (simp add: h1_def deref_write_back[OF vp lp])
  also have "\<dots> = map2 (\<lambda>p q. p\<lparr>lastRestock := lastRestock q\<rparr>) (deref (heap st) (products st)) (next_products out)"
    by (simp add: out_def tick_prev_after_succ)
  finally show ?thesis by (simp add: pa parts(2,3))
qed

theorem history_snapshot_rewritten_witness:
  "rng_ok demo_rng \<and> app_reach demo_rng 7 0 demo_started
   \<and> currentData demo_started = Some (the (currentData demo_started))
   \<and> deref (heap (run_tick demo_rng 2000 demo_started)) (the (simulation_result.products (the (currentData demo_started))))
       = map2 (\<lambda>p q. p\<lparr>lastRestock := lastRestock q\<rparr>) (deref (heap demo_started) (products demo_started))
           (deref (heap (run_tick demo_rng 2000 demo_started)) (products (run_tick demo_rng 2000 demo_started)))"
  using history_snapshot_rewritten[OF demo_rng_ok demo_started_reach demo_started_data, of 2000]
    demo_rng_ok demo_started_reach demo_started_data by blast

text \<open>
  C23. \<open>startSimulation\<close> has no guard of its own: invoked while running (the
  form hides Start then, nothing else prevents it), it arms a second interval
  and opens a second client, and a following \<open>stopSimulation\<close> leaves an armed
  interval no ref holds and a live client no adapter references, so ticks
  continue after Stop.
\<close>

theorem restart_leaks_interval:
  assumes "rng_ok g" and "app_reach g s0 t0 st" and "isRunning st"
  shows "let st' = stop_simulation (start_simulation g now st)
         in \<not> isRunning st' \<and> timerRef st' = None \<and> timers st' \<noteq> []
            \<and> client (mqtt st') = None \<and> live_clients (mqtt st') = 1"
proof -
  have inv: "app_inv st" by (rule app_reach_inv[OF assms(2,1)])
  obtain i where ti: "timers st = [i]" "i < nextTimer st" "0 < i" and tv: "transport_inv (mqtt st)"
    and lc: "live_clients (mqtt st) = 1"
    using inv assms(3) by (auto simp: app_inv_def timer_inv_def link_inv_def split: option.splits)
  let ?ss = "start_simulation g now st"
  let ?tc = "fst (fst (connect g (mqtt st, rng st)))"
  have v: "link_view (mqtt ?ss) = link_view ?tc" by (rule start_link_view)
  have tc: "transport_inv ?tc" "live_clients ?tc = 2" "client ?tc = Some (length (lib_clients (mqtt st)))"
    using connect_inv[OF tv] connect_live[of g "mqtt st" "rng st"] lc by (simp_all add: connect_eq)
  then have ss: "transport_inv (mqtt ?ss)" "live_clients (mqtt ?ss) = 2"
    "client (mqtt ?ss) = Some (length (lib_clients (mqtt st)))"
    using transport_inv_view[OF v] live_clients_view[OF v] link_view_nth(1)[OF v] by simp_all
  have tm: "timerRef ?ss = Some (nextTimer st)" "timers ?ss = [i, nextTimer st]"
    using ti by (simp_all add: start_eq Let_def)
  have "stop_simulation ?ss = ?ss\<lparr>timers := [i], timerRef := None, mqtt := disconnect (mqtt ?ss),
      mqttStatus := ''Disconnected'', isRunning := False\<rparr>"
    using tm ti by (simp add: stop_simulation_def)
  moreover have "client (disconnect (mqtt ?ss)) = None" by (simp add: disconnect_def ss(3))
  ultimately show ?thesis
    using disconnect_live[OF ss(1,3)] ss(2) by simp
qed

theorem restart_leaks_interval_witness:
  "rng_ok demo_rng \<and> app_reach demo_rng 7 0 demo_started \<and> isRunning demo_started
   \<and> (let st' = stop_simulation (start_simulation demo_rng 2000 demo_started)
      in \<not> isRunning st' \<and> timerRef st' = None \<and> timers st' \<noteq> []
         \<and> client (mqtt st') = None \<and> live_clients (mqtt st') = 1)"
  using restart_leaks_interval[OF demo_rng_ok demo_started_reach demo_started_running, of 2000]
    demo_rng_ok demo_started_reach demo_started_running by blast

text \<open>
  C11. The lead-time parameters are not validated: from any stopped state the
  form's inputs can set \<open>leadTimeMin\<close> above \<open>leadTimeMax\<close> (by at least
  one), Start is then accepted, and the run's first aggregate, the current
  data and its history entry, reports a lead time above \<open>leadTimeMax\<close>,
  whatever the draw.
\<close>

theorem lead_time_unvalidated:
  assumes "rng_ok g" and "app_reach g s0 t0 st" and "\<not> isRunning st" and "b + 1 \<le> a"
  shows "let st' = start_simulation g now (set_param LeadTimeMax b t2 (set_param LeadTimeMin a t1 st))
         in app_reach g s0 t0 st' \<and> isRunning st' \<and> leadTimeMin (params st') = a \<and> leadTimeMax (params st') = b
            \<and> (\<exists>d. currentData st' = Some d \<and> d \<in> set (history st') \<and> b < lead_time_days d)"
proof -
  let ?sp = "set_param LeadTimeMax b t2 (set_param LeadTimeMin a t1 st)"
  let ?st = "start_simulation g now ?sp"
  have r: "app_reach g s0 t0 ?st"
    using assms(3) by (intro app_reach.start app_reach.param assms(2)) simp_all
  have p: "leadTimeMin (params ?sp) = a" "leadTimeMax (params ?sp) = b"
    by (simp_all add: set_param_def)
  obtain addrs where cd: "currentData ?st = Some (with_products (aggregate (tick g now (params ?sp)
      (deref (heap ?sp) (catalog ?sp)) (snd (g (rng ?sp))))) addrs)" and h: "history ?st = [the (currentData ?st)]"
    using start_data by blast
  obtain r where "0 \<le> r" "r < 1" and lt: "lead_time_days (aggregate (tick g now (params ?sp)
      (deref (heap ?sp) (catalog ?sp)) (snd (g (rng ?sp))))) = lead_time (params ?sp) r"
    using tick_lead_time_draw[OF assms(1)] by blast
  then have "b < lead_time_days (the (currentData ?st))"
    using lead_time_inverted[of r "params ?sp"] assms(4) p by (simp add: cd with_products_def)
  then show ?thesis
    using r p cd h by (simp add: start_eq Let_def)
qed

theorem lead_time_unvalidated_witness:
  "rng_ok demo_rng \<and> app_reach demo_rng 7 0 (app_init 7 0) \<and> \<not> isRunning (app_init (7::nat) 0) \<and> (3::real) + 1 \<le> 5
   \<and> (let st' = start_simulation demo_rng 1000 (set_param LeadTimeMax 3 0 (set_param LeadTimeMin 5 0 (app_init 7 0)))
      in app_reach demo_rng 7 0 st' \<and> isRunning st' \<and> leadTimeMin (params st') = 5 \<and> leadTimeMax (params st') = 3
         \<and> (\<exists>d. currentData st' = Some d \<and> d \<in> set (history st') \<and> 3 < lead_time_days d))"
proof -
  have h: "app_reach demo_rng 7 0 (app_init 7 0)" "\<not> isRunning (app_init (7::nat) 0)" "(3::real) + 1 \<le> 5"
    by (rule app_reach.init) (simp_all add: app_init_def)
  note l = lead_time_unvalidated[OF demo_rng_ok h, of 1000 0 0]
  show ?thesis by (rule conjI[OF demo_rng_ok conjI[OF h(1) conjI[OF h(2) conjI[OF h(3) l]]]])
qed

end
