(* ===== verification/Number_Text.thy ===== *)
theory Number_Text
  imports Transport
begin

text \<open>
  Numbers as text, both ways. Reading: how an \<open><input type="number">\<close>
  of \<^verbatim>\<open>src/components/SimulationControls.tsx\<close> yields its value and
  \<open>Number\<close> reads it. Printing: \<open>x.toFixed(d)\<close>, which the product cards
  of \<^verbatim>\<open>src/App.tsx\<close> use for prices, and \<open>String(x)\<close>, which React
  applies to a number it renders and \<open>JSON.stringify\<close> to a number it
  serialises. Each printer reads back through the number input.
\<close>

section \<open>Reading numbers\<close>

text \<open>
  An \<open><input type="number">\<close> yields as its \<open>value\<close> the text typed when it
  is a valid floating-point number of HTML (an optional \<open>-\<close>, digits with an
  optional fraction or a fraction alone, an optional exponent), and the empty
  string otherwise; \<open>Number\<close> reads the former as its number and the empty
  string as \<open>0\<close>.
\<close>

definition is_digit :: "char \<Rightarrow> bool" where
  "is_digit c \<longleftrightarrow> c \<in> set ''0123456789''"

definition digit_run :: "string \<Rightarrow> bool" where
  "digit_run ds \<longleftrightarrow> ds \<noteq> [] \<and> list_all is_digit ds"

definition digits_value :: "string \<Rightarrow> nat" where
  "digits_value ds = foldl (\<lambda>acc c. 10 * acc + (of_char c - 48)) 0 ds"

definition parse_exponent :: "string \<Rightarrow> int option" where
  "parse_exponent s =
    (case s of
       [] \<Rightarrow> None
     | c # ds \<Rightarrow>
         if c = CHR ''-'' then (if digit_run ds then Some (- int (digits_value ds)) else None)
         else if c = CHR ''+'' then (if digit_run ds then Some (int (digits_value ds)) else None)
         else if digit_run s then Some (int (digits_value s)) else None)"

definition scale10 :: "real \<Rightarrow> int \<Rightarrow> real" where
  "scale10 m e = (if 0 \<le> e then m * 10 ^ nat e else m / 10 ^ nat (- e))"

definition parse_unsigned :: "string \<Rightarrow> real option" where
  "parse_unsigned s =
    (let ip = takeWhile is_digit s;
         r1 = dropWhile is_digit s;
         (dot, fp, r2) = (case r1 of
                            c # t \<Rightarrow> if c = CHR ''.'' then (True, takeWhile is_digit t, dropWhile is_digit t)
                                     else (False, [], r1)
                          | [] \<Rightarrow> (False, [], []));
         m = of_nat (digits_value ip) + of_nat (digits_value fp) / 10 ^ length fp;
         e = (case r2 of
                [] \<Rightarrow> Some 0
              | c # t \<Rightarrow> if c = CHR ''e'' \<or> c = CHR ''E'' then parse_exponent t else None)
     in if (if dot then fp \<noteq> [] else ip \<noteq> []) then map_option (scale10 m) e else None)"

definition html_float :: "string \<Rightarrow> real option" where
  "html_float s =
    (case s of
       [] \<Rightarrow> None
     | c # t \<Rightarrow> if c = CHR ''-'' then map_option uminus (parse_unsigned t) else parse_unsigned s)"

definition input_value :: "string \<Rightarrow> string" where
  "input_value raw = (if html_float raw = None then [] else raw)"

definition js_Number_input :: "string \<Rightarrow> real" where
  "js_Number_input v = (case html_float v of None \<Rightarrow> 0 | Some x \<Rightarrow> x)"

section \<open>Printing numbers\<close>

text \<open>
  \<open>fixed_string d x\<close> is \<open>x.toFixed(d)\<close> for \<open>d > 0\<close>: the sign of
  \<open>x\<close>, then \<open>|x|\<close> rounded half up to \<open>d\<close> decimals with exactly \<open>d\<close>
  of them.
\<close>

definition zero_pad :: "nat \<Rightarrow> string \<Rightarrow> string" where
  "zero_pad d s = replicate (d - length s) (CHR ''0'') @ s"

definition fixed_string :: "nat \<Rightarrow> real \<Rightarrow> string" where
  "fixed_string d x =
    (let k = nat \<lfloor>\<bar>x\<bar> * 10 ^ d + 1 / 2\<rfloor>
     in (if x < 0 then ''-'' else []) @ decimal (k div 10 ^ d) @ CHR ''.'' # zero_pad d (decimal (k mod 10 ^ d)))"

text \<open>
  \<open>js_number_string x\<close> is \<open>Number::toString\<close> of ECMAScript, which
  \<open>String(x)\<close>, template literals, React's text nodes and
  \<open>JSON.stringify\<close> use. The engine writes \<open>x \<noteq> 0\<close> as \<open>s \<cdot> 10^(n - k)\<close>
  with the \<open>k\<close> digits of \<open>s\<close> as few as possible, then prints the digits
  as an integer (\<open>k \<le> n \<le> 21\<close>), with a point inside (\<open>0 < n \<le> 21\<close>),
  after \<open>0.\<close> and zeros (\<open>-6 < n \<le> 0\<close>), or in exponent form. On an exact
  real, the shortest digits are those of its finite decimal expansion:
  \<open>dec_places\<close> finds the fewest decimal places, \<open>strip_zeros\<close> the
  trailing zeros of an integer. Every finite double is a multiple of
  \<open>2^-1074\<close> and so has at most 1074 decimal places, the fuel
  \<open>DEC_FUEL\<close> of the search; on a real with no such expansion the
  digits are cut at that place.
\<close>

fun dec_places :: "nat \<Rightarrow> nat \<Rightarrow> real \<Rightarrow> nat option" where
  "dec_places f d x =
     (if x * 10 ^ d = of_int \<lfloor>x * 10 ^ d\<rfloor> then Some d
      else if f = 0 then None else dec_places (f - 1) (Suc d) x)"

fun strip_zeros :: "nat \<Rightarrow> nat \<times> nat" where
  "strip_zeros m =
     (if m \<noteq> 0 \<and> m mod 10 = 0 then (let (s, z) = strip_zeros (m div 10) in (s, Suc z)) else (m, 0))"

definition sci_string :: "string \<Rightarrow> int \<Rightarrow> string" where
  "sci_string ds e =
    (let k = int (length ds); n = k + e
     in if k \<le> n \<and> n \<le> 21 then ds @ replicate (nat (n - k)) (CHR ''0'')
        else if 0 < n \<and> n \<le> 21 then take (nat n) ds @ CHR ''.'' # drop (nat n) ds
        else if - 6 < n \<and> n \<le> 0 then ''0.'' @ replicate (nat (- n)) (CHR ''0'') @ ds
        else (case ds of c # t \<Rightarrow> if t = [] then [c] else c # CHR ''.'' # t | [] \<Rightarrow> [])
             @ CHR ''e'' # (if 0 \<le> n - 1 then CHR ''+'' else CHR ''-'') # decimal (nat \<bar>n - 1\<bar>))"

definition DEC_FUEL :: nat where
  "DEC_FUEL = 1074"

definition js_number_string :: "real \<Rightarrow> string" where
  "js_number_string x =
    (if x = 0 then ''0''
     else (if x < 0 then ''-'' else [])
          @ (let d = (case dec_places DEC_FUEL 0 \<bar>x\<bar> of None \<Rightarrow> DEC_FUEL | Some d \<Rightarrow> d);
                 (s, z) = strip_zeros (nat \<lfloor>\<bar>x\<bar> * 10 ^ d\<rfloor>)
             in sci_string (decimal s) (int z - int d)))"

text \<open>
  The reals \<open>String\<close> prints exactly: those with a finite decimal expansion
  within the fuel, which include every finite double.
\<close>

definition dec_exact :: "real \<Rightarrow> bool" where
  "dec_exact x \<longleftrightarrow> dec_places DEC_FUEL 0 \<bar>x\<bar> \<noteq> None"

text \<open>
  The shape of a printed number: an integer part without leading zeros, an
  optional fraction, an optional signed exponent.
\<close>

definition num_shape :: "string \<Rightarrow> string \<Rightarrow> string \<Rightarrow> bool" where
  "num_shape ip fp ex \<longleftrightarrow> (ip = ''0'' \<or> (digit_run ip \<and> hd ip \<noteq> CHR ''0''))
     \<and> (fp = [] \<or> (\<exists>f. fp = CHR ''.'' # f \<and> digit_run f))
     \<and> (ex = [] \<or> (\<exists>sg d. ex = CHR ''e'' # sg # d \<and> (sg = CHR ''+'' \<or> sg = CHR ''-'') \<and> digit_run d))"

section \<open>Lemmas\<close>

lemma digits_value_Nil: "digits_value [] = 0"
  by (simp add: digits_value_def)

lemma digit_char_digit:
  assumes "d < 10"
  shows "is_digit (digit_char d) \<and> of_char (digit_char d) - 48 = d"
proof -
  have "d \<in> {0, 1, 2, 3, 4, 5, 6, 7, 8, 9}" using assms by auto
  then show ?thesis by (auto simp: digit_char_def is_digit_def)
qed

lemma decimal_digits: "digit_run (decimal n) \<and> digits_value (decimal n) = n"
proof (induction n rule: decimal.induct)
  case (1 n)
  show ?case
  proof (cases "n < 10")
    case True
    then show ?thesis
      using digit_char_digit[of n] by (simp add: decimal.simps digit_run_def digits_value_def)
  next
    case False
    then have ih: "digit_run (decimal (n div 10))" "digits_value (decimal (n div 10)) = n div 10"
      using 1 by simp_all
    have "n mod 10 < 10" by simp
    note d = digit_char_digit[OF this]
    show ?thesis
      using False ih d by (simp add: decimal.simps[of n] digit_run_def digits_value_def)
  qed
qed

lemma parse_unsigned_decimal: "parse_unsigned (decimal n) = Some (of_nat n)"
proof -
  have r: "digit_run (decimal n)" and v: "digits_value (decimal n) = n"
    using decimal_digits[of n] by simp_all
  then have tw: "takeWhile is_digit (decimal n) = decimal n" "dropWhile is_digit (decimal n) = []"
    by (simp_all add: digit_run_def list_all_iff)
  show ?thesis
    using r by (simp add: parse_unsigned_def tw v digit_run_def scale10_def digits_value_Nil)
qed

lemma html_float_decimal: "html_float (decimal n) = Some (of_nat n)"
proof -
  have r: "digit_run (decimal n)" using decimal_digits[of n] by simp
  obtain c t where ct: "decimal n = c # t" using r by (cases "decimal n") (auto simp: digit_run_def)
  then have "c \<noteq> CHR ''-''" using r by (auto simp: digit_run_def is_digit_def)
  then show ?thesis using parse_unsigned_decimal[of n] ct by (simp add: html_float_def)
qed

lemma html_float_int_string: "html_float (int_string i) = Some (of_int i)"
proof (cases "i < 0")
  case True
  then show ?thesis by (simp add: int_string_def html_float_def parse_unsigned_decimal)
next
  case False
  then show ?thesis by (simp add: int_string_def html_float_decimal)
qed

lemma digits_value_zeros: "digits_value (replicate n (CHR ''0'') @ s) = digits_value s"
  by (induction n) (simp_all add: digits_value_def)

lemma length_decimal: "n < 10 ^ d \<Longrightarrow> 0 < d \<Longrightarrow> length (decimal n) \<le> d"
proof (induction n arbitrary: d rule: decimal.induct)
  case (1 n)
  show ?case
  proof (cases "n < 10")
    case True
    then show ?thesis using "1.prems" by (simp add: decimal.simps)
  next
    case False
    then have "n div 10 < 10 ^ (d - 1)" "0 < d - 1"
      using "1.prems" by (auto simp: div_less_iff_less_mult power_eq_if split: if_splits)
    then have "length (decimal (n div 10)) \<le> d - 1" using "1.IH" False by simp
    then show ?thesis using False "1.prems" by (simp add: decimal.simps[of n])
  qed
qed

lemma zero_pad_props:
  assumes "digit_run s"
  shows "list_all is_digit (zero_pad d s) \<and> digits_value (zero_pad d s) = digits_value s
         \<and> length (zero_pad d s) = max d (length s)"
  using assms by (auto simp: zero_pad_def digit_run_def digits_value_zeros list_all_iff max_def is_digit_def)

lemma parse_unsigned_fixed:
  assumes "b < 10 ^ d" "0 < d"
  shows "parse_unsigned (decimal a @ CHR ''.'' # zero_pad d (decimal b)) = Some (of_nat a + of_nat b / 10 ^ d)"
proof -
  have ra: "digit_run (decimal a)" and va: "digits_value (decimal a) = a"
    using decimal_digits[of a] by simp_all
  have rb: "digit_run (decimal b)" and vb: "digits_value (decimal b) = b"
    using decimal_digits[of b] by simp_all
  have zp: "list_all is_digit (zero_pad d (decimal b))" "digits_value (zero_pad d (decimal b)) = b"
    "length (zero_pad d (decimal b)) = d"
    using zero_pad_props[OF rb, of d] vb length_decimal[OF assms] by simp_all
  have dot: "\<not> is_digit (CHR ''.'')" by (simp add: is_digit_def)
  have tw: "takeWhile is_digit (decimal a @ CHR ''.'' # zero_pad d (decimal b)) = decimal a"
    "dropWhile is_digit (decimal a @ CHR ''.'' # zero_pad d (decimal b)) = CHR ''.'' # zero_pad d (decimal b)"
    using ra dot by (simp_all add: digit_run_def list_all_iff takeWhile_append2 dropWhile_append2)
  have tw2: "takeWhile is_digit (zero_pad d (decimal b)) = zero_pad d (decimal b)"
    "dropWhile is_digit (zero_pad d (decimal b)) = []"
    using zp(1) by (simp_all add: list_all_iff)
  have ne: "zero_pad d (decimal b) \<noteq> []" using zp(3) assms(2) by auto
  show ?thesis
    using ra ne by (simp add: parse_unsigned_def tw tw2 va zp scale10_def digit_run_def)
qed

lemma html_float_fixed:
  assumes "0 < d"
  shows "html_float (fixed_string d x) = Some (to_fixed d x)"
proof -
  define k where "k = \<lfloor>\<bar>x\<bar> * 10 ^ d + 1 / 2\<rfloor>"
  have k0: "0 \<le> k" unfolding k_def by (simp add: add_nonneg_pos)
  have q: "(0::nat) < 10 ^ d" by simp
  have val: "of_nat (nat k div 10 ^ d) + of_nat (nat k mod 10 ^ d) / 10 ^ d = (of_int k / 10 ^ d :: real)"
  proof -
    have "nat k = 10 ^ d * (nat k div 10 ^ d) + nat k mod 10 ^ d" by simp
    then have "(of_nat (nat k) :: real) = of_nat (10 ^ d * (nat k div 10 ^ d) + nat k mod 10 ^ d)"
      by (rule arg_cong)
    then have "(of_nat (nat k) :: real) = 10 ^ d * of_nat (nat k div 10 ^ d) + of_nat (nat k mod 10 ^ d)"
      by (simp only: of_nat_add of_nat_mult of_nat_power of_nat_numeral)
    then show ?thesis using k0 by (simp add: field_simps)
  qed
  have p: "parse_unsigned (decimal (nat k div 10 ^ d) @ CHR ''.'' # zero_pad d (decimal (nat k mod 10 ^ d)))
             = Some (of_int k / 10 ^ d)"
    using parse_unsigned_fixed[OF _ assms, of "nat k mod 10 ^ d" "nat k div 10 ^ d"] val by simp
  obtain c t where ct: "decimal (nat k div 10 ^ d) = c # t" and "is_digit c"
    using decimal_digits[of "nat k div 10 ^ d"] by (cases "decimal (nat k div 10 ^ d)") (auto simp: digit_run_def)
  then have c: "c \<noteq> CHR ''-''" by (auto simp: is_digit_def)
  have fs: "fixed_string d x = (if x < 0 then ''-'' else []) @ decimal (nat k div 10 ^ d)
              @ CHR ''.'' # zero_pad d (decimal (nat k mod 10 ^ d))"
    by (simp only: fixed_string_def Let_def k_def)
  have tf: "to_fixed d x = sgn x * of_int k / 10 ^ d" by (simp only: to_fixed_def k_def)
  show ?thesis
  proof (cases "x < 0")
    case True
    then show ?thesis using p by (simp add: fs tf html_float_def)
  next
    case False
    have "sgn x * of_int k = (of_int k :: real)"
      using False by (cases "x = 0") (simp_all add: k_def)
    then have "to_fixed d x = of_int k / 10 ^ d" by (simp add: tf)
    then show ?thesis using False p ct c by (simp add: fs html_float_def)
  qed
qed

lemma digits_value_acc:
  "foldl (\<lambda>acc c. 10 * acc + (of_char c - 48)) (a::nat) ys
     = a * 10 ^ length ys + foldl (\<lambda>acc c. 10 * acc + (of_char c - 48)) (0::nat) ys"
proof (induction ys arbitrary: a)
  case (Cons y ys)
  let ?f = "\<lambda>(acc::nat) c. 10 * acc + (of_char c - 48)"
  have "foldl ?f a (y # ys) = (10 * a + (of_char y - 48)) * 10 ^ length ys + foldl ?f 0 ys"
    using Cons.IH[of "10 * a + (of_char y - 48)"] by simp
  also have "\<dots> = a * 10 ^ length (y # ys) + ((of_char y - 48) * 10 ^ length ys + foldl ?f 0 ys)"
    by (simp add: algebra_simps)
  also have "(of_char y - 48) * 10 ^ length ys + foldl ?f 0 ys = foldl ?f 0 (y # ys)"
    using Cons.IH[of "of_char y - 48"] by simp
  finally show ?case .
qed simp

lemma digits_value_append:
  "digits_value (xs @ ys) = digits_value xs * 10 ^ length ys + digits_value ys"
  unfolding digits_value_def foldl_append by (rule digits_value_acc)

lemma scale10_powi: "scale10 m e = m * 10 powi e"
  by (simp add: scale10_def power_int_def power_one_over)

lemma parse_exponent_sign:
  "parse_exponent (CHR ''+'' # decimal a) = Some (int a)"
  "parse_exponent (CHR ''-'' # decimal a) = Some (- int a)"
  using decimal_digits[of a] by (simp_all add: parse_exponent_def)

lemma exp_tail:
  assumes "r = [] \<or> hd r = CHR ''e''"
  shows "takeWhile is_digit r = [] \<and> dropWhile is_digit r = r"
  using assms by (cases r) (auto simp: is_digit_def)

lemma parse_unsigned_point:
  assumes "digit_run ip" "digit_run fp" "r = [] \<or> hd r = CHR ''e''"
  shows "parse_unsigned (ip @ CHR ''.'' # fp @ r)
           = map_option (scale10 (of_nat (digits_value ip) + of_nat (digits_value fp) / 10 ^ length fp))
               (case r of [] \<Rightarrow> Some 0 | c # t \<Rightarrow> parse_exponent t)"
proof -
  have nd: "\<not> is_digit (CHR ''.'')" "\<not> is_digit (CHR ''e'')" by (simp_all add: is_digit_def)
  have tw: "takeWhile is_digit (ip @ CHR ''.'' # fp @ r) = ip"
    "dropWhile is_digit (ip @ CHR ''.'' # fp @ r) = CHR ''.'' # fp @ r"
    using assms(1) nd by (simp_all add: digit_run_def list_all_iff takeWhile_append2 dropWhile_append2)
  have tw2: "takeWhile is_digit (fp @ r) = fp" "dropWhile is_digit (fp @ r) = r"
    using assms(2) exp_tail[OF assms(3)] by (simp_all add: digit_run_def list_all_iff)
  show ?thesis using assms(2,3) by (auto simp: parse_unsigned_def tw tw2 digit_run_def split: list.split)
qed

lemma parse_unsigned_int:
  assumes "digit_run ip" "r = [] \<or> hd r = CHR ''e''"
  shows "parse_unsigned (ip @ r)
           = map_option (scale10 (of_nat (digits_value ip))) (case r of [] \<Rightarrow> Some 0 | c # t \<Rightarrow> parse_exponent t)"
proof -
  have nd: "\<not> is_digit (CHR ''e'')" by (simp add: is_digit_def)
  have tw: "takeWhile is_digit (ip @ r) = ip" "dropWhile is_digit (ip @ r) = r"
    using assms(1) exp_tail[OF assms(2)] by (simp_all add: digit_run_def list_all_iff)
  show ?thesis using assms by (auto simp: parse_unsigned_def tw digit_run_def digits_value_Nil split: list.split)
qed

lemma digit_run_append: "digit_run xs \<Longrightarrow> list_all is_digit ys \<Longrightarrow> digit_run (xs @ ys)"
  by (simp add: digit_run_def)

lemma zeros_digits: "list_all is_digit (replicate m (CHR ''0'')) \<and> digits_value (replicate m (CHR ''0'')) = 0"
  using digits_value_zeros[of m "[]"] by (simp add: digits_value_Nil is_digit_def list_all_iff)

lemma sci_string_reads:
  assumes ds: "digit_run ds"
  shows "parse_unsigned (sci_string ds e) = Some (of_nat (digits_value ds) * 10 powi e)"
proof -
  define k where "k = int (length ds)"
  define n where "n = k + e"
  have k1: "1 \<le> k" using ds by (simp add: k_def digit_run_def Suc_le_eq)
  have ss: "sci_string ds e =
    (if k \<le> n \<and> n \<le> 21 then ds @ replicate (nat (n - k)) (CHR ''0'')
     else if 0 < n \<and> n \<le> 21 then take (nat n) ds @ CHR ''.'' # drop (nat n) ds
     else if - 6 < n \<and> n \<le> 0 then ''0.'' @ replicate (nat (- n)) (CHR ''0'') @ ds
     else (case ds of c # t \<Rightarrow> if t = [] then [c] else c # CHR ''.'' # t | [] \<Rightarrow> [])
          @ CHR ''e'' # (if 0 \<le> n - 1 then CHR ''+'' else CHR ''-'') # decimal (nat \<bar>n - 1\<bar>))"
    by (simp add: sci_string_def Let_def k_def n_def)
  have ten: "(10::real) \<noteq> 0" by simp
  consider (A) "k \<le> n \<and> n \<le> 21" | (B) "\<not> (k \<le> n \<and> n \<le> 21)" "0 < n \<and> n \<le> 21"
    | (C) "\<not> (k \<le> n \<and> n \<le> 21)" "\<not> (0 < n \<and> n \<le> 21)" "- 6 < n \<and> n \<le> 0"
    | (D) "\<not> (k \<le> n \<and> n \<le> 21)" "\<not> (0 < n \<and> n \<le> 21)" "\<not> (- 6 < n \<and> n \<le> 0)"
    by blast
  then show ?thesis
  proof cases
    case A
    then have e: "e = int (nat e)" by (simp add: n_def)
    have "parse_unsigned (ds @ replicate (nat e) (CHR ''0''))
            = Some (of_nat (digits_value ds * 10 ^ nat e))"
      using parse_unsigned_int[of "ds @ replicate (nat e) (CHR ''0'')" "[]"] ds zeros_digits[of "nat e"]
      by (simp add: digit_run_append digits_value_append scale10_def)
    moreover have "(10::real) powi e = 10 ^ nat e" by (subst e) (simp only: power_int_of_nat)
    ultimately show ?thesis using A by (simp add: ss n_def)
  next
    case B
    define i where "i = nat n"
    have ik: "0 < i" "i < length ds" using B by (auto simp: i_def k_def n_def)
    have rt: "digit_run (take i ds)" "digit_run (drop i ds)"
      using ds ik by (auto simp: digit_run_def list_all_iff dest: in_set_takeD in_set_dropD)
    have len: "length (drop i ds) = nat (- e)" "e < 0" using ik B by (auto simp: i_def k_def n_def)
    have split: "digits_value ds = digits_value (take i ds) * 10 ^ nat (- e) + digits_value (drop i ds)"
      using digits_value_append[of "take i ds" "drop i ds"] len by simp
    have "(10::real) powi e = 1 / 10 ^ nat (- e)"
      using len(2) by (simp add: power_int_def power_one_over)
    then have "(of_nat (digits_value ds) * 10 powi e :: real)
             = of_nat (digits_value (take i ds)) + of_nat (digits_value (drop i ds)) / 10 ^ nat (- e)"
      by (simp add: split field_simps)
    moreover have "parse_unsigned (take i ds @ CHR ''.'' # drop i ds @ [])
        = Some (of_nat (digits_value (take i ds)) + of_nat (digits_value (drop i ds)) / 10 ^ nat (- e))"
      using parse_unsigned_point[OF rt, of "[]"] len by (simp add: scale10_def)
    ultimately show ?thesis using B by (simp add: ss i_def)
  next
    case C
    have fp: "digit_run (replicate (nat (- n)) (CHR ''0'') @ ds)"
      using ds zeros_digits[of "nat (- n)"] by (auto simp: digit_run_def)
    have z: "digit_run ''0''" "digits_value ''0'' = 0" by (simp_all add: digit_run_def is_digit_def digits_value_def)
    have len: "length (replicate (nat (- n)) (CHR ''0'') @ ds) = nat (- e)" "e < 0"
      using C k1 by (auto simp: k_def n_def)
    have "(10::real) powi e = 1 / 10 ^ nat (- e)"
      using len(2) by (simp add: power_int_def power_one_over)
    moreover have "parse_unsigned (''0'' @ CHR ''.'' # (replicate (nat (- n)) (CHR ''0'') @ ds) @ [])
        = Some (of_nat (digits_value ds) / 10 ^ nat (- e))"
      using parse_unsigned_point[OF z(1) fp, of "[]"] len z(2) by (simp add: scale10_def digits_value_zeros)
    ultimately show ?thesis using C by (simp add: ss)
  next
    case D
    obtain c t where ct: "ds = c # t" using ds by (cases ds) (auto simp: digit_run_def)
    have c: "digit_run [c]" using ds ct by (simp add: digit_run_def)
    have ex: "parse_exponent ((if 0 \<le> n - 1 then CHR ''+'' else CHR ''-'') # decimal (nat \<bar>n - 1\<bar>))
                = Some (n - 1)"
      by (simp add: parse_exponent_sign)
    have nl: "n - 1 = int (length t) + e" using ct by (simp add: n_def k_def)
    have p10: "(10::real) powi (n - 1) = 10 ^ length t * 10 powi e"
      by (simp add: nl power_int_add)
    have sD: "sci_string ds e = (if t = [] then [c] else c # CHR ''.'' # t)
          @ CHR ''e'' # (if 0 \<le> n - 1 then CHR ''+'' else CHR ''-'') # decimal (nat \<bar>n - 1\<bar>)"
      unfolding ss if_not_P[OF D(1)] if_not_P[OF D(2)] if_not_P[OF D(3)] by (simp add: ct)
    show ?thesis
    proof (cases "t = []")
      case True
      have "parse_unsigned ([c] @ CHR ''e'' # (if 0 \<le> n - 1 then CHR ''+'' else CHR ''-'') # decimal (nat \<bar>n - 1\<bar>))
              = Some (of_nat (digits_value [c]) * 10 powi (n - 1))"
        using parse_unsigned_int[OF c, of "CHR ''e'' # _"] ex by (simp add: scale10_powi)
      moreover have "sci_string ds e
          = [c] @ CHR ''e'' # (if 0 \<le> n - 1 then CHR ''+'' else CHR ''-'') # decimal (nat \<bar>n - 1\<bar>)"
        using sD True by simp
      ultimately show ?thesis using True ct p10 by simp
    next
      case False
      have t: "digit_run t" using ds ct False by (simp add: digit_run_def)
      have dv: "digits_value ds = digits_value [c] * 10 ^ length t + digits_value t"
        using digits_value_append[of "[c]" t] ct by simp
      have "parse_unsigned ([c] @ CHR ''.'' # t @ CHR ''e'' # (if 0 \<le> n - 1 then CHR ''+'' else CHR ''-'')
                 # decimal (nat \<bar>n - 1\<bar>))
              = Some ((of_nat (digits_value [c]) + of_nat (digits_value t) / 10 ^ length t) * 10 powi (n - 1))"
        using parse_unsigned_point[OF c t, of "CHR ''e'' # _"] ex by (simp add: scale10_powi)
      moreover have "((of_nat (digits_value [c]) + of_nat (digits_value t) / 10 ^ length t) * 10 powi (n - 1) :: real)
                   = of_nat (digits_value ds) * 10 powi e"
        by (simp add: p10 dv field_simps)
      moreover have "sci_string ds e = [c] @ CHR ''.'' # t @ CHR ''e'' # (if 0 \<le> n - 1 then CHR ''+'' else CHR ''-'')
                 # decimal (nat \<bar>n - 1\<bar>)"
        using sD False by simp
      ultimately show ?thesis by simp
    qed
  qed
qed

lemma dec_places_sound: "dec_places f d x = Some d' \<Longrightarrow> x * 10 ^ d' = of_int \<lfloor>x * 10 ^ d'\<rfloor>"
  by (induction f d x rule: dec_places.induct) (auto split: if_splits)

lemma dec_places_complete:
  "d0 \<le> d \<Longrightarrow> d \<le> d0 + f \<Longrightarrow> x * 10 ^ d = of_int \<lfloor>x * 10 ^ d\<rfloor> \<Longrightarrow> dec_places f d0 x \<noteq> None"
proof (induction f d0 x rule: dec_places.induct)
  case (1 f d0 x)
  show ?case
  proof (cases "d = d0")
    case True
    then show ?thesis using "1.prems"(3) by simp
  next
    case False
    then show ?thesis using "1.prems" "1.IH" by (cases f) auto
  qed
qed

declare strip_zeros.simps [simp del] dec_places.simps [simp del]

lemma strip_zeros_mult: "strip_zeros m = (s, z) \<Longrightarrow> m = s * 10 ^ z"
proof (induction m arbitrary: s z rule: less_induct)
  case (less m)
  show ?case
  proof (cases "m \<noteq> 0 \<and> m mod 10 = 0")
    case True
    obtain s' z' where sz: "strip_zeros (m div 10) = (s', z')" by fastforce
    then have "m div 10 = s' * 10 ^ z'" using less.IH[of "m div 10"] True by simp
    moreover have "s = s'" "z = Suc z'" using less.prems True sz by (simp_all add: strip_zeros.simps[of m])
    ultimately show ?thesis using True by (metis mult.assoc mult.commute mod_div_mult_eq add_0 power_Suc)
  next
    case False
    have "strip_zeros m = (m, 0)" unfolding strip_zeros.simps[of m] if_not_P[OF False] by (rule refl)
    then show ?thesis using less.prems by simp
  qed
qed

lemma sci_string_head: "digit_run ds \<Longrightarrow> \<exists>c t. sci_string ds e = c # t \<and> is_digit c"
proof -
  assume ds: "digit_run ds"
  then obtain c t where ct: "ds = c # t" "is_digit c" by (cases ds) (auto simp: digit_run_def)
  have z: "is_digit (CHR ''0'')" by (simp add: is_digit_def)
  have tk: "0 < m \<Longrightarrow> take m (c # t) = c # take (m - 1) t" for m by (cases m) simp_all
  show ?thesis
    unfolding sci_string_def Let_def
    using ct z by (simp add: tk split: list.split) 
qed

lemma dec_exact_intro:
  assumes x: "x * 10 ^ d = of_int \<lfloor>x * 10 ^ d\<rfloor>" and d: "d \<le> DEC_FUEL"
  shows "dec_exact x"
proof -
  have "\<bar>x\<bar> * 10 ^ d = \<bar>x * 10 ^ d\<bar>" by (simp add: abs_mult)
  also have "\<dots> = of_int \<bar>\<lfloor>x * 10 ^ d\<rfloor>\<bar>" by (subst x) simp
  finally have "\<bar>x\<bar> * 10 ^ d = of_int \<lfloor>\<bar>x\<bar> * 10 ^ d\<rfloor>" by simp
  then show ?thesis using dec_places_complete[of 0 d DEC_FUEL "\<bar>x\<bar>"] d by (simp add: dec_exact_def)
qed

lemma js_number_parts:
  assumes "dec_exact x" "x \<noteq> 0"
  shows "\<exists>s e. 0 < s \<and> js_number_string x = (if x < 0 then ''-'' else []) @ sci_string (decimal s) e
                \<and> of_nat s * 10 powi e = \<bar>x\<bar>"
proof -
  obtain d' where dp: "dec_places DEC_FUEL 0 \<bar>x\<bar> = Some d'" using assms(1) by (auto simp: dec_exact_def)
  define M where "M = \<lfloor>\<bar>x\<bar> * 10 ^ d'\<rfloor>"
  have xm: "\<bar>x\<bar> * 10 ^ d' = of_int M" using dec_places_sound[OF dp] by (simp add: M_def)
  have "(0::real) < \<bar>x\<bar> * 10 ^ d'" using assms(2) by simp
  then have m0: "0 < M" using xm by simp
  obtain s z where sz: "strip_zeros (nat M) = (s, z)" by fastforce
  have ms: "nat M = s * 10 ^ z" using strip_zeros_mult[OF sz] .
  have "(of_int M :: real) = of_nat s * 10 ^ z"
    using ms m0 by (metis of_nat_mult of_nat_power of_nat_numeral of_nat_nat less_imp_le)
  then have "\<bar>x\<bar> = of_nat s * 10 ^ z / 10 ^ d'" using xm by (simp add: field_simps)
  then have val: "of_nat s * 10 powi (int z - int d') = \<bar>x\<bar>" by (simp add: power_int_diff power_int_of_nat)
  have "0 < s" using ms m0 by (cases s) simp_all
  moreover have "js_number_string x = (if x < 0 then ''-'' else []) @ sci_string (decimal s) (int z - int d')"
    using assms(2) dp sz by (simp add: js_number_string_def M_def)
  ultimately show ?thesis using val by blast
qed

lemma html_float_js_number:
  assumes "dec_exact x"
  shows "html_float (js_number_string x) = Some x"
proof (cases "x = 0")
  case True
  then show ?thesis using html_float_decimal[of 0] by (simp add: js_number_string_def decimal.simps digit_char_def)
next
  case False
  obtain s e where se: "js_number_string x = (if x < 0 then ''-'' else []) @ sci_string (decimal s) e"
    "of_nat s * 10 powi e = \<bar>x\<bar>"
    using js_number_parts[OF assms False] by blast
  have rd: "parse_unsigned (sci_string (decimal s) e) = Some \<bar>x\<bar>"
    using sci_string_reads[of "decimal s"] decimal_digits[of s] se(2) by simp
  obtain c t where ct: "sci_string (decimal s) e = c # t" "is_digit c"
    using sci_string_head[of "decimal s"] decimal_digits[of s] by blast
  have "c \<noteq> CHR ''-''" using ct(2) by (auto simp: is_digit_def)
  then show ?thesis using rd ct(1) by (simp add: se(1) html_float_def)
qed

lemma decimal_head: "0 < n \<Longrightarrow> hd (decimal n) \<noteq> CHR ''0''"
proof (induction n rule: decimal.induct)
  case (1 n)
  show ?case
  proof (cases "n < 10")
    case True
    then have "decimal n = [digit_char n]" by (simp add: decimal.simps[of n])
    moreover have "n \<in> {1, 2, 3, 4, 5, 6, 7, 8, 9}" using True "1.prems" by simp presburger
    ultimately show ?thesis by (auto simp: digit_char_def)
  next
    case False
    have "decimal (n div 10) \<noteq> []" using decimal_digits[of "n div 10"] by (simp add: digit_run_def)
    then show ?thesis using "1.IH" False by (simp add: decimal.simps[of n])
  qed
qed

lemma sci_string_shape:
  assumes ds: "digit_run ds" "hd ds \<noteq> CHR ''0''"
  shows "\<exists>ip fp ex. sci_string ds e = ip @ fp @ ex \<and> num_shape ip fp ex"
proof -
  define k where "k = int (length ds)"
  define n where "n = k + e"
  obtain c t where ct: "ds = c # t" using ds by (cases ds) (auto simp: digit_run_def)
  have c: "digit_run [c]" "c \<noteq> CHR ''0''" using ds ct by (auto simp: digit_run_def)
  have z: "digit_run (replicate m (CHR ''0''))" if "0 < m" for m
    using that by (simp add: digit_run_def is_digit_def list_all_iff)
  have ss: "sci_string ds e =
    (if k \<le> n \<and> n \<le> 21 then ds @ replicate (nat (n - k)) (CHR ''0'')
     else if 0 < n \<and> n \<le> 21 then take (nat n) ds @ CHR ''.'' # drop (nat n) ds
     else if - 6 < n \<and> n \<le> 0 then ''0.'' @ replicate (nat (- n)) (CHR ''0'') @ ds
     else (case ds of c # t \<Rightarrow> if t = [] then [c] else c # CHR ''.'' # t | [] \<Rightarrow> [])
          @ CHR ''e'' # (if 0 \<le> n - 1 then CHR ''+'' else CHR ''-'') # decimal (nat \<bar>n - 1\<bar>))"
    by (simp add: sci_string_def Let_def k_def n_def)
  consider (A) "k \<le> n \<and> n \<le> 21" | (B) "\<not> (k \<le> n \<and> n \<le> 21)" "0 < n \<and> n \<le> 21"
    | (C) "\<not> (k \<le> n \<and> n \<le> 21)" "\<not> (0 < n \<and> n \<le> 21)" "- 6 < n \<and> n \<le> 0"
    | (D) "\<not> (k \<le> n \<and> n \<le> 21)" "\<not> (0 < n \<and> n \<le> 21)" "\<not> (- 6 < n \<and> n \<le> 0)"
    by blast
  then show ?thesis
  proof cases
    case A
    have "digit_run (ds @ replicate (nat (n - k)) (CHR ''0''))"
      using digit_run_append[OF ds(1)] zeros_digits by blast
    moreover have "hd (ds @ replicate (nat (n - k)) (CHR ''0'')) \<noteq> CHR ''0''" using ds ct by simp
    ultimately show ?thesis using A
      by (intro exI[of _ "ds @ replicate (nat (n - k)) (CHR ''0'')"] exI[of _ "[]"]) (simp add: ss num_shape_def)
  next
    case B
    have ik: "0 < nat n" "nat n < length ds" using B by (auto simp: k_def n_def)
    have "digit_run (take (nat n) ds)" "digit_run (drop (nat n) ds)"
      using ds(1) ik by (auto simp: digit_run_def list_all_iff dest: in_set_takeD in_set_dropD)
    moreover have "hd (take (nat n) ds) \<noteq> CHR ''0''" using ds(2) ik by simp
    ultimately show ?thesis using B
      by (intro exI[of _ "take (nat n) ds"] exI[of _ "CHR ''.'' # drop (nat n) ds"] exI[of _ "[]"])
         (simp add: ss num_shape_def)
  next
    case C
    have "digit_run (replicate (nat (- n)) (CHR ''0'') @ ds)"
      using ds(1) zeros_digits[of "nat (- n)"] by (simp add: digit_run_def)
    then show ?thesis using C
      by (intro exI[of _ "''0''"] exI[of _ "CHR ''.'' # replicate (nat (- n)) (CHR ''0'') @ ds"] exI[of _ "[]"])
         (simp add: ss num_shape_def)
  next
    case D
    have sD: "sci_string ds e = (if t = [] then [c] else c # CHR ''.'' # t)
          @ CHR ''e'' # (if 0 \<le> n - 1 then CHR ''+'' else CHR ''-'') # decimal (nat \<bar>n - 1\<bar>)"
      unfolding ss if_not_P[OF D(1)] if_not_P[OF D(2)] if_not_P[OF D(3)] by (simp add: ct)
    have ex: "\<exists>sg d. CHR ''e'' # (if 0 \<le> n - 1 then CHR ''+'' else CHR ''-'') # decimal (nat \<bar>n - 1\<bar>)
                = CHR ''e'' # sg # d \<and> (sg = CHR ''+'' \<or> sg = CHR ''-'') \<and> digit_run d"
      using decimal_digits by auto
    show ?thesis
    proof (cases "t = []")
      case True
      then show ?thesis using c ex
        by (intro exI[of _ "[c]"] exI[of _ "[]"] exI[of _ "CHR ''e'' # (if 0 \<le> n - 1 then CHR ''+'' else CHR ''-'')
              # decimal (nat \<bar>n - 1\<bar>)"]) (simp add: sD num_shape_def)
    next
      case False
      have "digit_run t" using ds(1) ct False by (simp add: digit_run_def)
      then show ?thesis using c ex False
        by (intro exI[of _ "[c]"] exI[of _ "CHR ''.'' # t"] exI[of _ "CHR ''e'' # (if 0 \<le> n - 1 then CHR ''+'' else CHR ''-'')
              # decimal (nat \<bar>n - 1\<bar>)"]) (simp add: sD num_shape_def)
    qed
  qed
qed

lemma js_number_shape:
  assumes "dec_exact x"
  shows "\<exists>sg ip fp ex. js_number_string x = sg @ ip @ fp @ ex \<and> (sg = [] \<or> sg = ''-'') \<and> num_shape ip fp ex"
proof (cases "x = 0")
  case True
  then show ?thesis
    by (intro exI[of _ "[]"] exI[of _ "''0''"]) (simp add: js_number_string_def num_shape_def)
next
  case False
  obtain s e where se: "0 < s" "js_number_string x = (if x < 0 then ''-'' else []) @ sci_string (decimal s) e"
    using js_number_parts[OF assms False] by blast
  obtain ip fp ex where "sci_string (decimal s) e = ip @ fp @ ex" "num_shape ip fp ex"
    using sci_string_shape[of "decimal s" e] decimal_digits[of s] decimal_head[OF se(1)] by blast
  then show ?thesis using se(2)
    by (intro exI[of _ "if x < 0 then ''-'' else []"] exI[of _ ip] exI[of _ fp] exI[of _ ex]) simp
qed

lemma dec_places_le: "dec_places f d x = Some d' \<Longrightarrow> d' \<le> d + f"
proof (induction f d x rule: dec_places.induct)
  case (1 f d x)
  from "1.prems" show ?case
    by (subst (asm) dec_places.simps) (auto split: if_splits dest: "1.IH")
qed

lemma dec_exact_int: "dec_exact (of_int i)"
  using dec_exact_intro[of "of_int i" 0] by (simp add: DEC_FUEL_def)

lemma dec_exact_to_fixed: "d \<le> DEC_FUEL \<Longrightarrow> dec_exact (to_fixed d x)"
  by (rule dec_exact_intro[of _ d], cases rule: linorder_cases[of x 0]) (simp_all add: to_fixed_def)

lemma dec_exact_add_int:
  assumes "dec_exact x"
  shows "dec_exact (of_int i + x)"
proof -
  obtain d where dp: "dec_places DEC_FUEL 0 \<bar>x\<bar> = Some d" using assms by (auto simp: dec_exact_def)
  have a: "\<bar>x\<bar> * 10 ^ d \<in> \<int>" by (subst dec_places_sound[OF dp]) (rule Ints_of_int)
  have "x * 10 ^ d \<in> \<int>"
  proof (cases "0 \<le> x")
    case True
    then show ?thesis using a by simp
  next
    case False
    then have "x * 10 ^ d = - (\<bar>x\<bar> * 10 ^ d)" by simp
    then show ?thesis using Ints_minus[OF a] by simp
  qed
  then have "(of_int i + x) * 10 ^ d \<in> \<int>" by (simp add: distrib_right)
  then have "(of_int i + x) * 10 ^ d = of_int \<lfloor>(of_int i + x) * 10 ^ d\<rfloor>" by (simp add: Ints_def)
  moreover have "d \<le> DEC_FUEL" using dec_places_le[OF dp] by simp
  ultimately show ?thesis by (rule dec_exact_intro)
qed

end
