(* ===== verification/Display.thy ===== *)
theory Display
  imports Scheduler Number_Text
begin

text \<open>
  The display logic: what the cards of \<^verbatim>\<open>src/components/MetricsDisplay.tsx\<close>,
  the chart of \<^verbatim>\<open>src/components/StockChart.tsx\<close> (its data and the series
  its elements draw) and the product cards of \<^verbatim>\<open>src/App.tsx\<close> (their
  texts, printed by \<open>Number_Text\<close>) compute from the application state, and
  the edit handler of \<^verbatim>\<open>src/components/SimulationControls.tsx\<close>. The
  MetricsDisplay's JSON panel and Lead Time card are in \<open>Wire_Text\<close>.
  Styling and the chart's time labels (\<open>toLocaleTimeString\<close>) are not
  modelled.
\<close>

section \<open>MetricsDisplay\<close>

definition status_connected :: "string \<Rightarrow> bool" where
  "status_connected s = (s = ''Connected'')"

text \<open>The MQTT Status badge: the dot's and the label's classes, and the label.\<close>

definition status_badge :: "string \<Rightarrow> string \<times> string \<times> string" where
  "status_badge s =
     (if status_connected s then (''bg-green-500 animate-pulse'', ''text-green-500'', s)
      else (''bg-slate-700'', ''text-slate-500'', s))"

text \<open>\<open>currentData?.stockout === 1\<close>: \<open>undefined === 1\<close> is false.\<close>

definition is_stockout :: "'p simulation_result option \<Rightarrow> bool" where
  "is_stockout cd = (case cd of None \<Rightarrow> False | Some d \<Rightarrow> stockout d = 1)"

text \<open>A card's \<open>value\<close>: a number or a text.\<close>

datatype card_value = CardNum int | CardText string

text \<open>The Current Stock card: \<open>currentData?.inventory_level ?? '--'\<close> and its colour.\<close>

definition stock_card :: "'p simulation_result option \<Rightarrow> card_value \<times> string" where
  "stock_card cd =
     ((case cd of None \<Rightarrow> CardText ''--'' | Some d \<Rightarrow> CardNum (inventory_level d)),
      (if is_stockout cd then ''text-red-500'' else ''text-blue-400''))"

text \<open>The Last Demand card: \<open>currentData?.demand ?? '--'\<close>.\<close>

definition demand_card :: "'p simulation_result option \<Rightarrow> card_value" where
  "demand_card cd = (case cd of None \<Rightarrow> CardText ''--'' | Some d \<Rightarrow> CardNum (demand d))"

section \<open>StockChart\<close>

record chart_point =
  inventory :: int
  reorder :: "int option" \<comment> \<open>\<open>null\<close> is \<open>None\<close>\<close>

text \<open>\<open>xs.slice(-n)\<close> for \<open>n > 0\<close>: the last \<open>n\<close> elements, or all when fewer.\<close>

definition js_slice_neg :: "nat \<Rightarrow> 'a list \<Rightarrow> 'a list" where
  "js_slice_neg n xs = drop (length xs - n) xs"

definition chart_point_of :: "'p simulation_result \<Rightarrow> chart_point" where
  "chart_point_of d =
     \<lparr>inventory = inventory_level d,
      reorder = (if 0 < reorder_quantity d then Some (inventory_level d) else None)\<rparr>"

definition chart_data :: "'p simulation_result list \<Rightarrow> chart_point list" where
  "chart_data hist = map chart_point_of (js_slice_neg 20 hist)"

text \<open>
  The elements the \<open>AreaChart\<close> renders over \<open>chartData\<close>, by their data
  keys: the grid, the x axis on \<open>time\<close>, the y axis, the tooltip, and one
  area on \<open>inventory\<close> (styling and the gradient omitted). A series draws
  the field its data key names in every point.
\<close>

datatype chart_elem = CartesianGrid | XAxis string | YAxis | Tooltip | Area string

definition stock_chart :: "chart_elem list" where
  "stock_chart = [CartesianGrid, XAxis ''time'', YAxis, Tooltip, Area ''inventory'']"

definition data_key :: "string \<Rightarrow> chart_point \<Rightarrow> int option" where
  "data_key k pt = (if k = ''inventory'' then Some (inventory pt) else if k = ''reorder'' then reorder pt else None)"

definition drawn_series :: "chart_elem list \<Rightarrow> chart_point list \<Rightarrow> (string \<times> int option list) list" where
  "drawn_series els pts = concat (map (\<lambda>e. case e of Area k \<Rightarrow> [(k, map (data_key k) pts)] | _ \<Rightarrow> []) els)"

section \<open>Product cards\<close>

definition stock_pct :: "product \<Rightarrow> int" where
  "stock_pct p = math_round (of_int (currentStock p) / of_int (maxStock p) * 100)"

definition temp_color :: "product \<Rightarrow> string" where
  "temp_color p = (if status p = ''WARNING'' then ''bg-amber-400'' else ''bg-green-400'')"

text \<open>The bullet, euro and degree signs of the card's text, in UTF-8.\<close>

definition bullet_sign :: string where
  "bullet_sign = [char_of (226 :: nat), char_of (128 :: nat), char_of (162 :: nat)]"

definition euro_sign :: string where
  "euro_sign = [char_of (226 :: nat), char_of (130 :: nat), char_of (172 :: nat)]"

definition degree_sign :: string where
  "degree_sign = [char_of (194 :: nat), char_of (176 :: nat)]"

text \<open>What a product card shows, field by field.\<close>

record product_card =
  card_name :: string
  card_type_price :: string
  card_stock :: string
  card_bar_width :: string
  card_reorder :: string
  card_pct :: string
  card_badge :: string
  card_temp :: string
  card_hum :: string
  card_status :: string

definition product_card_of :: "product \<Rightarrow> product_card" where
  "product_card_of p =
    \<lparr>card_name = name p,
     card_type_price = product_type_name (ptype p) @ '' '' @ bullet_sign @ '' '' @ euro_sign @ fixed_string 2 (price p),
     card_stock = int_string (currentStock p) @ ''/'' @ int_string (maxStock p),
     card_bar_width = int_string (stock_pct p) @ ''%'',
     card_reorder = ''Reorder: '' @ int_string (reorderLevel p),
     card_pct = int_string (stock_pct p) @ ''%'',
     card_badge = temp_color p,
     card_temp = js_number_string (temperature (sensors p)) @ degree_sign @ ''C'',
     card_hum = ''Hum: '' @ js_number_string (humidity (sensors p)) @ ''%'',
     card_status = status p\<rparr>"

section \<open>Number inputs\<close>

text \<open>\<open>handleChange\<close>: \<open>setParams({...params, [name]: Number(value)})\<close>.\<close>

definition handle_change :: "param_field \<Rightarrow> string \<Rightarrow> ms \<Rightarrow> 's app_state \<Rightarrow> 's app_state" where
  "handle_change f raw now st = set_param f (js_Number_input (input_value raw)) now st"

section \<open>Lemmas\<close>

lemma stock_pct_bounds:
  assumes "product_wf p"
  shows "0 \<le> stock_pct p \<and> stock_pct p \<le> 100"
proof -
  have m: "0 < (of_int (maxStock p) :: real)" and c: "0 \<le> (of_int (currentStock p) :: real)"
    and le: "(of_int (currentStock p) :: real) \<le> of_int (maxStock p)"
    using assms by (simp_all add: product_wf_def)
  have "of_int (currentStock p) / of_int (maxStock p) \<le> (1 :: real)"
    using m le by simp
  moreover have "0 \<le> of_int (currentStock p) / (of_int (maxStock p) :: real)"
    using m c by simp
  ultimately have "0 \<le> of_int (currentStock p) / of_int (maxStock p) * 100 + 1 / (2 :: real)"
    and "of_int (currentStock p) / of_int (maxStock p) * 100 + 1 / 2 < (101 :: real)"
    by linarith+
  then show ?thesis unfolding stock_pct_def math_round_def by linarith
qed

lemma chart_data_length: "length (chart_data h) = min 20 (length h)"
  by (simp add: chart_data_def js_slice_neg_def)

lemma chart_data_last:
  assumes "h \<noteq> []"
  shows "last (chart_data h) = chart_point_of (last h)"
proof -
  have n: "length h - 20 < length h" using assms by simp
  then have "drop (length h - 20) h \<noteq> []" by simp
  then show ?thesis by (simp add: chart_data_def js_slice_neg_def last_map last_drop[OF n])
qed

section \<open>Properties of the display\<close>

text \<open>
  C26. The stockout metric never fires in this application. Every catalog
  product's reorder level covers its largest demand draw and lies below its
  stock, and a tick refills a product that falls to its level; so in every
  reachable state each registry product holds more than its reorder level, no
  tick sells a product out, every aggregate of the history counts zero
  stockouts, and the Current Stock card is never shown in the stockout
  colour: the \<open>stockout === 1\<close> test of \<open>MetricsDisplay\<close> is dead code.
\<close>

theorem stockout_never_reported:
  assumes "rng_ok g" and "app_reach g s0 t0 st"
  shows "list_all (\<lambda>e. stockout e = 0) (history st) \<and> \<not> is_stockout (currentData st)
         \<and> snd (stock_card (currentData st)) = ''text-blue-400''
         \<and> list_all (\<lambda>p. 0 < currentStock p \<and> reorderLevel p < currentStock p) (deref (heap st) (products st))"
proof -
  have "stock_inv st" by (rule app_reach_stock_inv[OF assms(2,1)])
  then show ?thesis
    by (auto simp: stock_inv_def is_stockout_def stock_card_def stock_margin_def list_all_iff split: option.splits)
qed

theorem stockout_never_reported_witness:
  "rng_ok demo_rng \<and> app_reach demo_rng 7 0 demo_started
   \<and> list_all (\<lambda>e. stockout e = 0) (history demo_started) \<and> \<not> is_stockout (currentData demo_started)
   \<and> snd (stock_card (currentData demo_started)) = ''text-blue-400''
   \<and> list_all (\<lambda>p. 0 < currentStock p \<and> reorderLevel p < currentStock p)
       (deref (heap demo_started) (products demo_started))"
  by (rule conjI[OF demo_rng_ok conjI[OF demo_started_reach stockout_never_reported[OF demo_rng_ok demo_started_reach]]])

text \<open>
  C27. The chart shows a sliding window: at most the last twenty history
  entries, and appending an entry appends its point, dropping the oldest point
  once the window is full. It draws one series, the inventory level of those
  entries: the \<open>reorder\<close> field each point carries is drawn by no element.
\<close>

theorem chart_window_slides:
  "length (chart_data h) = min 20 (length h)
   \<and> chart_data (h @ [d]) = (if length h < 20 then chart_data h else tl (chart_data h)) @ [chart_point_of d]
   \<and> drawn_series stock_chart (chart_data h) = [(''inventory'', map (\<lambda>e. Some (inventory_level e)) (js_slice_neg 20 h))]"
proof -
  have dr: "drawn_series stock_chart (chart_data h) = [(''inventory'', map (\<lambda>e. Some (inventory_level e)) (js_slice_neg 20 h))]"
    by (simp add: drawn_series_def stock_chart_def chart_data_def data_key_def chart_point_of_def)
  have "chart_data (h @ [d]) = (if length h < 20 then chart_data h else tl (chart_data h)) @ [chart_point_of d]"
  proof (cases "length h < 20")
    case True
    then show ?thesis by (simp add: chart_data_def js_slice_neg_def)
  next
    case False
    then have "Suc (length h) - 20 = Suc (length h - 20)" by simp
    then show ?thesis using False by (simp add: chart_data_def js_slice_neg_def drop_Suc map_tl[symmetric] tl_drop)
  qed
  then show ?thesis using dr by (simp add: chart_data_length)
qed

end
