(* ===== verification/Messages.thy ===== *)
theory Messages
  imports Scheduler
begin

text \<open>
  The wire format. The specification gives the schema of the two messages a
  tick publishes (a \<open>product_update\<close> event per product and the aggregate);
  \<open>jtype\<close> is that schema language and \<open>conforms\<close> checks a JSON value
  against a type, object fields in the order the schema lists them. The
  payloads are \<open>product_payload\<close> and \<open>agg_payload\<close> of \<open>Scheduler\<close>, as
  \<open>runSimulationTick\<close> builds them in \<^verbatim>\<open>src/App.tsx\<close>.
\<close>

section \<open>Schemas\<close>

datatype jtype = TInt | TNumber | TString | TDate | TEnum "string list" | TNullable jtype
  | TObject "(string \<times> jtype) list"

fun conforms :: "json \<Rightarrow> jtype \<Rightarrow> bool"
  and conforms_fields :: "(string \<times> json) list \<Rightarrow> (string \<times> jtype) list \<Rightarrow> bool" where
  "conforms (JNum x) TInt = (x = of_int \<lfloor>x\<rfloor>)"
| "conforms (JNum x) TNumber = True"
| "conforms (JStr s) TString = True"
| "conforms (JDate t) TDate = True"
| "conforms (JStr s) (TEnum vs) = (s \<in> set vs)"
| "conforms JNull (TNullable t) = True"
| "conforms v (TNullable t) = conforms v t"
| "conforms (JObj kvs) (TObject fs) = conforms_fields kvs fs"
| "conforms _ _ = False"
| "conforms_fields [] [] = True"
| "conforms_fields ((k, v) # kvs) ((k', t) # fs) = (k = k' \<and> conforms v t \<and> conforms_fields kvs fs)"
| "conforms_fields _ _ = False"

text \<open>The product event of the specification.\<close>

definition product_event_schema :: jtype where
  "product_event_schema =
    TObject [(''event'', TEnum [''product_update'']), (''timestamp'', TDate),
             (''product'', TObject [
                (''id'', TString), (''name'', TString), (''type'', TEnum [''FRESH'', ''FROZEN'', ''DRY'']),
                (''currentStock'', TInt), (''maxStock'', TInt), (''reorderLevel'', TInt),
                (''price'', TNumber), (''demandRate'', TInt),
                (''sensors'', TObject [(''temperature'', TNumber), (''humidity'', TNumber), (''timestamp'', TInt)]),
                (''status'', TEnum [''OK'', ''WARNING'']),
                (''lastRestock'', TNullable TInt)])]"

text \<open>
  The aggregate of the specification, with the type of \<open>lead_time_days\<close> as a
  parameter: the specification says \<open>int\<close>.
\<close>

definition aggregate_schema :: "jtype \<Rightarrow> jtype" where
  "aggregate_schema lt =
    TObject [(''timestamp'', TDate), (''demand'', TInt), (''inventory_level'', TInt),
             (''reorder_quantity'', TInt), (''lead_time_days'', lt), (''stockout'', TInt)]"

text \<open>A sent message: on the default topic, a product event or an aggregate.\<close>

definition msg_ok :: "string \<times> json \<Rightarrow> bool" where
  "msg_ok tm \<longleftrightarrow> fst tm = TOPIC MQTT_CONFIG
     \<and> (conforms (snd tm) product_event_schema \<or> conforms (snd tm) (aggregate_schema TNumber))"

definition msgs_typed :: "transport \<Rightarrow> bool" where
  "msgs_typed t \<longleftrightarrow> list_all (\<lambda>c. list_all msg_ok (sent c)) (lib_clients t)"

section \<open>Lemmas\<close>

lemma product_payload_conforms:
  "status p \<in> {''OK'', ''WARNING''} \<Longrightarrow> conforms (product_payload now p) product_event_schema"
  by (cases "ptype p"; cases "lastRestock p")
     (auto simp: product_payload_def product_event_schema_def)

lemma agg_payload_conforms:
  "conforms (agg_payload a) (aggregate_schema lt) \<longleftrightarrow> conforms (JNum (lead_time_days a)) lt"
  by (simp add: agg_payload_def aggregate_schema_def)

lemma tick_lead_time_of:
  "\<exists>r. lead_time_days (aggregate (tick g now prm prev s)) = lead_time prm r"
proof -
  obtain ds s1 where dr: "product_draws g prev s = (ds, s1)" by fastforce
  obtain r s2 where gr: "g s1 = (r, s2)" by fastforce
  show ?thesis by (auto simp: tick_parts(3)[OF dr gr] tick_spec_def Let_def)
qed

lemma lead_time_integral:
  "(lead_time prm r = of_int \<lfloor>lead_time prm r\<rfloor>) \<longleftrightarrow> leadTimeMin prm \<in> \<int>"
proof -
  define k where "k = \<lfloor>r * (leadTimeMax prm - leadTimeMin prm + 1)\<rfloor>"
  have l: "lead_time prm r = of_int k + leadTimeMin prm" by (simp add: lead_time_def k_def)
  have "(of_int k + leadTimeMin prm = of_int \<lfloor>of_int k + leadTimeMin prm\<rfloor>)
          \<longleftrightarrow> (leadTimeMin prm = of_int \<lfloor>leadTimeMin prm\<rfloor>)"
    by (simp add: add.commute[of "of_int k"])
  also have "\<dots> \<longleftrightarrow> leadTimeMin prm \<in> \<int>" by (metis Ints_of_int floor_of_int Ints_cases)
  finally show ?thesis by (simp add: l)
qed

lemma list_all_update_keep:
  "list_all P xs \<Longrightarrow> (i < length xs \<Longrightarrow> P x) \<Longrightarrow> list_all P (xs[i := x])"
  by (cases "i < length xs") (auto simp: list_all_iff list_update_beyond dest: set_update_subset_insert[THEN subsetD])

lemma msgs_typed_publish:
  assumes "msgs_typed t"
    and "conforms d product_event_schema \<or> conforms d (aggregate_schema TNumber)"
  shows "msgs_typed (fst (publish d None t))"
proof (cases "client t")
  case (Some i)
  have "i < length (lib_clients t) \<Longrightarrow> list_all msg_ok (sent (lib_clients t ! i))"
    using assms(1) by (simp add: msgs_typed_def list_all_length)
  then show ?thesis
    using assms Some
    by (auto simp: msgs_typed_def publish_def Let_def js_or_string_def msg_ok_def intro!: list_all_update_keep)
qed (use assms in \<open>simp add: publish_def\<close>)

lemma msgs_typed_publish_each:
  "msgs_typed t \<Longrightarrow> list_all (\<lambda>d. conforms d product_event_schema) ds \<Longrightarrow> msgs_typed (publish_each ds t)"
  by (induction ds arbitrary: t) (simp_all add: msgs_typed_publish)

lemma msgs_typed_run_tick:
  assumes "rng_ok g" and "msgs_typed (mqtt st)"
  shows "msgs_typed (mqtt (run_tick g now st))"
proof -
  let ?out = "tick g now (params st) (deref (heap st) (products st)) (rng st)"
  have "list_all (\<lambda>d. conforms d product_event_schema) (map (product_payload now) (next_products ?out))"
    using tick_next_status_ok[OF assms(1)] by (auto simp: list_all_iff product_payload_conforms)
  then have "msgs_typed (publish_each (map (product_payload now) (next_products ?out)) (mqtt st))"
    by (rule msgs_typed_publish_each[OF assms(2)])
  moreover have "conforms (agg_payload (aggregate ?out)) (aggregate_schema TNumber)"
    by (simp add: agg_payload_conforms)
  ultimately show ?thesis
    by (simp add: run_tick_def Let_def msgs_typed_publish)
qed

lemma msgs_typed_connect: "msgs_typed t \<Longrightarrow> msgs_typed (fst (fst (connect g (t, s))))"
  by (simp add: connect_eq msgs_typed_def)

lemma sent_kept_update:
  "list_all (\<lambda>c. list_all msg_ok (sent c)) xs \<Longrightarrow> sent c = sent (xs ! i)
   \<Longrightarrow> list_all (\<lambda>c. list_all msg_ok (sent c)) (xs[i := c])"
  by (rule list_all_update_keep) (auto simp: list_all_length)

lemma msgs_typed_disconnect: "msgs_typed t \<Longrightarrow> msgs_typed (disconnect t)"
  by (cases "client t") (auto simp: disconnect_def msgs_typed_def intro: sent_kept_update)

lemma msgs_typed_event: "msgs_typed t \<Longrightarrow> msgs_typed (fst (on_client_event i e t))"
  by (cases e) (auto simp: msgs_typed_def on_client_event_def intro: sent_kept_update)

lemma msgs_typed_reach: "app_reach g s0 t0 st \<Longrightarrow> rng_ok g \<Longrightarrow> msgs_typed (mqtt st)"
proof (induction rule: app_reach.induct)
  case init
  then show ?case by (simp add: app_init_def transport0_def msgs_typed_def)
next
  case (start st now)
  then have "msgs_typed (fst (fst (connect g (mqtt st, rng st))))" by (simp add: msgs_typed_connect)
  then show ?case
    using start.prems by (simp add: start_eq Let_def msgs_typed_run_tick)
next
  case (stop st)
  then show ?case
    by (simp add: stop_simulation_def Let_def msgs_typed_disconnect split: option.split)
next
  case (fire st i now)
  then show ?case by (simp add: msgs_typed_run_tick)
next
  case (param st f v now)
  then show ?case by (simp add: set_param_def)
next
  case (broker st i e)
  then show ?case by (simp add: broker_event_def case_prod_unfold Let_def msgs_typed_event)
qed

section \<open>Properties of the wire format\<close>

text \<open>
  C24. Every message any MQTT client has sent, in every reachable state, is
  on the default topic and is a product event of the specification's schema or
  an aggregate of its schema with a numeric \<open>lead_time_days\<close>.
\<close>

theorem published_messages_typed:
  assumes "rng_ok g" and "app_reach g s0 t0 st"
  shows "list_all (\<lambda>c. list_all (\<lambda>(tp, m). tp = TOPIC MQTT_CONFIG
            \<and> (conforms m product_event_schema \<or> conforms m (aggregate_schema TNumber))) (sent c))
           (lib_clients (mqtt st))"
  using msgs_typed_reach[OF assms(2,1)] by (simp add: msgs_typed_def msg_ok_def[abs_def] case_prod_unfold)

theorem published_messages_typed_witness:
  "rng_ok demo_rng \<and> app_reach demo_rng 7 0 (run_tick demo_rng 2000 (broker_event 0 EvConnect demo_started))
   \<and> list_all (\<lambda>c. list_all (\<lambda>(tp, m). tp = TOPIC MQTT_CONFIG
            \<and> (conforms m product_event_schema \<or> conforms m (aggregate_schema TNumber))) (sent c))
       (lib_clients (mqtt (run_tick demo_rng 2000 (broker_event 0 EvConnect demo_started))))"
proof -
  obtain c where c: "lib_clients (mqtt demo_started) = [c]" "\<not> ended c"
    using demo_started_link_view by (auto simp: link_view_def map_eq_Cons_conv)
  have b: "app_reach demo_rng 7 0 (broker_event 0 EvConnect demo_started)"
    using c by (intro app_reach.broker[OF demo_started_reach]) simp_all
  have "timers (broker_event 0 EvConnect demo_started) = [1]"
    by (simp add: broker_event_def case_prod_unfold Let_def demo_started_def start_eq app_init_def)
  then have r: "app_reach demo_rng 7 0 (run_tick demo_rng 2000 (broker_event 0 EvConnect demo_started))"
    by (intro app_reach.fire[OF b, of 1]) simp
  show ?thesis using published_messages_typed[OF demo_rng_ok r] demo_rng_ok r by blast
qed

text \<open>
  C25. The payloads of one tick: every product event conforms to the
  specification's schema, and the aggregate conforms to it, \<open>lead_time_days\<close>
  an integer, exactly when \<open>leadTimeMin\<close> is an integer. The form accepts any
  number, so a fractional \<open>leadTimeMin\<close> puts a fractional lead time on the
  wire.
\<close>

theorem tick_messages_typed:
  assumes "rng_ok g"
  shows "list_all (\<lambda>p. conforms (product_payload now p) product_event_schema) (next_products (tick g now prm prev s))
         \<and> (conforms (agg_payload (aggregate (tick g now prm prev s))) (aggregate_schema TInt)
              \<longleftrightarrow> leadTimeMin prm \<in> \<int>)"
proof
  show "list_all (\<lambda>p. conforms (product_payload now p) product_event_schema) (next_products (tick g now prm prev s))"
    using tick_next_status_ok[OF assms] by (auto simp: list_all_iff product_payload_conforms)
  obtain r where "lead_time_days (aggregate (tick g now prm prev s)) = lead_time prm r"
    using tick_lead_time_of[of g now prm prev s] by blast
  then show "conforms (agg_payload (aggregate (tick g now prm prev s))) (aggregate_schema TInt)
              \<longleftrightarrow> leadTimeMin prm \<in> \<int>"
    by (simp add: agg_payload_conforms lead_time_integral)
qed

theorem tick_messages_typed_witness:
  "rng_ok demo_rng
   \<and> list_all (\<lambda>p. conforms (product_payload 0 p) product_event_schema)
       (next_products (tick demo_rng 0 DEFAULT_PARAMS (initialProducts 0) 7))
   \<and> (conforms (agg_payload (aggregate (tick demo_rng 0 DEFAULT_PARAMS (initialProducts 0) 7))) (aggregate_schema TInt)
        \<longleftrightarrow> leadTimeMin DEFAULT_PARAMS \<in> \<int>)"
  using tick_messages_typed[OF demo_rng_ok, of 0 DEFAULT_PARAMS "initialProducts 0" 7] demo_rng_ok by blast

end
