(* ===== verification/Wire_Text.thy ===== *)
theory Wire_Text
  imports Display Messages
begin

text \<open>
  JSON as text. \<open>MqttService.publish\<close> (\<^verbatim>\<open>src/services/mqttService.ts\<close>)
  sends \<open>JSON.stringify(data)\<close>, and the JSON panel of
  \<^verbatim>\<open>src/components/MetricsDisplay.tsx\<close> shows
  \<open>JSON.stringify(currentData, null, 2)\<close>. This theory holds the ECMAScript
  algorithms those calls run (\<open>JSON.stringify\<close> with its \<open>gap\<close>, the quoting of
  strings, \<open>Date.prototype.toISOString\<close> for the timestamps), the reading of
  JSON text by a subscriber (the grammar of RFC 8259), the panel and the Lead
  Time card, and the proof that every printed value reads back.
\<close>

section \<open>Dates\<close>

text \<open>
  \<open>toISOString\<close>: the civil date of a day count (the proleptic Gregorian
  calendar, by the era arithmetic of \<open>days_from_civil\<close> inverted), the time of
  day, and the format \<open>YYYY-MM-DDTHH:mm:ss.sssZ\<close>, with a signed six-digit year
  outside \<open>0..9999\<close>. The engine throws a \<open>RangeError\<close> beyond
  \<open>8.64e15\<close> ms, far from any \<open>Date.now()\<close>.
\<close>

definition days_to_civil :: "int \<Rightarrow> int \<times> int \<times> int" where
  "days_to_civil z0 =
    (let z = z0 + 719468; era = z div 146097; doe = z - era * 146097;
         yoe = (doe - doe div 1460 + doe div 36524 - doe div 146096) div 365;
         doy = doe - (365 * yoe + yoe div 4 - yoe div 100);
         mp = (5 * doy + 2) div 153;
         d = doy - (153 * mp + 2) div 5 + 1;
         m = (if mp < 10 then mp + 3 else mp - 9)
     in (yoe + era * 400 + (if m \<le> 2 then 1 else 0), m, d))"

definition pad_int :: "nat \<Rightarrow> int \<Rightarrow> string" where
  "pad_int w i = zero_pad w (decimal (nat i))"

definition iso_year :: "int \<Rightarrow> string" where
  "iso_year y =
    (if 0 \<le> y \<and> y \<le> 9999 then pad_int 4 y
     else (if y < 0 then ''-'' else ''+'') @ pad_int 6 \<bar>y\<bar>)"

definition iso_string :: "ms \<Rightarrow> string" where
  "iso_string t =
    (let r = t mod 86400000; (y, m, d) = days_to_civil (t div 86400000)
     in iso_year y @ ''-'' @ pad_int 2 m @ ''-'' @ pad_int 2 d
        @ ''T'' @ pad_int 2 (r div 3600000) @ '':'' @ pad_int 2 (r div 60000 mod 60)
        @ '':'' @ pad_int 2 (r div 1000 mod 60) @ ''.'' @ pad_int 3 (r mod 1000) @ ''Z'')"

section \<open>JSON.stringify\<close>

text \<open>
  \<open>QuoteJSONString\<close>: the quote, each character with \<open>"\<close>, the backslash and
  the control characters escaped (the short escapes where they exist, else
  \<open>\u00XX\<close> in lowercase hexadecimal), the quote. Strings are the UTF-8 bytes
  of the JavaScript strings: the bytes of a multi-byte character are all at
  least \<open>0x80\<close> and pass unchanged, as the code units they encode do.
\<close>

definition hex4 :: "nat \<Rightarrow> string" where
  "hex4 n = map (\<lambda>k. digit_char (n div 16 ^ k mod 16)) [3, 2, 1, 0]"

definition escape_char :: "char \<Rightarrow> string" where
  "escape_char c =
    (if c = CHR 0x22 then [CHR 0x5C, CHR 0x22]
     else if c = CHR 0x5C then [CHR 0x5C, CHR 0x5C]
     else if c = CHR 0x08 then [CHR 0x5C, CHR ''b'']
     else if c = CHR 0x09 then [CHR 0x5C, CHR ''t'']
     else if c = CHR 0x0A then [CHR 0x5C, CHR ''n'']
     else if c = CHR 0x0C then [CHR 0x5C, CHR ''f'']
     else if c = CHR 0x0D then [CHR 0x5C, CHR ''r'']
     else if of_char c < (32 :: nat) then CHR 0x5C # CHR ''u'' # hex4 (of_char c)
     else [c])"

definition quote_json :: "string \<Rightarrow> string" where
  "quote_json s = CHR 0x22 # concat (map escape_char s) @ [CHR 0x22]"

text \<open>
  \<open>SerializeJSONProperty\<close> and its array and object cases: \<open>gap\<close> is the
  indentation unit (empty for \<open>JSON.stringify(v)\<close>, two spaces for
  \<open>JSON.stringify(v, null, 2)\<close>) and \<open>ind\<close> the current indentation. A
  \<open>JDate\<close> is the string \<open>toISOString\<close> returned.
\<close>

fun js_join :: "string \<Rightarrow> string list \<Rightarrow> string" where
  "js_join sep [] = []"
| "js_join sep [x] = x"
| "js_join sep (x # y # ys) = x @ sep @ js_join sep (y # ys)"

fun json_stringify :: "string \<Rightarrow> string \<Rightarrow> json \<Rightarrow> string"
and stringify_items :: "string \<Rightarrow> string \<Rightarrow> json list \<Rightarrow> string list"
and stringify_members :: "string \<Rightarrow> string \<Rightarrow> (string \<times> json) list \<Rightarrow> string list" where
  "json_stringify gap ind JNull = ''null''"
| "json_stringify gap ind (JBool b) = (if b then ''true'' else ''false'')"
| "json_stringify gap ind (JNum x) = js_number_string x"
| "json_stringify gap ind (JStr s) = quote_json s"
| "json_stringify gap ind (JDate t) = quote_json (iso_string t)"
| "json_stringify gap ind (JArr vs) =
     (if vs = [] then ''[]''
      else if gap = [] then ''['' @ js_join '','' ((stringify_items gap ind vs)) @ '']''
      else ''['' @ CHR 0x0A # (ind @ gap)
           @ js_join ('','' @ CHR 0x0A # ind @ gap) ((stringify_items gap (ind @ gap) vs))
           @ CHR 0x0A # ind @ '']'')"
| "json_stringify gap ind (JObj kvs) =
     (if kvs = [] then ''{}''
      else if gap = [] then ''{'' @ js_join '','' ((stringify_members gap ind kvs)) @ ''}''
      else ''{'' @ CHR 0x0A # (ind @ gap)
           @ js_join ('','' @ CHR 0x0A # ind @ gap) ((stringify_members gap (ind @ gap) kvs))
           @ CHR 0x0A # ind @ ''}'')"
| "stringify_items gap ind [] = []"
| "stringify_items gap ind (v # vs) = json_stringify gap ind v # stringify_items gap ind vs"
| "stringify_members gap ind [] = []"
| "stringify_members gap ind ((k, v) # kvs) =
     (quote_json k @ '':'' @ (if gap = [] then [] else '' '') @ json_stringify gap ind v)
     # stringify_members gap ind kvs"

text \<open>\<open>const message = JSON.stringify(data)\<close> in \<open>publish\<close>: the text the broker receives.\<close>

definition wire_text :: "json \<Rightarrow> string" where
  "wire_text data = json_stringify [] [] data"

section \<open>Reading JSON text\<close>

text \<open>
  A subscriber reads the text with the JSON grammar of RFC 8259: whitespace
  around tokens, the literals, strings with their escapes (a \<open>\u\<close> escape
  read as the UTF-8 bytes of its code point; a surrogate is refused, the
  printer never emits one), numbers of the JSON number syntax read as the
  real they denote, arrays and objects. Object members are kept in order as
  an association list. The reader recurses with fuel: every call consumes a
  character or hands the fuel down to one that does, so \<open>json_read\<close> gives
  it one more than the length of the text.
\<close>

definition is_ws :: "char \<Rightarrow> bool" where
  "is_ws c \<longleftrightarrow> c \<in> set [CHR 0x20, CHR 0x09, CHR 0x0A, CHR 0x0D]"

definition skip_ws :: "string \<Rightarrow> string" where
  "skip_ws s = dropWhile is_ws s"

definition hex_val :: "char \<Rightarrow> nat option" where
  "hex_val c =
    (let n = of_char c :: nat
     in if 48 \<le> n \<and> n \<le> 57 then Some (n - 48)
        else if 97 \<le> n \<and> n \<le> 102 then Some (n - 87)
        else if 65 \<le> n \<and> n \<le> 70 then Some (n - 55) else None)"

definition read_hex4 :: "string \<Rightarrow> nat option" where
  "read_hex4 s =
    (if length s < 4 \<or> list_ex (\<lambda>c. hex_val c = None) (take 4 s) then None
     else Some (foldl (\<lambda>acc c. 16 * acc + the (hex_val c)) 0 (take 4 s)))"

definition utf8_encode :: "nat \<Rightarrow> string option" where
  "utf8_encode n =
    (if n < 128 then Some [char_of n]
     else if n < 2048 then Some [char_of (192 + n div 64), char_of (128 + n mod 64)]
     else if 55296 \<le> n \<and> n \<le> 57343 then None
     else Some [char_of (224 + n div 4096), char_of (128 + n div 64 mod 64), char_of (128 + n mod 64)])"

definition unescape :: "char \<Rightarrow> char option" where
  "unescape e =
    (if e = CHR 0x22 \<or> e = CHR 0x5C \<or> e = CHR ''/'' then Some e
     else if e = CHR ''b'' then Some (CHR 0x08)
     else if e = CHR ''f'' then Some (CHR 0x0C)
     else if e = CHR ''n'' then Some (CHR 0x0A)
     else if e = CHR ''r'' then Some (CHR 0x0D)
     else if e = CHR ''t'' then Some (CHR 0x09) else None)"

fun read_string :: "string \<Rightarrow> (string \<times> string) option" where
  "read_string [] = None"
| "read_string (c # r) =
    (if c = CHR 0x22 then Some ([], r)
     else if c = CHR 0x5C then
       (case r of
          [] \<Rightarrow> None
        | e # r' \<Rightarrow>
            if e = CHR ''u'' then
              (case read_hex4 r' of
                 None \<Rightarrow> None
               | Some n \<Rightarrow>
                   (case utf8_encode n of
                      None \<Rightarrow> None
                    | Some bs \<Rightarrow> map_option (\<lambda>(s, r''). (bs @ s, r'')) (read_string (drop 4 r'))))
            else (case unescape e of
                    None \<Rightarrow> None
                  | Some ch \<Rightarrow> map_option (\<lambda>(s, r''). (ch # s, r'')) (read_string r')))
     else if of_char c < (32 :: nat) then None
     else map_option (\<lambda>(s, r'). (c # s, r')) (read_string r))"

definition is_num_char :: "char \<Rightarrow> bool" where
  "is_num_char c \<longleftrightarrow> c \<in> set ''0123456789+-.eE''"

definition json_num_syntax :: "string \<Rightarrow> bool" where
  "json_num_syntax s =
    (let s1 = (case s of c # t \<Rightarrow> if c = CHR ''-'' then t else s | [] \<Rightarrow> []);
         ip = takeWhile is_digit s1;
         r1 = dropWhile is_digit s1;
         r2 = (case r1 of c # t \<Rightarrow> if c = CHR ''.'' then dropWhile is_digit t else r1 | [] \<Rightarrow> []);
         fp_ok = (case r1 of c # t \<Rightarrow> c \<noteq> CHR ''.'' \<or> takeWhile is_digit t \<noteq> [] | [] \<Rightarrow> True);
         exp_ok = (case r2 of
                     [] \<Rightarrow> True
                   | c # t \<Rightarrow> (c = CHR ''e'' \<or> c = CHR ''E'')
                              \<and> (case t of
                                   d # u \<Rightarrow> if d = CHR ''+'' \<or> d = CHR ''-'' then digit_run u else digit_run t
                                 | [] \<Rightarrow> False))
     in (ip = ''0'' \<or> (ip \<noteq> [] \<and> hd ip \<noteq> CHR ''0'')) \<and> fp_ok \<and> exp_ok)"

definition read_number :: "string \<Rightarrow> (json \<times> string) option" where
  "read_number s =
    (let tok = takeWhile is_num_char s
     in if json_num_syntax tok then map_option (\<lambda>x. (JNum x, dropWhile is_num_char s)) (html_float tok)
        else None)"

fun read_value :: "nat \<Rightarrow> string \<Rightarrow> (json \<times> string) option"
and read_items :: "nat \<Rightarrow> string \<Rightarrow> (json list \<times> string) option"
and read_members :: "nat \<Rightarrow> string \<Rightarrow> ((string \<times> json) list \<times> string) option" where
  "read_value 0 s = None"
| "read_value (Suc n) s =
    (case skip_ws s of
       [] \<Rightarrow> None
     | c # r \<Rightarrow>
         if c = CHR ''n'' then (if take 3 r = ''ull'' then Some (JNull, drop 3 r) else None)
         else if c = CHR ''t'' then (if take 3 r = ''rue'' then Some (JBool True, drop 3 r) else None)
         else if c = CHR ''f'' then (if take 4 r = ''alse'' then Some (JBool False, drop 4 r) else None)
         else if c = CHR 0x22 then map_option (\<lambda>(str, r'). (JStr str, r')) (read_string r)
         else if c = CHR ''['' then
           (case skip_ws r of
              [] \<Rightarrow> None
            | d # r' \<Rightarrow> if d = CHR '']'' then Some (JArr [], r')
                        else map_option (\<lambda>(vs, r''). (JArr vs, r'')) (read_items n r))
         else if c = CHR ''{'' then
           (case skip_ws r of
              [] \<Rightarrow> None
            | d # r' \<Rightarrow> if d = CHR ''}'' then Some (JObj [], r')
                        else map_option (\<lambda>(kvs, r''). (JObj kvs, r'')) (read_members n r))
         else read_number (c # r))"
| "read_items 0 s = None"
| "read_items (Suc n) s =
    (case read_value n s of
       None \<Rightarrow> None
     | Some (v, r) \<Rightarrow>
         (case skip_ws r of
            [] \<Rightarrow> None
          | d # r' \<Rightarrow>
              if d = CHR '','' then map_option (\<lambda>(vs, r''). (v # vs, r'')) (read_items n r')
              else if d = CHR '']'' then Some ([v], r') else None))"
| "read_members 0 s = None"
| "read_members (Suc n) s =
    (case skip_ws s of
       [] \<Rightarrow> None
     | d # r \<Rightarrow>
         if d \<noteq> CHR 0x22 then None
         else (case read_string r of
                 None \<Rightarrow> None
               | Some (k, r1) \<Rightarrow>
                   (case skip_ws r1 of
                      [] \<Rightarrow> None
                    | e # r2 \<Rightarrow>
                        if e \<noteq> CHR '':'' then None
                        else (case read_value n r2 of
                                None \<Rightarrow> None
                              | Some (v, r3) \<Rightarrow>
                                  (case skip_ws r3 of
                                     [] \<Rightarrow> None
                                   | f # r4 \<Rightarrow>
                                       if f = CHR '','' then map_option (\<lambda>(kvs, r5). ((k, v) # kvs, r5)) (read_members n r4)
                                       else if f = CHR ''}'' then Some ([(k, v)], r4) else None)))))"

definition json_read :: "string \<Rightarrow> json option" where
  "json_read s =
    (case read_value (Suc (length s)) s of
       None \<Rightarrow> None
     | Some (v, r) \<Rightarrow> if skip_ws r = [] then Some v else None)"

text \<open>
  What a printed value reads back as: a date as the text \<open>toISOString\<close>
  gave; and the values whose numbers print exactly.
\<close>

fun json_plain :: "json \<Rightarrow> json" where
  "json_plain (JDate t) = JStr (iso_string t)"
| "json_plain (JArr vs) = JArr (map json_plain vs)"
| "json_plain (JObj kvs) = JObj (map (\<lambda>(k, v). (k, json_plain v)) kvs)"
| "json_plain v = v"

fun json_exact :: "json \<Rightarrow> bool" where
  "json_exact (JNum x) = dec_exact x"
| "json_exact (JArr vs) = list_all json_exact vs"
| "json_exact (JObj kvs) = list_all (\<lambda>(k, v). json_exact v) kvs"
| "json_exact v = True"

section \<open>The MetricsDisplay panel\<close>

text \<open>
  A product object as \<open>JSON.stringify\<close> serialises it: its keys in the order
  of the object literal of \<open>initialProducts\<close>, which the spread
  \<open>{...p, currentStock, sensors, status, lastRestock}\<close> of the tick keeps.
\<close>

definition product_json :: "product \<Rightarrow> json" where
  "product_json p =
    JObj [(''id'', JStr (product_id p)), (''name'', JStr (name p)), (''type'', JStr (product_type_name (ptype p))),
          (''idealTemp'', JNum (idealTemp p)), (''idealHumidity'', JNum (idealHumidity p)),
          (''maxStock'', JNum (of_int (maxStock p))), (''currentStock'', JNum (of_int (currentStock p))),
          (''reorderLevel'', JNum (of_int (reorderLevel p))), (''price'', JNum (price p)),
          (''demandRate'', JNum (of_int (demandRate p))),
          (''sensors'', JObj [(''temperature'', JNum (temperature (sensors p))),
                             (''humidity'', JNum (humidity (sensors p))),
                             (''timestamp'', JNum (of_int (readAt (sensors p))))]),
          (''status'', JStr (status p)),
          (''lastRestock'', (case lastRestock p of None \<Rightarrow> JNull | Some t \<Rightarrow> JNum (of_int t)))]"

text \<open>
  \<open>currentData\<close> as \<open>JSON.stringify\<close> serialises it: the aggregate's fields,
  then \<open>products\<close> (the objects the addresses hold at render time), which
  is left out when absent.
\<close>

definition result_json :: "product list \<Rightarrow> addr simulation_result \<Rightarrow> json" where
  "result_json h d =
    JObj ([(''timestamp'', JDate (timestamp d)), (''demand'', JNum (of_int (demand d))),
           (''inventory_level'', JNum (of_int (inventory_level d))),
           (''reorder_quantity'', JNum (of_int (reorder_quantity d))),
           (''lead_time_days'', JNum (lead_time_days d)), (''stockout'', JNum (of_int (stockout d)))]
          @ (case simulation_result.products d of None \<Rightarrow> [] | Some as \<Rightarrow> [(''products'', JArr (map product_json (deref h as)))]))"

text \<open>The Lead Time card: \<open>currentData ? `${currentData.lead_time_days} days` : '--'\<close>.\<close>

definition lead_time_card :: "addr simulation_result option \<Rightarrow> string" where
  "lead_time_card cd = (case cd of None \<Rightarrow> ''--'' | Some d \<Rightarrow> js_number_string (lead_time_days d) @ '' days'')"

text \<open>
  The Last JSON Message panel: the timestamp shown beside the title when there
  is data, and the text of the \<open>pre\<close> block.
\<close>

record metrics_panel =
  panel_time :: "string option"
  panel_text :: string

definition json_panel :: "product list \<Rightarrow> addr simulation_result option \<Rightarrow> metrics_panel" where
  "json_panel h cd =
    (case cd of
       None \<Rightarrow> \<lparr>panel_time = None, panel_text = ''// No data sent yet...''\<rparr>
     | Some d \<Rightarrow> \<lparr>panel_time = Some (iso_string (timestamp d)),
                  panel_text = json_stringify ''  '' [] (result_json h d)\<rparr>)"

text \<open>Every object of the heap prints its numbers exactly.\<close>

definition heap_exact :: "'s app_state \<Rightarrow> bool" where
  "heap_exact st \<longleftrightarrow> list_all (\<lambda>p. json_exact (product_json p)) (heap st)"

section \<open>Lemmas\<close>

lemma hex_val_digit: "k < 16 \<Longrightarrow> hex_val (digit_char k) = Some k"
proof -
  assume "k < 16"
  then have "k \<in> {0, 1, 2, 3, 4, 5, 6, 7, 8, 9, 10, 11, 12, 13, 14, 15}" by simp presburger
  then show ?thesis by (auto simp: hex_val_def digit_char_def)
qed

lemma read_hex4_hex4:
  assumes "n < 256"
  shows "read_hex4 (hex4 n @ r) = Some n"
proof -
  have d: "n div 16 ^ 3 mod 16 = 0" "n div 16 ^ 2 mod 16 = 0" "n div 16 < 16" "n mod 16 < 16"
    using assms by simp_all
  have "hex4 n = [digit_char 0, digit_char 0, digit_char (n div 16), digit_char (n mod 16)]"
    using d by (simp add: hex4_def)
  then show ?thesis
    using d hex_val_digit[of 0] hex_val_digit[of "n div 16"] hex_val_digit[of "n mod 16"]
    by (simp add: read_hex4_def)
qed

lemma read_string_escape:
  "read_string (escape_char c @ r) = map_option (\<lambda>(s, r'). (c # s, r')) (read_string r)"
proof -
  consider (q) "c = CHR 0x22" | (b) "c = CHR 0x5C" | (bs) "c = CHR 0x08" | (t) "c = CHR 0x09"
    | (nl) "c = CHR 0x0A" | (ff) "c = CHR 0x0C" | (cr) "c = CHR 0x0D"
    | (u) "c \<notin> {CHR 0x22, CHR 0x5C, CHR 0x08, CHR 0x09, CHR 0x0A, CHR 0x0C, CHR 0x0D}" "of_char c < (32 :: nat)"
    | (p) "c \<notin> {CHR 0x22, CHR 0x5C, CHR 0x08, CHR 0x09, CHR 0x0A, CHR 0x0C, CHR 0x0D}" "\<not> of_char c < (32 :: nat)"
    by blast
  then show ?thesis
  proof cases
    case u
    have n: "of_char c < (256 :: nat)" using u(2) by simp
    have "escape_char c = CHR 0x5C # CHR ''u'' # hex4 (of_char c)" using u by (simp add: escape_char_def)
    moreover have "length (hex4 (of_char c)) = 4" by (simp add: hex4_def)
    ultimately show ?thesis
      using u read_hex4_hex4[OF n, of r] by (simp add: utf8_encode_def)
  qed (auto simp: escape_char_def unescape_def)
qed

lemma read_string_quoted:
  "read_string (concat (map escape_char s) @ CHR 0x22 # r) = Some (s, r)"
  by (induction s) (simp_all add: read_string_escape)

lemma digits_split:
  assumes "digit_run ip" "t = [] \<or> \<not> is_digit (hd t)"
  shows "takeWhile is_digit (ip @ t) = ip \<and> dropWhile is_digit (ip @ t) = t"
proof -
  have "takeWhile is_digit t = [] \<and> dropWhile is_digit t = t" using assms(2) by (cases t) auto
  then show ?thesis using assms(1) by (simp add: digit_run_def list_all_iff)
qed

lemma digit_num_char: "is_digit c \<Longrightarrow> is_num_char c"
  by (auto simp: is_digit_def is_num_char_def)

lemma digits_num_chars: "digit_run ds \<Longrightarrow> list_all is_num_char ds"
  by (auto simp: digit_run_def list_all_iff digit_num_char)

lemma num_shape_syntax:
  assumes sh: "num_shape ip fp ex" and sg: "sg = [] \<or> sg = ''-''"
  shows "json_num_syntax (sg @ ip @ fp @ ex) \<and> list_all is_num_char (sg @ ip @ fp @ ex)
         \<and> (\<exists>c t. sg @ ip @ fp @ ex = c # t \<and> (c = CHR ''-'' \<or> is_digit c))"
proof -
  have ip: "digit_run ip" "ip = ''0'' \<or> hd ip \<noteq> CHR ''0''"
    using sh by (auto simp: num_shape_def digit_run_def is_digit_def)
  have nd: "\<not> is_digit (CHR ''.'')" "\<not> is_digit (CHR ''e'')" "\<not> is_digit (CHR ''-'')"
    by (simp_all add: is_digit_def)
  have ex: "ex = [] \<or> (\<exists>sg d. ex = CHR ''e'' # sg # d \<and> (sg = CHR ''+'' \<or> sg = CHR ''-'') \<and> digit_run d)"
    using sh by (simp add: num_shape_def)
  then have ex_t: "takeWhile is_digit ex = [] \<and> dropWhile is_digit ex = ex" using nd by auto
  have ex_ok: "case ex of [] \<Rightarrow> True
                | c # t \<Rightarrow> (c = CHR ''e'' \<or> c = CHR ''E'')
                           \<and> (case t of d # u \<Rightarrow> if d = CHR ''+'' \<or> d = CHR ''-'' then digit_run u else digit_run t
                              | [] \<Rightarrow> False)"
    using ex by auto
  have ex_c: "list_all is_num_char ex" using ex digits_num_chars by (auto simp: is_num_char_def)
  have ip_c: "list_all is_num_char ip" using digits_num_chars[OF ip(1)] .
  have ip0: "ip \<noteq> []" "is_digit (hd ip)" using ip(1) by (auto simp: digit_run_def list_all_iff)
  have s1: "(case sg @ ip @ fp @ ex of c # t \<Rightarrow> if c = CHR ''-'' then t else sg @ ip @ fp @ ex | [] \<Rightarrow> [])
              = ip @ fp @ ex"
    using sg ip0 nd(3) by (cases ip) auto
  consider (nofrac) "fp = []" | (frac) f where "fp = CHR ''.'' # f" "digit_run f"
    using sh by (auto simp: num_shape_def)
  then show ?thesis
  proof cases
    case nofrac
    have sp: "takeWhile is_digit (ip @ ex) = ip \<and> dropWhile is_digit (ip @ ex) = ex"
      using digits_split[OF ip(1), of ex] ex nd by auto
    have s1': "(case sg @ ip @ ex of c # t \<Rightarrow> if c = CHR ''-'' then t else sg @ ip @ ex | [] \<Rightarrow> []) = ip @ ex"
      using s1 unfolding nofrac append_Nil .
    have r2: "(case ex of c # t \<Rightarrow> if c = CHR ''.'' then dropWhile is_digit t else ex | [] \<Rightarrow> []) = ex"
      using ex by auto
    have fo: "(case ex of c # t \<Rightarrow> c \<noteq> CHR ''.'' \<or> takeWhile is_digit t \<noteq> [] | [] \<Rightarrow> True)"
      using ex by auto
    have "json_num_syntax (sg @ ip @ fp @ ex)"
      unfolding json_num_syntax_def Let_def nofrac append_Nil s1' sp[THEN conjunct1] sp[THEN conjunct2] r2
      using ip ip0 fo ex_ok by simp
    moreover have "list_all is_num_char (sg @ ip @ fp @ ex)"
      using sg ex_c ip_c nofrac by (auto simp: is_num_char_def)
    moreover have "\<exists>c t. sg @ ip @ fp @ ex = c # t \<and> (c = CHR ''-'' \<or> is_digit c)"
      using sg ip0 by (cases ip) auto
    ultimately show ?thesis by blast
  next
    case frac
    have sp: "takeWhile is_digit (ip @ fp @ ex) = ip \<and> dropWhile is_digit (ip @ fp @ ex) = fp @ ex"
      using digits_split[OF ip(1), of "fp @ ex"] frac nd by auto
    have sp2: "takeWhile is_digit (f @ ex) = f \<and> dropWhile is_digit (f @ ex) = ex"
      using digits_split[OF frac(2), of ex] ex nd by auto
    have fc: "list_all is_num_char fp"
      using frac digits_num_chars[OF frac(2)] by (simp add: is_num_char_def)
    have "f \<noteq> []" using frac(2) by (simp add: digit_run_def)
    then have "json_num_syntax (sg @ ip @ fp @ ex)"
      unfolding json_num_syntax_def Let_def s1 sp[THEN conjunct1] sp[THEN conjunct2]
      using ip ip0 ex_ok sp2 frac(1) by simp
    moreover have "list_all is_num_char (sg @ ip @ fp @ ex)"
      using sg ex_c ip_c fc by (auto simp: is_num_char_def)
    moreover have "\<exists>c t. sg @ ip @ fp @ ex = c # t \<and> (c = CHR ''-'' \<or> is_digit c)"
      using sg ip0 by (cases ip) auto
    ultimately show ?thesis by blast
  qed
qed

lemma read_number_js:
  assumes "dec_exact x" "r = [] \<or> \<not> is_num_char (hd r)"
  shows "read_number (js_number_string x @ r) = Some (JNum x, r)"
proof -
  obtain sg ip fp ex where sh: "js_number_string x = sg @ ip @ fp @ ex" "sg = [] \<or> sg = ''-''" "num_shape ip fp ex"
    using js_number_shape[OF assms(1)] by blast
  have syn: "json_num_syntax (js_number_string x)" "list_all is_num_char (js_number_string x)"
    using num_shape_syntax[OF sh(3,2)] sh(1) by simp_all
  have tr: "takeWhile is_num_char r = [] \<and> dropWhile is_num_char r = r" using assms(2) by (cases r) auto
  have "takeWhile is_num_char (js_number_string x @ r) = js_number_string x"
    "dropWhile is_num_char (js_number_string x @ r) = r"
    using syn(2) tr by (simp_all add: list_all_iff)
  then show ?thesis using syn(1) html_float_js_number[OF assms(1)] by (simp add: read_number_def)
qed

lemma js_number_head:
  assumes "dec_exact x"
  shows "\<exists>c t. js_number_string x = c # t \<and> (c = CHR ''-'' \<or> is_digit c)"
proof -
  obtain sg ip fp ex where sh: "js_number_string x = sg @ ip @ fp @ ex" "sg = [] \<or> sg = ''-''" "num_shape ip fp ex"
    using js_number_shape[OF assms] by blast
  then show ?thesis using num_shape_syntax[OF sh(3,2)] by simp
qed

lemma skip_ws_append: "list_all is_ws w \<Longrightarrow> skip_ws (w @ s) = skip_ws s"
  by (simp add: skip_ws_def list_all_iff)

lemma skip_ws_Cons: "\<not> is_ws c \<Longrightarrow> skip_ws (c # s) = c # s"
  by (simp add: skip_ws_def)

lemma read_value_ws: "list_all is_ws w \<Longrightarrow> read_value n (w @ s) = read_value n s"
  by (cases n) (simp_all add: skip_ws_append)

lemma js_join_Cons: "js_join sep (x # xs) = x @ (if xs = [] then [] else sep @ js_join sep xs)"
  by (cases xs) simp_all

lemma stringify_head:
  assumes "json_exact v"
  shows "\<exists>c t. json_stringify gap ind v = c # t \<and> \<not> is_ws c \<and> c \<noteq> CHR '']'' \<and> c \<noteq> CHR ''}''"
proof (cases v)
  case (JNum x)
  then obtain c t where "js_number_string x = c # t" "c = CHR ''-'' \<or> is_digit c"
    using js_number_head[of x] assms by auto
  then show ?thesis using JNum by (auto simp: is_ws_def is_digit_def)
qed (auto simp: is_ws_def quote_json_def)

lemma nl_ws: "is_ws (CHR 0x0A)"
  by (simp add: is_ws_def)

lemma ws_not_num: "is_ws c \<Longrightarrow> \<not> is_num_char c"
  by (auto simp: is_ws_def is_num_char_def)

lemma stringify_lists_length:
  "length (stringify_items gap ind vs) = length vs"
  "length (stringify_members gap ind kvs) = length kvs"
  by (induction vs, simp_all) (induction kvs, auto)

lemma punct_not_num: "\<not> is_num_char (CHR '','')" "\<not> is_num_char (CHR '']'')" "\<not> is_num_char (CHR ''}'')"
  by (simp_all add: is_num_char_def)

lemma punct_not_ws:
  "\<not> is_ws (CHR '','')" "\<not> is_ws (CHR '']'')" "\<not> is_ws (CHR ''}'')" "\<not> is_ws (CHR '':'')" "\<not> is_ws (CHR 0x22)"
  by (simp_all add: is_ws_def)

lemma items_head:
  assumes "vs \<noteq> []" "list_all json_exact vs"
  shows "\<exists>c t. js_join sep (stringify_items gap ind vs) = c # t \<and> \<not> is_ws c \<and> c \<noteq> CHR '']'' \<and> c \<noteq> CHR ''}''"
proof -
  obtain v vs' where v: "vs = v # vs'" using assms(1) by (cases vs) auto
  obtain c t where "json_stringify gap ind v = c # t" "\<not> is_ws c \<and> c \<noteq> CHR '']'' \<and> c \<noteq> CHR ''}''"
    using stringify_head[of v gap ind] assms(2) v by auto
  then show ?thesis using v by (simp add: js_join_Cons)
qed

lemma members_head:
  assumes "kvs \<noteq> []"
  shows "\<exists>t. js_join sep (stringify_members gap ind kvs) = CHR 0x22 # t"
proof -
  obtain k v kvs' where "kvs = (k, v) # kvs'" using assms by (cases kvs) auto
  then show ?thesis by (simp add: js_join_Cons quote_json_def)
qed

lemma stringify_reads:
  "\<And>n r. list_all is_ws gap \<Longrightarrow> list_all is_ws ind \<Longrightarrow> json_exact v
     \<Longrightarrow> length (json_stringify gap ind v) < n \<Longrightarrow> r = [] \<or> \<not> is_num_char (hd r)
     \<Longrightarrow> read_value n (json_stringify gap ind v @ r) = Some (json_plain v, r)"
  "\<And>w c n r. list_all is_ws gap \<Longrightarrow> list_all is_ws ind \<Longrightarrow> list_all json_exact vs \<Longrightarrow> vs \<noteq> []
     \<Longrightarrow> list_all is_ws w \<Longrightarrow> list_all is_ws c
     \<Longrightarrow> length (w @ js_join (if gap = [] then '','' else '','' @ CHR 0x0A # ind) (stringify_items gap ind vs) @ c) < n
     \<Longrightarrow> read_items (Suc n)
           (w @ js_join (if gap = [] then '','' else '','' @ CHR 0x0A # ind) (stringify_items gap ind vs) @ c @ CHR '']'' # r)
         = Some (map json_plain vs, r)"
  "\<And>w c n r. list_all is_ws gap \<Longrightarrow> list_all is_ws ind \<Longrightarrow> list_all (\<lambda>(k, v). json_exact v) kvs \<Longrightarrow> kvs \<noteq> []
     \<Longrightarrow> list_all is_ws w \<Longrightarrow> list_all is_ws c
     \<Longrightarrow> length (w @ js_join (if gap = [] then '','' else '','' @ CHR 0x0A # ind) (stringify_members gap ind kvs) @ c) < n
     \<Longrightarrow> read_members (Suc n)
           (w @ js_join (if gap = [] then '','' else '','' @ CHR 0x0A # ind) (stringify_members gap ind kvs) @ c @ CHR ''}'' # r)
         = Some (map (\<lambda>(k, v). (k, json_plain v)) kvs, r)"
proof (induction gap ind v and gap ind vs and gap ind kvs rule: json_stringify_stringify_items_stringify_members.induct)
  case (1 gap ind)
  then obtain m where "n = Suc m" by (cases n) auto
  then show ?case by (simp add: skip_ws_def is_ws_def)
next
  case (2 gap ind b)
  then obtain m where "n = Suc m" by (cases n) auto
  then show ?case by (simp add: skip_ws_def is_ws_def)
next
  case (3 gap ind x)
  then obtain m where m: "n = Suc m" by (cases n) auto
  obtain c t where ct: "js_number_string x = c # t" "c = CHR ''-'' \<or> is_digit c"
    using js_number_head[of x] 3 by auto
  have nc: "\<not> is_ws c" "c \<noteq> CHR ''n''" "c \<noteq> CHR ''t''" "c \<noteq> CHR ''f''" "c \<noteq> CHR 0x22"
    "c \<noteq> CHR ''[''" "c \<noteq> CHR ''{''"
    using ct(2) by (auto simp: is_ws_def is_digit_def)
  have "read_number (js_number_string x @ r) = Some (JNum x, r)" using read_number_js 3 by simp
  then show ?case using m ct(1) nc by (simp add: skip_ws_Cons)
next
  case (4 gap ind str)
  then obtain m where "n = Suc m" by (cases n) auto
  then show ?case by (simp add: quote_json_def skip_ws_Cons is_ws_def read_string_quoted)
next
  case (5 gap ind t)
  then obtain m where "n = Suc m" by (cases n) auto
  then show ?case by (simp add: quote_json_def skip_ws_Cons is_ws_def read_string_quoted)
next
  case (6 gap ind vs)
  then obtain m where m: "n = Suc m" by (cases n) auto
  show ?case
  proof (cases "vs = []")
    case True
    then show ?thesis using m by (simp add: skip_ws_Cons is_ws_def)
  next
    case ne: False
    have ex: "list_all json_exact vs" using "6.prems"(3) by simp
    show ?thesis
    proof (cases "gap = []")
      case gap: True
      define J where "J = js_join '','' (stringify_items gap ind vs)"
      obtain c t where ct: "J = c # t" "\<not> is_ws c" "c \<noteq> CHR '']''"
        using items_head[OF ne ex, of "'',''" gap ind] by (auto simp: J_def)
      have tx: "json_stringify gap ind (JArr vs) = CHR ''['' # J @ '']''" using ne gap by (simp add: J_def)
      then obtain k where k: "m = Suc k" "length J < k" using "6.prems"(4) m by (cases m) auto
      have ih: "read_items (Suc k) (J @ CHR '']'' # r) = Some (map json_plain vs, r)"
        using "6.IH"(1)[OF ne gap, of "[]" "[]" k r] "6.prems"(1,2) ex ne k(2) gap by (simp add: J_def)
      have "read_value n ((CHR ''['' # J @ '']'') @ r)
              = map_option (\<lambda>(vs, r''). (JArr vs, r'')) (read_items m (J @ CHR '']'' # r))"
        using m ct by (simp add: skip_ws_Cons is_ws_def del: read_items.simps)
      then show ?thesis using tx ih k(1) by simp
    next
      case gap: False
      define J where "J = js_join ('','' @ CHR 0x0A # ind @ gap) (stringify_items gap (ind @ gap) vs)"
      define w where "w = CHR 0x0A # ind @ gap"
      define c where "c = CHR 0x0A # ind"
      have wc: "list_all is_ws w" "list_all is_ws c" using "6.prems"(1,2) nl_ws by (simp_all add: w_def c_def)
      obtain d t where dt: "J = d # t" "\<not> is_ws d" "d \<noteq> CHR '']''"
        using items_head[OF ne ex, of "'','' @ CHR 0x0A # ind @ gap" gap "ind @ gap"] by (auto simp: J_def)
      have tx: "json_stringify gap ind (JArr vs) = CHR ''['' # w @ J @ c @ '']''"
        using ne gap by (simp add: J_def w_def c_def)
      then obtain k where k: "m = Suc k" "length (w @ J @ c) < k" using "6.prems"(4) m by (cases m) auto
      have ih: "read_items (Suc k) (w @ J @ c @ CHR '']'' # r) = Some (map json_plain vs, r)"
        using "6.IH"(2)[OF ne gap, of w c k r] "6.prems"(1,2) ex ne k(2) gap wc by (simp add: J_def)
      have "read_value n ((CHR ''['' # w @ J @ c @ '']'') @ r)
              = map_option (\<lambda>(vs, r''). (JArr vs, r'')) (read_items m (w @ J @ c @ CHR '']'' # r))"
        using m dt wc by (simp add: skip_ws_Cons skip_ws_append is_ws_def del: read_items.simps)
      then show ?thesis using tx ih k(1) by simp
    qed
  qed
next
  case (7 gap ind kvs)
  then obtain m where m: "n = Suc m" by (cases n) auto
  show ?case
  proof (cases "kvs = []")
    case True
    then show ?thesis using m by (simp add: skip_ws_Cons is_ws_def)
  next
    case ne: False
    have ex: "list_all (\<lambda>(k, v). json_exact v) kvs" using "7.prems"(3) by simp
    show ?thesis
    proof (cases "gap = []")
      case gap: True
      define J where "J = js_join '','' (stringify_members gap ind kvs)"
      obtain t where ct: "J = CHR 0x22 # t" using members_head[OF ne, of "'',''" gap ind] by (auto simp: J_def)
      have tx: "json_stringify gap ind (JObj kvs) = CHR ''{'' # J @ ''}''" using ne gap by (simp add: J_def)
      then obtain k where k: "m = Suc k" "length J < k" using "7.prems"(4) m by (cases m) auto
      have ih: "read_members (Suc k) (J @ CHR ''}'' # r) = Some (map (\<lambda>(k, v). (k, json_plain v)) kvs, r)"
        using "7.IH"(1)[OF ne gap, of "[]" "[]" k r] "7.prems"(1,2) ex ne k(2) gap by (simp add: J_def)
      have "read_value n ((CHR ''{'' # J @ ''}'') @ r)
              = map_option (\<lambda>(kvs, r''). (JObj kvs, r'')) (read_members m (J @ CHR ''}'' # r))"
        using m ct by (simp add: skip_ws_Cons is_ws_def del: read_members.simps)
      then show ?thesis using tx ih k(1) by simp
    next
      case gap: False
      define J where "J = js_join ('','' @ CHR 0x0A # ind @ gap) (stringify_members gap (ind @ gap) kvs)"
      define w where "w = CHR 0x0A # ind @ gap"
      define c where "c = CHR 0x0A # ind"
      have wc: "list_all is_ws w" "list_all is_ws c" using "7.prems"(1,2) nl_ws by (simp_all add: w_def c_def)
      obtain t where dt: "J = CHR 0x22 # t"
        using members_head[OF ne, of "'','' @ CHR 0x0A # ind @ gap" gap "ind @ gap"] by (auto simp: J_def)
      have tx: "json_stringify gap ind (JObj kvs) = CHR ''{'' # w @ J @ c @ ''}''"
        using ne gap by (simp add: J_def w_def c_def)
      then obtain k where k: "m = Suc k" "length (w @ J @ c) < k" using "7.prems"(4) m by (cases m) auto
      have ih: "read_members (Suc k) (w @ J @ c @ CHR ''}'' # r) = Some (map (\<lambda>(k, v). (k, json_plain v)) kvs, r)"
        using "7.IH"(2)[OF ne gap, of w c k r] "7.prems"(1,2) ex ne k(2) gap wc by (simp add: J_def)
      have "read_value n ((CHR ''{'' # w @ J @ c @ ''}'') @ r)
              = map_option (\<lambda>(kvs, r''). (JObj kvs, r'')) (read_members m (w @ J @ c @ CHR ''}'' # r))"
        using m dt wc by (simp add: skip_ws_Cons skip_ws_append is_ws_def del: read_members.simps)
      then show ?thesis using tx ih k(1) by simp
    qed
  qed
next
  case (8 gap ind)
  then show ?case by simp
next
  case (9 gap ind v vs)
  define sep where "sep = (if gap = [] then '','' else '','' @ CHR 0x0A # ind)"
  define S where "S = (if gap = [] then [] else CHR 0x0A # ind)"
  have sep: "sep = CHR '','' # S" "list_all is_ws S" using "9.prems"(2) nl_ws by (simp_all add: sep_def S_def)
  define tl_txt where "tl_txt = (if vs = [] then [] else sep @ js_join sep (stringify_items gap ind vs))"
  have ev: "json_exact v" "list_all json_exact vs" using "9.prems"(3) by simp_all
  have j: "js_join sep (json_stringify gap ind v # stringify_items gap ind vs) = json_stringify gap ind v @ tl_txt"
    by (simp add: js_join_Cons tl_txt_def flip: length_0_conv stringify_lists_length(1)[of gap ind vs])
  have fol: "tl_txt @ c @ CHR '']'' # r = [] \<or> \<not> is_num_char (hd (tl_txt @ c @ CHR '']'' # r))"
    using "9.prems"(6) sep(1) ws_not_num punct_not_num by (cases c) (auto simp: tl_txt_def)
  have p7: "length (w @ json_stringify gap ind v @ tl_txt @ c) < n"
    using "9.prems"(7) j by (simp add: sep_def)
  have lv: "length (json_stringify gap ind v) < n" using p7 by simp
  have rv: "read_value n (w @ json_stringify gap ind v @ tl_txt @ c @ CHR '']'' # r)
              = Some (json_plain v, tl_txt @ c @ CHR '']'' # r)"
    using read_value_ws[OF "9.prems"(5)] "9.IH"(1)[OF "9.prems"(1,2) ev(1) lv fol] by simp
  show ?case
  proof (cases "vs = []")
    case True
    have "skip_ws (c @ CHR '']'' # r) = CHR '']'' # r"
      using "9.prems"(6) by (simp add: skip_ws_append skip_ws_Cons punct_not_ws)
    then show ?thesis using rv True j by (simp add: tl_txt_def)
  next
    case False
    then obtain k where k: "n = Suc k" "length (S @ js_join sep (stringify_items gap ind vs) @ c) < k"
      using p7 sep(1) lv by (cases n) (auto simp: tl_txt_def)
    have ih: "read_items (Suc k) (S @ js_join sep (stringify_items gap ind vs) @ c @ CHR '']'' # r)
                = Some (map json_plain vs, r)"
      using "9.IH"(2)[OF "9.prems"(1,2) ev(2) False sep(2) "9.prems"(6), of k r] k(2) by (simp add: sep_def)
    have "skip_ws (tl_txt @ c @ CHR '']'' # r) = CHR '','' # S @ js_join sep (stringify_items gap ind vs) @ c @ CHR '']'' # r"
      using False sep(1) by (simp add: tl_txt_def skip_ws_Cons punct_not_ws)
    then show ?thesis using rv ih j k(1) by (simp flip: sep_def)
  qed
next
  case (10 gap ind)
  then show ?case by simp
next
  case (11 gap ind k v kvs)
  define sep where "sep = (if gap = [] then '','' else '','' @ CHR 0x0A # ind)"
  define S where "S = (if gap = [] then [] else CHR 0x0A # ind)"
  define sp where "sp = (if gap = [] then [] else '' '')"
  have sp_ws: "is_ws (CHR '' '')" by (simp add: is_ws_def)
  have sep: "sep = CHR '','' # S" "list_all is_ws S" "list_all is_ws sp"
    using "11.prems"(2) nl_ws sp_ws by (simp_all add: sep_def S_def sp_def)
  define tl_txt where "tl_txt = (if kvs = [] then [] else sep @ js_join sep (stringify_members gap ind kvs))"
  have ev: "json_exact v" "list_all (\<lambda>(k, v). json_exact v) kvs" using "11.prems"(3) by simp_all
  have j: "js_join sep ((quote_json k @ '':'' @ sp @ json_stringify gap ind v) # stringify_members gap ind kvs)
             = quote_json k @ '':'' @ sp @ json_stringify gap ind v @ tl_txt"
    by (simp add: js_join_Cons tl_txt_def flip: length_0_conv stringify_lists_length(2)[of gap ind kvs])
  have fol: "tl_txt @ c @ CHR ''}'' # r = [] \<or> \<not> is_num_char (hd (tl_txt @ c @ CHR ''}'' # r))"
    using "11.prems"(6) sep(1) ws_not_num punct_not_num by (cases c) (auto simp: tl_txt_def)
  have p7: "length (w @ quote_json k @ '':'' @ sp @ json_stringify gap ind v @ tl_txt @ c) < n"
    using "11.prems"(7) j by (simp add: sep_def sp_def)
  have lv: "length (json_stringify gap ind v) < n" using p7 by simp
  have rv: "read_value n (sp @ json_stringify gap ind v @ tl_txt @ c @ CHR ''}'' # r)
              = Some (json_plain v, tl_txt @ c @ CHR ''}'' # r)"
    using read_value_ws[OF sep(3)] "11.IH"(1)[OF "11.prems"(1,2) ev(1) lv fol] by simp
  have key: "skip_ws (w @ quote_json k @ '':'' @ sp @ json_stringify gap ind v @ tl_txt @ c @ CHR ''}'' # r)
      = CHR 0x22 # concat (map escape_char k) @ CHR 0x22 # CHR '':'' # sp @ json_stringify gap ind v @ tl_txt @ c @ CHR ''}'' # r"
    using "11.prems"(5) by (simp add: skip_ws_append skip_ws_Cons punct_not_ws quote_json_def)
  have colon: "skip_ws (CHR '':'' # sp @ json_stringify gap ind v @ tl_txt @ c @ CHR ''}'' # r)
      = CHR '':'' # sp @ json_stringify gap ind v @ tl_txt @ c @ CHR ''}'' # r"
    by (simp add: skip_ws_Cons punct_not_ws)
  have head: "read_members (Suc n) (w @ quote_json k @ '':'' @ sp @ json_stringify gap ind v @ tl_txt @ c @ CHR ''}'' # r)
      = (case skip_ws (tl_txt @ c @ CHR ''}'' # r) of
           [] \<Rightarrow> None
         | f # r4 \<Rightarrow>
             if f = CHR '','' then map_option (\<lambda>(kvs, r5). ((k, json_plain v) # kvs, r5)) (read_members n r4)
             else if f = CHR ''}'' then Some ([(k, json_plain v)], r4) else None)"
    unfolding read_members.simps(2) key using rv by (simp add: read_string_quoted colon del: read_members.simps)
  show ?case
  proof (cases "kvs = []")
    case True
    have "skip_ws (c @ CHR ''}'' # r) = CHR ''}'' # r"
      using "11.prems"(6) by (simp add: skip_ws_append skip_ws_Cons punct_not_ws)
    then show ?thesis using head True j by (simp add: tl_txt_def sp_def flip: sep_def)
  next
    case False
    then obtain m where m: "n = Suc m" "length (S @ js_join sep (stringify_members gap ind kvs) @ c) < m"
      using p7 sep(1) lv by (cases n) (auto simp: tl_txt_def)
    have ih: "read_members (Suc m) (S @ js_join sep (stringify_members gap ind kvs) @ c @ CHR ''}'' # r)
                = Some (map (\<lambda>(k, v). (k, json_plain v)) kvs, r)"
      using "11.IH"(2)[OF "11.prems"(1,2) ev(2) False sep(2) "11.prems"(6), of m r] m(2) by (simp add: sep_def)
    have "skip_ws (tl_txt @ c @ CHR ''}'' # r) = CHR '','' # S @ js_join sep (stringify_members gap ind kvs) @ c @ CHR ''}'' # r"
      using False sep(1) by (simp add: tl_txt_def skip_ws_Cons punct_not_ws)
    then show ?thesis using head ih j m(1) by (simp add: sp_def flip: sep_def)
  qed
qed

lemma json_read_stringify:
  assumes "json_exact v" "list_all is_ws gap"
  shows "json_read (json_stringify gap [] v) = Some (json_plain v)"
proof -
  have "read_value (Suc (length (json_stringify gap [] v))) (json_stringify gap [] v @ [])
          = Some (json_plain v, [])"
    using stringify_reads(1)[where gap = gap and ind = "[]" and v = v and n = "Suc (length (json_stringify gap [] v))"
        and r = "[]"] assms by simp
  then show ?thesis by (simp add: json_read_def skip_ws_def)
qed

lemma product_json_exact:
  "json_exact (product_json p) \<longleftrightarrow> dec_exact (idealTemp p) \<and> dec_exact (idealHumidity p) \<and> dec_exact (price p)
     \<and> dec_exact (temperature (sensors p)) \<and> dec_exact (humidity (sensors p))"
  by (cases "lastRestock p") (simp_all add: product_json_def dec_exact_int)

lemma initialProducts_exact: "list_all (\<lambda>p. json_exact (product_json p)) (initialProducts now)"
proof -
  have "list_all (\<lambda>p. dec_exact (idealTemp p) \<and> dec_exact (idealHumidity p) \<and> dec_exact (price p)
          \<and> dec_exact (temperature (sensors p)) \<and> dec_exact (humidity (sensors p))) (initialProducts 0)"
    by code_simp
  then show ?thesis by (simp add: product_json_exact initialProducts_def)
qed

lemma product_step_exact:
  "dec_exact (temperature (sensors (snd (product_step now d p))))"
  "dec_exact (humidity (sensors (snd (product_step now d p))))"
  "price (snd (product_step now d p)) = price p"
  "price (fst (product_step now d p)) = price p"
  "json_exact (product_json p) \<Longrightarrow> json_exact (product_json (fst (product_step now d p)))"
  "json_exact (product_json p) \<Longrightarrow> json_exact (product_json (snd (product_step now d p)))"
proof -
  have f: "k \<le> 2 \<Longrightarrow> dec_exact (to_fixed k x)" for k x
    by (simp add: dec_exact_to_fixed DEC_FUEL_def)
  obtain r1 r2 r3 where d: "d = (r1, r2, r3)" by (cases d) auto
  show "dec_exact (temperature (sensors (snd (product_step now d p))))"
    "dec_exact (humidity (sensors (snd (product_step now d p))))"
    "price (snd (product_step now d p)) = price p"
    "price (fst (product_step now d p)) = price p"
    by (simp_all add: d product_step_def Let_def temp_reading_def humidity_reading_def f)
  show "json_exact (product_json p) \<Longrightarrow> json_exact (product_json (fst (product_step now d p)))"
    "json_exact (product_json p) \<Longrightarrow> json_exact (product_json (snd (product_step now d p)))"
    by (simp_all add: d product_step_def Let_def temp_reading_def humidity_reading_def f product_json_exact)
qed

lemma tick_lists_all:
  assumes "\<And>d p. P p \<Longrightarrow> P (fst (product_step now d p))" and "\<And>d p. P p \<Longrightarrow> Q (snd (product_step now d p))"
    and "list_all P prev"
  shows "list_all P (prev_after (tick g now prm prev s)) \<and> list_all Q (next_products (tick g now prm prev s))"
proof -
  obtain ds s1 where dr: "product_draws g prev s = (ds, s1)" by fastforce
  obtain r s2 where gr: "g s1 = (r, s2)" by fastforce
  have len: "length ds = length prev" by (rule product_draws_length[OF dr])
  have "list_all P (map fst (map2 (product_step now) ds prev)) \<and> list_all Q (map snd (map2 (product_step now) ds prev))"
    using len assms(3) by (induction ds prev rule: list_induct2) (simp_all add: assms(1,2))
  then show ?thesis by (simp only: tick_parts(1,2)[OF dr gr])
qed

lemma write_back_all: "list_all P h \<Longrightarrow> list_all P ps \<Longrightarrow> list_all P (write_back as ps h)"
proof (induction as ps h rule: write_back.induct)
  case (1 a as p ps h)
  then show ?case by (auto simp: list_all_iff dest: set_update_subset_insert[THEN subsetD])
qed simp_all

lemma deref_list_all: "list_all P h \<Longrightarrow> valid_refs h as \<Longrightarrow> list_all P (deref h as)"
  by (auto simp: deref_def valid_refs_def list_all_iff)

lemma run_tick_exact:
  assumes "list_all (\<lambda>p. json_exact (product_json p)) (heap st)" and "valid_refs (heap st) (products st)"
  shows "list_all (\<lambda>p. json_exact (product_json p)) (heap (run_tick g now st))"
proof -
  let ?P = "\<lambda>p. json_exact (product_json p)"
  define out where "out = tick g now (params st) (deref (heap st) (products st)) (rng st)"
  have "list_all ?P (deref (heap st) (products st))"
    using deref_list_all assms by blast
  then have "list_all ?P (prev_after out) \<and> list_all ?P (next_products out)"
    unfolding out_def by (intro tick_lists_all) (simp_all add: product_step_exact(5,6))
  then show ?thesis
    using assms(1) write_back_all[of ?P "heap st"]
    by (simp add: run_tick_parts(1)[OF out_def refl refl])
qed

lemma heap_exact_reach: "app_reach g s0 t0 st \<Longrightarrow> rng_ok g \<Longrightarrow> heap_exact st"
proof (induction rule: app_reach.induct)
  case init
  show ?case by (simp add: heap_exact_def app_init_def initialProducts_exact)
next
  case (start st now)
  have "heap_inv st" using app_reach_inv[OF start.hyps(1) start.prems] by (simp add: app_inv_def)
  then have "valid_refs (heap st) (catalog st)" by (simp add: heap_inv_def)
  then show ?case using start by (simp add: start_eq Let_def run_tick_exact heap_exact_def)
next
  case (stop st)
  then show ?case by (simp add: heap_exact_def stop_simulation_def Let_def split: option.split)
next
  case (fire st i now)
  have "heap_inv st" using app_reach_inv[OF fire.hyps(1) fire.prems] by (simp add: app_inv_def)
  then show ?case using fire by (simp add: run_tick_exact heap_inv_def heap_exact_def)
next
  case (param st f v now)
  then show ?case by (simp add: heap_exact_def set_param_def initialProducts_exact)
next
  case (broker st i e)
  then show ?case by (simp add: heap_exact_def broker_event_def case_prod_unfold Let_def)
qed

lemma tick_lead_time_exact:
  assumes "dec_exact (leadTimeMin prm)"
  shows "dec_exact (lead_time_days (aggregate (tick g now prm prev s)))"
proof -
  obtain r where "lead_time_days (aggregate (tick g now prm prev s)) = lead_time prm r"
    using tick_lead_time_of[of g now prm prev s] by blast
  then show ?thesis using dec_exact_add_int[OF assms] by (simp add: lead_time_def)
qed

lemma js_number_chars:
  assumes "dec_exact x"
  shows "list_all is_num_char (js_number_string x)"
proof -
  obtain sg ip fp ex where sh: "js_number_string x = sg @ ip @ fp @ ex" "sg = [] \<or> sg = ''-''" "num_shape ip fp ex"
    using js_number_shape[OF assms] by blast
  have "list_all is_num_char (sg @ ip @ fp @ ex)" using num_shape_syntax[OF sh(3,2)] by (rule conjunct1[OF conjunct2])
  then show ?thesis by (simp only: sh(1))
qed

lemma panel_reads_back:
  assumes "rng_ok g" "app_reach g s0 t0 st" "currentData st = Some d" "dec_exact (lead_time_days d)"
  shows "json_read (panel_text (json_panel (heap st) (currentData st))) = Some (json_plain (result_json (heap st) d))
         \<and> simulation_result.products d = Some (app_state.products st)"
proof -
  have inv: "heap_inv st" "data_inv st" using app_reach_inv[OF assms(2,1)] by (simp_all add: app_inv_def)
  then have pd: "simulation_result.products d = Some (app_state.products st)"
    using assms(3) by (simp add: data_inv_def)
  have "list_all (\<lambda>p. json_exact (product_json p)) (deref (heap st) (app_state.products st))"
    using deref_list_all heap_exact_reach[OF assms(2,1)] inv(1) by (simp add: heap_exact_def heap_inv_def)
  then have "json_exact (result_json (heap st) d)"
    using pd assms(4) by (simp add: result_json_def dec_exact_int list_all_iff)
  moreover have "list_all is_ws ''  ''" by (simp add: is_ws_def)
  ultimately show ?thesis using json_read_stringify pd assms(3) by (simp add: json_panel_def)
qed

lemma lead_time_card_reads:
  assumes "dec_exact (lead_time_days d)"
  shows "html_float (takeWhile (\<lambda>c. c \<noteq> CHR '' '') (lead_time_card (Some d))) = Some (lead_time_days d)"
proof -
  have sp: "\<not> is_num_char (CHR '' '')" by (simp add: is_num_char_def)
  have "\<forall>c \<in> set (js_number_string (lead_time_days d)). c \<noteq> CHR '' ''"
    using js_number_chars[OF assms] sp by (auto simp: list_all_iff)
  then have "takeWhile (\<lambda>c. c \<noteq> CHR '' '') (lead_time_card (Some d)) = js_number_string (lead_time_days d)"
    unfolding lead_time_card_def by (simp add: takeWhile_append2)
  then show ?thesis using html_float_js_number[OF assms] by simp
qed

lemma product_payload_exact:
  "dec_exact (price p) \<Longrightarrow> dec_exact (temperature (sensors p)) \<Longrightarrow> dec_exact (humidity (sensors p))
   \<Longrightarrow> json_exact (product_payload now p)"
  by (cases "lastRestock p") (simp_all add: product_payload_def dec_exact_int)

lemma tick_next_exact:
  assumes "list_all (\<lambda>p. dec_exact (price p)) prev"
  shows "list_all (\<lambda>p. dec_exact (price p) \<and> dec_exact (temperature (sensors p)) \<and> dec_exact (humidity (sensors p)))
           (next_products (tick g now prm prev s))"
proof -
  have "list_all (\<lambda>p. dec_exact (price p)) (prev_after (tick g now prm prev s))
        \<and> list_all (\<lambda>p. dec_exact (price p) \<and> dec_exact (temperature (sensors p)) \<and> dec_exact (humidity (sensors p)))
            (next_products (tick g now prm prev s))"
    by (rule tick_lists_all) (simp_all add: product_step_exact(1-4) assms)
  then show ?thesis ..
qed

lemma tick_agg_exact:
  assumes "dec_exact (leadTimeMin prm)"
  shows "json_exact (agg_payload (aggregate (tick g now prm prev s)))"
  using tick_lead_time_exact[OF assms, of g now prev s] by (simp add: agg_payload_def dec_exact_int)

end
