(* ===== verification/Spec2Isabelle.thy ===== *)
theory Spec2Isabelle
  imports Tick_Engine Transport Scheduler Display Messages Wire_Text
begin

text \<open>
  \<^bold>\<open>A verification development of the supply-chain real-time simulator.\<close>

  \<^bold>\<open>The program.\<close> A React single-page application (\<^verbatim>\<open>src/App.tsx\<close>) keeps a
  registry of three products, seeded from the fixed catalog \<open>initialProducts\<close>.
  A repeating timer calls \<open>runSimulationTick\<close>, whose state updater (the tick
  engine) draws a random demand per product, restocks to capacity at or below the
  reorder level, draws new sensor readings, and totals the tick into an aggregate
  \<open>SimulationResult\<close>. Every product event and the aggregate are handed to the
  MQTT adapter \<^verbatim>\<open>src/services/mqttService.ts\<close>, which sends them only while
  its client is connected. \<open>startSimulation\<close> and \<open>stopSimulation\<close> own the
  lifecycle; the components under \<^verbatim>\<open>src/components/\<close> display the state.

  \<^bold>\<open>Theories.\<close>
  \<^item> \<open>Prelude\<close>: the model's type names, the injected random source
    (\<open>'s rng\<close>, a generator state threaded explicitly where the code calls the
    global \<open>Math.random()\<close>), JavaScript's \<open>toFixed\<close> and \<open>Math.round\<close> on exact
    reals, and the shared lemmas on floor draws and rounding.
  \<^item> \<open>Data_Model\<close>: \<^verbatim>\<open>src/types.ts\<close> (records \<open>product\<close>, \<open>sim_params\<close>,
    \<open>simulation_result\<close>; datatypes \<open>product_type\<close>, \<open>mqtt_status\<close>),
    \<^verbatim>\<open>src/constants.ts\<close> (\<open>MQTT_CONFIG\<close>, \<open>DEFAULT_PARAMS\<close>), the catalog
    \<open>initialProducts\<close>, and the well-formedness invariant \<open>product_wf\<close>.
  \<^item> \<open>Tick_Engine\<close>: the updater of \<open>runSimulationTick\<close>. \<open>simulate_product\<close>
    is the \<open>prev.map\<close> callback with the four running totals and the generator
    state passed explicitly, \<open>simulate_products\<close> the map, \<open>lead_time\<close> the
    single lead-time draw, \<open>tick\<close> the updater's result (next registry,
    aggregate, and the previous objects after their in-place \<open>lastRestock\<close>
    write). A declarative reference \<open>tick_spec\<close> (per-product \<open>product_step\<close>
    and sums) states what a tick promises; \<open>tick_refines_spec\<close> proves the
    accumulating loop computes it, and the properties of a tick (C1 to C10 and
    C12: well-formedness, the aggregate's totals, the restock rule, bounds of
    the draws, the spec's scenarios, the policy parameters the tick ignores)
    follow from it. \<open>stock_margin\<close> (stock above a reorder level that covers
    the largest demand draw) is shown to survive a tick, which then counts no
    stockout.
  \<^item> \<open>Transport\<close>: \<^verbatim>\<open>src/services/mqttService.ts\<close>. The adapter's state
    \<open>transport\<close> is the reference \<open>client\<close> into a heap \<open>lib_clients\<close> of the
    library's client objects, because \<open>connect\<close> overwrites the reference
    without ending the old client. \<open>connect\<close>, \<open>publish\<close>, \<open>disconnect\<close>
    follow the methods; \<open>on_client_event\<close> is the library firing
    \<open>connect\<close>/\<open>error\<close>/\<open>offline\<close> on a client and the handler's report.
    \<open>transport_step\<close> is the step relation of every interleaving of calls and
    events. C13 to C16 give the adapter's invariant, the delivery rule of
    \<open>publish\<close> (nothing without a connected client; otherwise one message on
    \<open>topic || MQTT_CONFIG.TOPIC\<close>), and the client \<open>connect\<close> orphans. The
    engine's \<open>Math.random().toString(16).substring(2, 8)\<close> is modelled from the
    ECMAScript specification: \<open>connect\<close> uses the six-step digit loop
    \<open>hex_digits\<close>; \<open>hex_expand\<close> is the unbounded loop as a
    \<^theory_text>\<open>partial_function (option)\<close>, proved (lemmas \<open>hex_expand_dyadic\<close>,
    \<open>hex_digits_expand\<close>) to return on every double in \<open>[0, 1)\<close> and to agree
    with \<open>hex_digits\<close> on its first six digits.
  \<^item> \<open>Scheduler\<close>: the component \<open>App\<close> of \<^verbatim>\<open>src/App.tsx\<close> as a state record
    \<open>app_state\<close> (React state, \<open>timerRef\<close>, the browser's armed intervals, the
    adapter, the generator) over an explicit heap of product objects, since
    \<open>history\<close> snapshots alias the objects the next tick writes. \<open>run_tick\<close>
    is \<open>runSimulationTick\<close> (the tick, its in-place writes, allocation of the
    next registry, publication in order, \<open>currentData\<close> and \<open>history\<close>);
    \<open>start_simulation\<close>, \<open>stop_simulation\<close>, \<open>unmount_cleanup\<close>,
    \<open>broker_event\<close> and \<open>set_param\<close> (an edit of the form and the render it
    causes) are the other handlers, \<open>app_reach\<close> the states the UI reaches,
    and \<open>fire_ticks\<close> the interval firing repeatedly. \<open>app_inv\<close> (timers,
    links, heap aliasing, displayed data) is proved of every reachable state
    (C17); C18 to C23 derive the lifecycle's safety (no tick after Stop or
    unmount), its progress (the interval keeps ticking), the reset on Start,
    the publication order, and two departures from the spec: history entries
    change after they are recorded, and a Start without the form's guard leaks
    an interval past Stop. C11 is a run the form allows: the lead-time inputs
    set \<open>leadTimeMin\<close> above \<open>leadTimeMax\<close> and the next run reports a lead time
    above the maximum. \<open>stock_inv\<close>, the stock margin of the registry and zero
    stockouts in every aggregate, is proved of every reachable state by rule
    induction over \<open>app_reach\<close>.
  \<^item> \<open>Messages\<close>: the specification's schema of the two messages as a
    datatype \<open>jtype\<close> with the check \<open>conforms\<close>. C24 and C25: every message
    a client has sent in a reachable state is a product event or an
    aggregate of the schema, and the aggregate's \<open>lead_time_days\<close> is an
    integer exactly when \<open>leadTimeMin\<close> is.
  \<^item> \<open>Number_Text\<close>: numbers as text, from the HTML and ECMAScript
    specifications. Reading: the value an \<open><input type="number">\<close> yields (the
    HTML floating-point number grammar, \<open>html_float\<close>) and \<open>Number\<close> of it.
    Printing: \<open>fixed_string\<close> for \<open>toFixed\<close> and \<open>js_number_string\<close> for
    \<open>Number::toString\<close> (integer, fraction, \<open>0.\<close> and exponent forms), which
    \<open>String(x)\<close>, template literals, React text and \<open>JSON.stringify\<close> use.
    Each printer is proved to read back: \<open>toFixed(d)\<close> as the value rounded
    to \<open>d\<close> places, \<open>String\<close> as the value itself whenever it has a finite
    decimal expansion within the fuel (\<open>dec_exact\<close>).
  \<^item> \<open>Display\<close>: what the components compute from the state:
    \<open>is_stockout\<close> and \<open>stock_card\<close> (\<^verbatim>\<open>MetricsDisplay.tsx\<close>),
    \<open>chart_data\<close> with \<open>slice(-20)\<close> and the chart's elements
    \<open>stock_chart\<close> with the series they draw (\<^verbatim>\<open>StockChart.tsx\<close>),
    \<open>stock_pct\<close>, \<open>temp_color\<close> and the texts \<open>product_card_of\<close> of the
    product cards (\<^verbatim>\<open>App.tsx\<close>), and \<open>handle_change\<close>
    (\<^verbatim>\<open>SimulationControls.tsx\<close>). C26: with the shipped catalog no
    reachable state ever counts a stockout, so the card's stockout colour is
    dead code; C27: the chart window slides and draws the inventory only (the
    computed reorder marks are never drawn).
  \<^item> \<open>Wire_Text\<close>: JSON as text. \<open>json_stringify\<close> is ECMAScript's
    \<open>JSON.stringify\<close> with its indentation unit (\<open>quote_json\<close> the quoting of
    strings, \<open>iso_string\<close> the \<open>toISOString\<close> of the timestamps);
    \<open>wire_text\<close> is the text \<open>publish\<close> sends; \<open>json_panel\<close> and
    \<open>lead_time_card\<close> are the Last JSON Message panel and the Lead Time card
    of \<^verbatim>\<open>MetricsDisplay.tsx\<close>, over \<open>result_json\<close> and \<open>product_json\<close>,
    the objects as serialised. \<open>json_read\<close> is a subscriber's reading of the
    text by the JSON grammar of RFC 8259. The lemmas of this theory
    (\<open>json_read_stringify\<close>, \<open>panel_reads_back\<close>) show that printed text
    reads back; they concern the runtime's printer more than the program, so
    no property of the program is stated here.
  \<^item> This theory: C28 and C29, properties of reachable states read through the
    display (the chart, the stock card and the registry agree; the product
    cards stay in range and never show the \<open>WARNING\<close> colour).

  \<^bold>\<open>Numbers.\<close> Stock counts, rates and totals are integers in every run and are
  \<open>int\<close>; prices, temperatures, humidities and the operator's parameters are
  \<open>real\<close> (exact: floating-point representation error is not modelled).
  Time stamps are \<open>Date.now()\<close> values passed in as \<open>now\<close>; a message keeps
  its timestamp as the instant (\<open>JDate\<close>) and \<open>iso_string\<close> prints it where
  the text is built.

  \<^bold>\<open>Random source and loops.\<close> Every theorem holds for any generator \<open>g\<close>
  with \<open>rng_ok g\<close> (draws in \<open>[0, 1)\<close>), as \<open>Math.random()\<close> promises; the
  examples use the fixed generator \<open>demo_rng\<close> so that they evaluate. The tick
  maps over a finite registry and the timer is modelled as events of
  \<open>app_reach\<close>, so neither needs fuel. The one loop that need not stop on a
  real, the digit loop of \<open>toString(16)\<close>, is \<open>hex_expand\<close>, with \<open>None\<close> for
  not returning; it is proved to return on every dyadic rational
  \<open>m / 2^k\<close> with \<open>m < 2^k\<close>, which covers every double in \<open>[0, 1)\<close>.
  \<open>hex_digits\<close> bounds the same loop by six steps (the \<open>substring(2, 8)\<close>),
  and the two agree there. \<open>js_number_string\<close> searches the fewest decimal
  places of a real with fuel 1074 (\<open>DEC_FUEL\<close>): every finite double is a
  multiple of \<open>2^-1074\<close>, so the search finds the places of every double.
  The JSON reader \<open>json_read\<close> recurses with fuel one more than the length of
  its text; the round trip theorems prove that this fuel always suffices on
  printed text.

  \<^bold>\<open>Not modelled.\<close> JSX rendering and styling; the \<open>mqtt\<close> client library's
  internals (its reconnect policy and wire protocol), of which only the events it
  reports are modelled; React's scheduling of state updates (updaters run once,
  in call order, as in a production build); the interval's period (the timer
  is an event that may fire at any time, which covers every period); the
  chart's time labels (\<open>toLocaleTimeString\<close> depends on the browser's locale
  and time zone); binary floating point (numbers are exact: \<open>String\<close> prints
  the exact decimal of a real, which is the engine's shortest round-trip
  output on the decimals the program computes, and \<open>toString(16)\<close> is
  modelled by the exact expansion of the double) and \<open>NaN\<close>, which a number
  input never yields; the \<open>RangeError\<close> of \<open>toISOString\<close> beyond year
  275760, which no \<open>Date.now()\<close> reaches.
\<close>

section \<open>Properties spanning the components\<close>

text \<open>
  C28. In every reachable state with data, the dashboard agrees with the
  registry: the last point of the stock chart and the Current Stock card both
  show the registry's total stock.
\<close>

theorem dashboard_consistent:
  assumes "rng_ok g" and "app_reach g s0 t0 st" and "currentData st = Some d"
  shows "inventory (last (chart_data (history st))) = sum_list (map currentStock (deref (heap st) (products st)))
         \<and> fst (stock_card (currentData st)) = CardNum (sum_list (map currentStock (deref (heap st) (products st))))"
proof -
  have "data_inv st" using app_reach_inv[OF assms(2,1)] by (simp add: app_inv_def)
  then have "history st \<noteq> []" "last (history st) = d"
    "inventory_level d = sum_list (map currentStock (deref (heap st) (products st)))"
    using assms(3) by (simp_all add: data_inv_def)
  then show ?thesis
    using assms(3) by (simp add: chart_data_last chart_point_of_def stock_card_def)
qed

theorem dashboard_consistent_witness:
  "rng_ok demo_rng \<and> app_reach demo_rng 7 0 demo_started
   \<and> currentData demo_started = Some (the (currentData demo_started))
   \<and> inventory (last (chart_data (history demo_started)))
       = sum_list (map currentStock (deref (heap demo_started) (products demo_started)))
   \<and> fst (stock_card (currentData demo_started))
       = CardNum (sum_list (map currentStock (deref (heap demo_started) (products demo_started))))"
  using dashboard_consistent[OF demo_rng_ok demo_started_reach demo_started_data]
    demo_rng_ok demo_started_reach demo_started_data by blast

text \<open>
  C29. In every reachable state each product card's stock bar lies in
  \<open>0..100\<close> percent, and its temperature badge is never the \<open>WARNING\<close>
  colour: the tick never derives \<open>WARNING\<close>, so that branch of the card is
  dead; its price text reads back as the price to two decimals.
\<close>

theorem product_cards_in_range:
  assumes "rng_ok g" and "app_reach g s0 t0 st"
  shows "list_all (\<lambda>p. 0 \<le> stock_pct p \<and> stock_pct p \<le> 100 \<and> card_badge (product_card_of p) = ''bg-green-400''
             \<and> html_float (fixed_string 2 (price p)) = Some (to_fixed 2 (price p)))
           (deref (heap st) (products st))"
proof -
  have "heap_inv st" using app_reach_inv[OF assms(2,1)] by (simp add: app_inv_def)
  then have "list_all product_wf (deref (heap st) (products st))"
    "list_all (\<lambda>p. status p = ''OK'') (deref (heap st) (products st))"
    by (simp_all add: heap_inv_def)
  then show ?thesis by (auto simp: list_all_iff stock_pct_bounds temp_color_def product_card_of_def html_float_fixed)
qed

theorem product_cards_in_range_witness:
  "rng_ok demo_rng \<and> app_reach demo_rng 7 0 demo_started
   \<and> list_all (\<lambda>p. 0 \<le> stock_pct p \<and> stock_pct p \<le> 100 \<and> card_badge (product_card_of p) = ''bg-green-400''
             \<and> html_float (fixed_string 2 (price p)) = Some (to_fixed 2 (price p)))
       (deref (heap demo_started) (products demo_started))"
  using product_cards_in_range[OF demo_rng_ok demo_started_reach] demo_rng_ok demo_started_reach by blast

end
